(* ===== verification/Go_Prelude.thy ===== *)
theory Go_Prelude
  imports Main "HOL-Library.AList" "HOL-Library.Sublist" "HOL-Library.Char_ord"
    "HOL-Library.List_Lexorder"
begin

text \<open>
  The part of the Go language and of its standard library that the driver uses: error
  values with wrapping (\<open>fmt.Errorf\<close> with and without \<open>%w\<close>, \<open>errors.Is\<close>,
  \<open>errors.As\<close>), the \<open>strings\<close>, \<open>strconv\<close> and \<open>sort\<close> functions, and Go
  maps as association lists. A Go string is a list of bytes (\<open>char\<close>); everything the
  driver parses is ASCII, and the Unicode-only behaviours of \<open>strings\<close> (spaces beyond
  ASCII, case folding beyond ASCII) are outside the model.

  The theory also holds the generic lemmas the components share and the collections
  \<open>go_string\<close> (the string functions, for evaluation) and \<open>go_err\<close> (error
  classification).
\<close>

named_theorems go_string \<open>definitions of the modelled string functions\<close>
named_theorems go_err \<open>classification of error values\<close>

section \<open>Errors\<close>

text \<open>
  The errno values the driver tells apart are \<open>ENOENT\<close> and the rest; a few of the rest
  are named because the kernel documents them. \<open>Errorf\<close> is \<open>fmt.Errorf\<close> without a
  wrapped error and \<open>Wrapf\<close> is \<open>fmt.Errorf\<close> with \<open>%w\<close>: format string, the other
  arguments, and the wrapped error.
\<close>

datatype errno = ENOENT | EIO | EACCES | EINVAL | ENODEV | EBUSY | EEXIST | ENOTDIR | EISDIR
  | Errno nat

datatype ctx_err = Canceled | DeadlineExceeded

datatype farg = FStr string | FInt int

datatype goerr =
    PathError string errno
  | CtxError ctx_err
  | NumError string
  | JSONError string
  | BadPattern
  | Errorf string "farg list"
  | Wrapf string "farg list" goerr

text \<open>
  \<open>errors.Is(err, fs.ErrNotExist)\<close> follows the \<open>%w\<close> chain, \<open>os.IsNotExist(err)\<close>
  looks at the error itself only; \<open>errors.As(err, *fs.PathError)\<close> follows the chain.
\<close>

fun errors_Is_NotExist :: "goerr \<Rightarrow> bool" where
  "errors_Is_NotExist (PathError _ e) = (e = ENOENT)"
| "errors_Is_NotExist (Wrapf _ _ e) = errors_Is_NotExist e"
| "errors_Is_NotExist _ = False"

fun os_IsNotExist :: "goerr \<Rightarrow> bool" where
  "os_IsNotExist (PathError _ e) = (e = ENOENT)"
| "os_IsNotExist _ = False"

fun errors_As_PathError :: "goerr \<Rightarrow> bool" where
  "errors_As_PathError (PathError _ _) = True"
| "errors_As_PathError (Wrapf _ _ e) = errors_As_PathError e"
| "errors_As_PathError _ = False"

lemma os_IsNotExist_Is [go_err]: "os_IsNotExist e \<Longrightarrow> errors_Is_NotExist e"
  by (cases e) auto

lemma errors_Is_NotExist_As [go_err]: "errors_Is_NotExist e \<Longrightarrow> errors_As_PathError e"
  by (induction e) auto

section \<open>Strings\<close>

abbreviation (input) nl :: char where "nl \<equiv> CHR 0x0A"

definition is_space :: "char \<Rightarrow> bool" where
  [go_string]: "is_space c \<longleftrightarrow>
     c = CHR '' '' \<or> c = CHR 0x09 \<or> c = CHR 0x0A \<or> c = CHR 0x0B \<or> c = CHR 0x0C \<or> c = CHR 0x0D"

text \<open>\<open>strings.TrimSpace\<close>.\<close>

definition TrimSpace :: "string \<Rightarrow> string" where
  [go_string]: "TrimSpace s = rev (dropWhile is_space (rev (dropWhile is_space s)))"

text \<open>\<open>strings.Split(s, c)\<close> for a one-byte separator.\<close>

fun Split :: "char \<Rightarrow> string \<Rightarrow> string list" where
  "Split c [] = [[]]"
| "Split c (x # xs) =
     (if x = c then [] # Split c xs
      else (case Split c xs of [] \<Rightarrow> [[x]] | h # t \<Rightarrow> (x # h) # t))"

text \<open>\<open>strings.Cut(s, c)\<close>: \<open>None\<close> when the separator is absent.\<close>

fun Cut :: "char \<Rightarrow> string \<Rightarrow> (string \<times> string) option" where
  "Cut c [] = None"
| "Cut c (x # xs) =
     (if x = c then Some ([], xs)
      else (case Cut c xs of None \<Rightarrow> None | Some (a, b) \<Rightarrow> Some (x # a, b)))"

text \<open>\<open>strings.Join(xs, sep)\<close>.\<close>

fun Join_with :: "string \<Rightarrow> string list \<Rightarrow> string" where
  "Join_with sep [] = []"
| "Join_with sep [x] = x"
| "Join_with sep (x # y # ys) = x @ sep @ Join_with sep (y # ys)"

text \<open>\<open>strings.Fields\<close>: the maximal runs of non-space bytes.\<close>

function Fields :: "string \<Rightarrow> string list" where
  "Fields s =
     (let t = dropWhile is_space s in
      if t = [] then []
      else takeWhile (Not \<circ> is_space) t # Fields (dropWhile (Not \<circ> is_space) t))"
  by pat_completeness auto

lemma dropWhile_not_space_shorter:
  assumes "dropWhile is_space s \<noteq> []"
  shows "length (dropWhile (Not \<circ> is_space) (dropWhile is_space s)) < length s"
proof -
  obtain x xs where t: "dropWhile is_space s = x # xs"
    using assms by (cases "dropWhile is_space s") auto
  then have "\<not> is_space x" by (metis dropWhile_eq_Cons_conv)
  then have "length (dropWhile (Not \<circ> is_space) (x # xs)) < length (x # xs)"
    by (simp add: length_dropWhile_le le_imp_less_Suc)
  moreover have "length (x # xs) \<le> length s"
    using length_dropWhile_le [of is_space s] t by simp
  ultimately show ?thesis using t by simp
qed

termination Fields
  by (relation "measure length") (auto simp: dropWhile_not_space_shorter)

declare Fields.simps [simp del]

text \<open>\<open>strings.Index(s, p)\<close>, \<open>None\<close> for -1.\<close>

fun Index :: "string \<Rightarrow> string \<Rightarrow> nat option" where
  "Index p [] = (if p = [] then Some 0 else None)"
| "Index p (x # xs) =
     (if take (length p) (x # xs) = p then Some 0 else map_option Suc (Index p xs))"

definition HasPrefix :: "string \<Rightarrow> string \<Rightarrow> bool" where
  [go_string]: "HasPrefix s p \<longleftrightarrow> take (length p) s = p"

definition HasSuffix :: "string \<Rightarrow> string \<Rightarrow> bool" where
  [go_string]: "HasSuffix s p \<longleftrightarrow> length p \<le> length s \<and> drop (length s - length p) s = p"

definition TrimPrefix :: "string \<Rightarrow> string \<Rightarrow> string" where
  [go_string]: "TrimPrefix s p = (if HasPrefix s p then drop (length p) s else s)"

definition TrimSuffix :: "string \<Rightarrow> string \<Rightarrow> string" where
  [go_string]: "TrimSuffix s p =
     (if HasSuffix s p then take (length s - length p) s else s)"

text \<open>\<open>strings.ReplaceAll(s, c, "")\<close> for a one-byte \<open>c\<close>.\<close>

definition RemoveAll_char :: "char \<Rightarrow> string \<Rightarrow> string" where
  [go_string]: "RemoveAll_char c s = filter (\<lambda>x. x \<noteq> c) s"

definition lower_char :: "char \<Rightarrow> char" where
  [go_string]: "lower_char c =
     (if CHR ''A'' \<le> c \<and> c \<le> CHR ''Z'' then char_of (of_char c + (32::nat)) else c)"

definition ToLower :: "string \<Rightarrow> string" where
  [go_string]: "ToLower s = map lower_char s"

definition is_digit :: "char \<Rightarrow> bool" where
  [go_string]: "is_digit c \<longleftrightarrow> CHR ''0'' \<le> c \<and> c \<le> CHR ''9''"

definition is_lhex :: "char \<Rightarrow> bool" where
  [go_string]: "is_lhex c \<longleftrightarrow> is_digit c \<or> CHR ''a'' \<le> c \<and> c \<le> CHR ''f''"

definition is_hex :: "char \<Rightarrow> bool" where
  [go_string]: "is_hex c \<longleftrightarrow> is_lhex c \<or> CHR ''A'' \<le> c \<and> c \<le> CHR ''F''"

section \<open>Numbers\<close>

text \<open>
  \<open>strconv.Itoa\<close> and \<open>strconv.FormatInt(_, 10)\<close>; \<open>strconv.Atoi\<close> on a 64-bit
  \<open>int\<close>: an optional sign, at least one digit, and a range check.
\<close>

definition digit_char :: "nat \<Rightarrow> char" where
  "digit_char d = char_of (48 + d)"

fun nat_digits :: "nat \<Rightarrow> string" where
  "nat_digits n = (if n < 10 then [digit_char n] else nat_digits (n div 10) @ [digit_char (n mod 10)])"

declare nat_digits.simps [simp del]

definition Itoa :: "int \<Rightarrow> string" where
  "Itoa i = (if i < 0 then CHR ''-'' # nat_digits (nat (- i)) else nat_digits (nat i))"

definition digit_val :: "char \<Rightarrow> nat" where
  "digit_val c = of_char c - 48"

definition digits_val :: "string \<Rightarrow> nat" where
  "digits_val s = foldl (\<lambda>n c. 10 * n + digit_val c) 0 s"

definition Atoi :: "string \<Rightarrow> goerr + int" where
  "Atoi s =
     (let ds = (case s of [] \<Rightarrow> [] | c # cs \<Rightarrow> if c = CHR ''-'' \<or> c = CHR ''+'' then cs else s);
          neg = (s \<noteq> [] \<and> hd s = CHR ''-'');
          v = (if neg then - int (digits_val ds) else int (digits_val ds))
      in if ds = [] \<or> \<not> list_all is_digit ds then Inl (NumError s)
         else if v < - (2 ^ 63) \<or> 2 ^ 63 \<le> v then Inl (NumError s)
         else Inr v)"

text \<open>Two's-complement wrap-around of a 64-bit signed integer.\<close>

definition wrap64 :: "int \<Rightarrow> int" where
  "wrap64 x = (x + 2 ^ 63) mod 2 ^ 64 - 2 ^ 63"

lemma wrap64_id: "- (2 ^ 63) \<le> x \<Longrightarrow> x < 2 ^ 63 \<Longrightarrow> wrap64 x = x"
  by (simp add: wrap64_def)

section \<open>Go maps\<close>

text \<open>
  A Go map is an association list with distinct keys: a write is \<open>AList.update\<close>, a
  read is \<open>map_of\<close>. The order of the list is the order in which a \<open>range\<close> loop
  visits it; Go leaves that order open, so the code's loops over maps take the order from
  a parameter (an iteration oracle, \<open>perm_oracle\<close>) where the result can depend on it.
\<close>

type_synonym 'v gomap = "(string \<times> 'v) list"

definition perm_oracle :: "('a list \<Rightarrow> 'a list) \<Rightarrow> bool" where
  "perm_oracle f \<longleftrightarrow> (\<forall>xs. set (f xs) = set xs \<and> length (f xs) = length xs)"

lemma perm_oracle_set: "perm_oracle f \<Longrightarrow> set (f xs) = set xs"
  by (simp add: perm_oracle_def)

lemma perm_oracle_length: "perm_oracle f \<Longrightarrow> length (f xs) = length xs"
  by (simp add: perm_oracle_def)

lemma perm_oracle_distinct:
  assumes "perm_oracle f" and "distinct xs"
  shows "distinct (f xs)"
  using assms distinct_card [of xs]
  by (intro card_distinct) (simp add: perm_oracle_set perm_oracle_length)

section \<open>Shared lemmas\<close>

lemma Split_not_Nil [simp]: "Split c s \<noteq> []"
  by (induction s) (auto split: list.splits)

lemma Split_no_sep: "c \<notin> set s \<Longrightarrow> Split c s = [s]"
  by (induction s) auto

lemma Split_append: "c \<notin> set a \<Longrightarrow> Split c (a @ c # b) = a # Split c b"
  by (induction a) auto

lemma Cut_append: "c \<notin> set a \<Longrightarrow> Cut c (a @ c # b) = Some (a, b)"
  by (induction a) auto

lemma Cut_Some: "Cut c s = Some (a, b) \<Longrightarrow> s = a @ c # b \<and> c \<notin> set a"
  by (induction s arbitrary: a) (auto split: if_splits option.splits)

lemma Cut_None: "Cut c s = None \<longleftrightarrow> c \<notin> set s"
  by (induction s) (auto split: option.splits)

text \<open>The text of a file that ends every line with a newline splits into its lines.\<close>

lemma Split_lines:
  assumes "\<And>x. x \<in> set ls \<Longrightarrow> c \<notin> set x"
  shows "Split c (concat (map (\<lambda>x. x @ [c]) ls)) = ls @ [[]]"
  using assms by (induction ls) (auto simp: Split_append)

lemma dropWhile_none: "(\<And>x. x \<in> set xs \<Longrightarrow> \<not> P x) \<Longrightarrow> dropWhile P xs = xs"
  by (cases xs) auto

lemma TrimSpace_id: "(\<And>c. c \<in> set s \<Longrightarrow> \<not> is_space c) \<Longrightarrow> TrimSpace s = s"
  using dropWhile_none [of s is_space] dropWhile_none [of "rev s" is_space]
  by (simp add: TrimSpace_def)

lemma TrimSpace_no_space_ends:
  "TrimSpace s = [] \<or> \<not> is_space (hd (TrimSpace s)) \<and> \<not> is_space (last (TrimSpace s))"
proof (cases "TrimSpace s = []")
  case False
  let ?t = "dropWhile is_space s"
  have ne: "dropWhile is_space (rev ?t) \<noteq> []" using False by (simp add: TrimSpace_def)
  then have last: "\<not> is_space (last (TrimSpace s))"
    by (metis TrimSpace_def hd_dropWhile last_rev)
  from ne have "?t \<noteq> []" by (metis dropWhile.simps(1) rev.simps(1))
  moreover obtain u where "rev ?t = u @ dropWhile is_space (rev ?t)"
    by (metis takeWhile_dropWhile_id)
  then have "?t = TrimSpace s @ rev u" by (metis TrimSpace_def rev_append rev_rev_ident)
  ultimately have "hd (TrimSpace s) = hd ?t" using False by (metis hd_append2)
  moreover have "\<not> is_space (hd ?t)" using \<open>?t \<noteq> []\<close> by (rule hd_dropWhile)
  ultimately show ?thesis using last by simp
qed simp

lemma HasPrefix_append [simp]: "HasPrefix (p @ s) p"
  by (simp add: HasPrefix_def)

lemma HasPrefix_iff: "HasPrefix s p \<longleftrightarrow> prefix p s"
  by (auto simp: HasPrefix_def prefix_def) (metis append_take_drop_id)

lemma HasSuffix_append [simp]: "HasSuffix (s @ p) p"
  by (simp add: HasSuffix_def)

lemma TrimPrefix_append [simp]: "TrimPrefix (p @ s) p = s"
  by (simp add: TrimPrefix_def)

lemma TrimSuffix_append [simp]: "TrimSuffix (s @ p) p = s"
  by (simp add: TrimSuffix_def)

lemma map_of_update_same [simp]: "map_of (AList.update k v m) k = Some v"
  by (simp add: update_conv')

lemma map_of_update_other [simp]: "k' \<noteq> k \<Longrightarrow> map_of (AList.update k v m) k' = map_of m k'"
  by (simp add: update_conv')

lemma update_new: "k \<notin> fst ` set m \<Longrightarrow> AList.update k v m = m @ [(k, v)]"
  by (induction m) auto

lemma fold_update_copy:
  "distinct (map fst (acc @ m)) \<Longrightarrow> fold (\<lambda>(k, v). AList.update k v) m acc = acc @ m"
proof (induction m arbitrary: acc)
  case (Cons p m)
  then have "AList.update (fst p) (snd p) acc = acc @ [p]" by (auto simp: update_new)
  with Cons show ?case by (simp add: case_prod_beta)
qed simp

lemma fold_update_distinct:
  "distinct (map fst acc) \<Longrightarrow> distinct (map fst (fold (\<lambda>(k, v). AList.update k v) m acc))"
  by (induction m arbitrary: acc) (simp_all add: case_prod_beta distinct_update)

end
