(* ===== verification/Go_OS.thy ===== *)
theory Go_OS
  imports Go_Prelude
begin

text \<open>
  The operating system as the driver sees it. The kernel's sysfs attributes and the node's
  file systems are not code of the repository: they are a parameter, a record of functions
  over an unknown world type, and every definition that touches a file takes it as an
  argument. A read observes the world at the moment of the call and leaves it unchanged; a
  write, a directory creation and a removal return the error, if any, and the new world.
  Nothing is assumed about the functions here. Theory \<open>Ap_Kernel\<close> states what the kernel
  documents about the attributes the driver writes, as laws of a locale.

  The second half is \<open>path/filepath\<close>: \<open>Clean\<close>, \<open>Join\<close>, \<open>Base\<close> and \<open>Dir\<close>
  on Unix paths, with the lemmas that compute them on paths built from plain components.
\<close>

section \<open>The operating system parameter\<close>

record dir_entry =
  entry_name :: string
  entry_is_dir :: bool

record 'w os =
  os_Stat :: "string \<Rightarrow> 'w \<Rightarrow> goerr option"
  os_ReadFile :: "string \<Rightarrow> 'w \<Rightarrow> goerr + string"
  os_ReadDir :: "string \<Rightarrow> 'w \<Rightarrow> goerr + dir_entry list"
  os_Readlink :: "string \<Rightarrow> 'w \<Rightarrow> goerr + string"
  os_Glob :: "string \<Rightarrow> 'w \<Rightarrow> goerr + string list"
  os_WriteFile :: "string \<Rightarrow> string \<Rightarrow> nat \<Rightarrow> 'w \<Rightarrow> goerr option \<times> 'w"
  os_MkdirAll :: "string \<Rightarrow> nat \<Rightarrow> 'w \<Rightarrow> goerr option \<times> 'w"
  os_Remove :: "string \<Rightarrow> 'w \<Rightarrow> goerr option \<times> 'w"
  os_RemoveAll :: "string \<Rightarrow> 'w \<Rightarrow> goerr option \<times> 'w"

section \<open>Paths\<close>

abbreviation (input) slash :: char where "slash \<equiv> CHR ''/''"

text \<open>
  \<open>filepath.Clean\<close> works through the components: empty ones and \<open>.\<close> are dropped,
  \<open>..\<close> removes the component before it, and a rooted path has nothing above its root.
\<close>

fun clean_comps :: "bool \<Rightarrow> string list \<Rightarrow> string list \<Rightarrow> string list" where
  "clean_comps rooted [] acc = rev acc"
| "clean_comps rooted (c # cs) acc =
     (if c = [] \<or> c = ''.'' then clean_comps rooted cs acc
      else if c = ''..'' then
        (case acc of
           [] \<Rightarrow> clean_comps rooted cs (if rooted then [] else [''..''])
         | a # as \<Rightarrow> clean_comps rooted cs (if a = ''..'' then ''..'' # acc else as))
      else clean_comps rooted cs (c # acc))"

definition Clean :: "string \<Rightarrow> string" where
  "Clean p =
     (let rooted = (p \<noteq> [] \<and> hd p = slash);
          cs = clean_comps rooted (Split slash p) []
      in if rooted then slash # Join_with [slash] cs
         else if cs = [] then ''.'' else Join_with [slash] cs)"

text \<open>\<open>filepath.Join\<close>: leading empty elements are dropped, the rest is joined and cleaned.\<close>

definition Join :: "string list \<Rightarrow> string" where
  "Join es =
     (case dropWhile (\<lambda>e. e = []) es of [] \<Rightarrow> [] | e # es' \<Rightarrow> Clean (Join_with [slash] (e # es')))"

definition Base :: "string \<Rightarrow> string" where
  "Base p =
     (if p = [] then ''.''
      else let q = rev (dropWhile (\<lambda>c. c = slash) (rev p))
           in if q = [] then [slash] else last (Split slash q))"

definition Dir :: "string \<Rightarrow> string" where
  "Dir p = Clean (rev (dropWhile (\<lambda>c. c \<noteq> slash) (rev p)))"

text \<open>
  A plain component is one that \<open>Clean\<close> keeps as it is. An absolute path of plain
  components is \<open>path_of\<close> of them, and distinct component lists are distinct paths.
\<close>

definition plain :: "string \<Rightarrow> bool" where
  "plain c \<longleftrightarrow> c \<noteq> [] \<and> c \<noteq> ''.'' \<and> c \<noteq> ''..'' \<and> slash \<notin> set c"

definition path_of :: "string list \<Rightarrow> string" where
  "path_of cs = concat (map (\<lambda>c. slash # c) cs)"

lemma path_of_Nil [simp]: "path_of [] = []"
  by (simp add: path_of_def)

lemma path_of_Cons: "path_of (c # cs) = slash # c @ path_of cs"
  by (simp add: path_of_def)

lemma path_of_append: "path_of (cs @ ds) = path_of cs @ path_of ds"
  by (simp add: path_of_def)

lemma Join_with_slash: "slash # Join_with [slash] (c # cs) = path_of (c # cs)"
  by (induction cs arbitrary: c) (auto simp: path_of_Cons)

lemma Split_path_of:
  assumes "\<forall>c \<in> set cs. slash \<notin> set c"
  shows "Split slash (path_of cs) = [] # cs"
  using assms
proof (induction cs)
  case (Cons c cs)
  have "Split slash (c @ path_of cs) = c # tl (Split slash (path_of cs))"
    using Cons.prems by (cases cs) (auto simp: path_of_Cons Split_no_sep Split_append)
  with Cons show ?case by (simp add: path_of_Cons)
qed simp

lemma path_of_inj:
  assumes "path_of cs = path_of ds" "\<forall>c \<in> set cs. slash \<notin> set c" "\<forall>d \<in> set ds. slash \<notin> set d"
  shows "cs = ds"
  using assms by (metis Split_path_of list.inject)

lemma clean_comps_plain: "\<forall>c \<in> set cs. plain c \<Longrightarrow> clean_comps r cs acc = rev acc @ cs"
  by (induction cs arbitrary: acc) (auto simp: plain_def)

lemma Clean_path_of:
  assumes "\<forall>c \<in> set cs. plain c" "cs \<noteq> []"
  shows "Clean (path_of cs) = path_of cs"
proof -
  have "Split slash (path_of cs) = [] # cs"
    using assms by (intro Split_path_of) (auto simp: plain_def)
  then have "clean_comps True (Split slash (path_of cs)) [] = cs"
    using assms by (simp add: clean_comps_plain)
  moreover obtain c cs' where cs: "cs = c # cs'" using assms by (cases cs) auto
  moreover have "path_of cs = slash # c @ path_of cs'" by (simp add: cs path_of_Cons)
  ultimately show ?thesis
    by (simp add: Clean_def Join_with_slash del: Join_with.simps)
qed

lemma Join_with_path_of: "Join_with [slash] (path_of cs # ds) = path_of (cs @ ds)"
proof (cases ds)
  case (Cons d ds')
  then show ?thesis using Join_with_slash [of d ds'] by (simp add: path_of_append)
qed simp

lemma Join_path_of:
  assumes "\<forall>c \<in> set cs. plain c" "\<forall>d \<in> set ds. plain d" "cs \<noteq> []"
  shows "Join (path_of cs # ds) = path_of (cs @ ds)"
proof -
  obtain c cs' where cs: "cs = c # cs'" using assms by (cases cs) auto
  then have "path_of cs \<noteq> []" by (simp add: path_of_Cons)
  then have "Join (path_of cs # ds) = Clean (path_of (cs @ ds))"
    by (simp add: Join_def Join_with_path_of)
  with assms show ?thesis by (simp add: Clean_path_of ball_Un)
qed

lemma Base_path_of:
  assumes "plain c" "\<forall>c \<in> set cs. slash \<notin> set c"
  shows "Base (path_of (cs @ [c])) = c"
proof -
  have c: "c \<noteq> []" "slash \<notin> set c" using assms(1) by (auto simp: plain_def)
  then have "dropWhile (\<lambda>c. c = slash) (rev (path_of (cs @ [c]))) = rev (path_of (cs @ [c]))"
    by (cases c rule: rev_cases) (auto simp: path_of_append path_of_Cons)
  moreover have "path_of (cs @ [c]) \<noteq> []" by (simp add: path_of_append path_of_Cons)
  moreover have "Split slash (path_of (cs @ [c])) = [] # cs @ [c]"
    using assms c by (intro Split_path_of) auto
  ultimately show ?thesis by (simp add: Base_def Let_def)
qed

lemma Dir_path_of:
  assumes "plain c" "\<forall>c \<in> set cs. plain c" "cs \<noteq> []"
  shows "Dir (path_of (cs @ [c])) = path_of cs"
proof -
  have c: "slash \<notin> set (rev c)" using assms(1) by (auto simp: plain_def)
  have "rev (path_of (cs @ [c])) = rev c @ slash # rev (path_of cs)"
    by (simp add: path_of_append path_of_Cons)
  moreover have "dropWhile (\<lambda>c. c \<noteq> slash) (rev c @ slash # rev (path_of cs)) = slash # rev (path_of cs)"
    using c by (subst dropWhile_append2) auto
  ultimately have d: "Dir (path_of (cs @ [c])) = Clean (path_of cs @ [slash])"
    by (simp add: Dir_def)
  obtain x xs where cs: "cs = x # xs" using assms(3) by (cases cs) auto
  have "path_of cs @ [slash] = path_of (cs @ [[]])" by (simp add: path_of_append path_of_Cons)
  moreover have "Split slash (path_of (cs @ [[]])) = [] # cs @ [[]]"
    using assms(2) by (intro Split_path_of) (auto simp: plain_def)
  moreover have "clean_comps True (cs @ [[]]) [] = cs" for acc
  proof -
    have "clean_comps True (cs @ [[]]) acc = rev acc @ cs" for acc
      using assms(2) by (induction cs arbitrary: acc) (auto simp: plain_def)
    then show ?thesis by simp
  qed
  ultimately have "Clean (path_of cs @ [slash]) = path_of cs"
    by (simp add: Clean_def Join_with_slash cs path_of_Cons del: Join_with.simps)
  with d show ?thesis by simp
qed

section \<open>A table of files\<close>

text \<open>
  The simplest executable operating system: the world is a table of regular files by path,
  directories are the prefixes of those paths, nothing ever fails but access to a missing
  file. Concrete runs of the code that only reads or writes files use it.
\<close>

definition mem_children :: "string \<Rightarrow> string gomap \<Rightarrow> dir_entry list" where
  "mem_children p fs = remdups (List.map_filter (\<lambda>(f, _).
     if HasPrefix f (p @ [slash]) then
       (let r = drop (length p + 1) f; c = takeWhile (\<lambda>x. x \<noteq> slash) r
        in Some \<lparr>entry_name = c, entry_is_dir = (c \<noteq> r)\<rparr>)
     else None) fs)"

definition mem_os :: "string gomap os" where
  "mem_os =
     \<lparr>os_Stat = (\<lambda>p fs. if map_of fs p = None \<and> mem_children p fs = [] then Some (PathError p ENOENT) else None),
      os_ReadFile = (\<lambda>p fs. case map_of fs p of None \<Rightarrow> Inl (PathError p ENOENT) | Some d \<Rightarrow> Inr d),
      os_ReadDir = (\<lambda>p fs. if mem_children p fs = [] then Inl (PathError p ENOENT) else Inr (mem_children p fs)),
      os_Readlink = (\<lambda>p fs. Inl (PathError p ENOENT)),
      os_Glob = (\<lambda>p fs. Inr []),
      os_WriteFile = (\<lambda>p d m fs. (None, AList.update p d fs)),
      os_MkdirAll = (\<lambda>p m fs. (None, fs)),
      os_Remove = (\<lambda>p fs. if map_of fs p = None then (Some (PathError p ENOENT), fs) else (None, AList.delete p fs)),
      os_RemoveAll = (\<lambda>p fs. (None, filter (\<lambda>(f, _). \<not> (f = p \<or> HasPrefix f (p @ [slash]))) fs))\<rparr>"

end
