(* ===== verification/Sysfs.thy ===== *)
theory Sysfs
  imports Go_OS
begin

text \<open>
  Package \<open>internal/sysfs\<close>: reading attributes, the master-key verification patterns of
  a queue (\<open>mkvp.go\<close>), the machine identifier (\<open>reader.go\<close>) and the AP masks
  (\<open>masks.go\<close>).
\<close>

section \<open>reader.go\<close>

definition APDevicesPath :: string where
  "APDevicesPath = ''/sys/devices/ap''"

definition ReadFile :: "'w os \<Rightarrow> string \<Rightarrow> 'w \<Rightarrow> goerr + string" where
  "ReadFile os path w = (case os_ReadFile os path w of Inl err \<Rightarrow> Inl err | Inr data \<Rightarrow> Inr data)"

text \<open>
  The four patterns are \<open>label\<close> followed by \<open>\s+(\S+)\<close>: the leftmost position where the
  label is followed by at least one space byte and then by at least one other byte. The
  capture is the maximal run of bytes that are not spaces; after a maximal run of spaces
  no shorter choice of either run can match instead.
\<close>

definition re_space :: "char \<Rightarrow> bool" where
  "re_space c \<longleftrightarrow> c = CHR 0x09 \<or> c = CHR 0x0A \<or> c = CHR 0x0C \<or> c = CHR 0x0D \<or> c = CHR '' ''"

definition field_at :: "string \<Rightarrow> string \<Rightarrow> string option" where
  "field_at label s =
     (if HasPrefix s label
      then let r = drop (length label) s;
               tok = takeWhile (Not \<circ> re_space) (dropWhile re_space r)
           in if r \<noteq> [] \<and> re_space (hd r) \<and> tok \<noteq> [] then Some tok else None
      else None)"

fun find_field :: "string \<Rightarrow> string \<Rightarrow> string option" where
  "find_field label [] = field_at label []"
| "find_field label (x # xs) =
     (case field_at label (x # xs) of Some tok \<Rightarrow> Some tok | None \<Rightarrow> find_field label xs)"

definition parseSysinfoField :: "string \<Rightarrow> string \<Rightarrow> string" where
  "parseSysinfoField content label =
     (case find_field label content of None \<Rightarrow> [] | Some tok \<Rightarrow> tok)"

definition machineIDFromSysinfo :: "string \<Rightarrow> string \<Rightarrow> goerr + string" where
  "machineIDFromSysinfo path content =
     (let manufacturer = parseSysinfoField content ''Manufacturer:'';
          machineType = parseSysinfoField content ''Type:'';
          plant = parseSysinfoField content ''Plant:'';
          seqCode = parseSysinfoField content ''Sequence Code:''
      in if manufacturer = [] \<or> machineType = [] \<or> plant = [] \<or> seqCode = []
         then Inl (Errorf ''could not parse machine identity from %s (manufacturer=%q, type=%q, plant=%q, sequence=%q)''
                [FStr path, FStr manufacturer, FStr machineType, FStr plant, FStr seqCode])
         else Inr (ToLower (manufacturer @ ''-'' @ machineType @ ''-'' @ plant @ ''-'' @ seqCode)))"

definition MachineID :: "'w os \<Rightarrow> string \<Rightarrow> 'w \<Rightarrow> goerr + string" where
  "MachineID os path w =
     (case os_ReadFile os path w of
        Inl err \<Rightarrow> Inl (Wrapf ''read %s: %w'' [FStr path] err)
      | Inr data \<Rightarrow> machineIDFromSysinfo path data)"

section \<open>masks.go\<close>

definition APMaskPath :: string where "APMaskPath = ''/sys/bus/ap/apmask''"
definition AQMaskPath :: string where "AQMaskPath = ''/sys/bus/ap/aqmask''"

definition NormalizeMask :: "string \<Rightarrow> string" where
  "NormalizeMask raw = RemoveAll_char nl (RemoveAll_char (CHR '','') (TrimSpace raw))"

definition ReadCurrentMasks :: "'w os \<Rightarrow> 'w \<Rightarrow> goerr + string \<times> string" where
  "ReadCurrentMasks os w =
     (case ReadFile os APMaskPath w of
        Inl err \<Rightarrow> Inl (Wrapf ''read apmask: %w'' [] err)
      | Inr ap \<Rightarrow>
          (case ReadFile os AQMaskPath w of
             Inl err \<Rightarrow> Inl (Wrapf ''read aqmask: %w'' [] err)
           | Inr aq \<Rightarrow> Inr (NormalizeMask ap, NormalizeMask aq)))"

section \<open>mkvp.go\<close>

definition ccaMKVPKeyMap :: "string gomap" where
  "ccaMKVPKeyMap =
     [(''AES CUR'', ''cex.cca.domain.ibm.com/mkvp_aes_cur''),
      (''AES OLD'', ''cex.cca.domain.ibm.com/mkvp_aes_old''),
      (''AES NEW'', ''cex.cca.domain.ibm.com/mkvp_aes_new''),
      (''APKA CUR'', ''cex.cca.domain.ibm.com/mkvp_apka_cur''),
      (''APKA OLD'', ''cex.cca.domain.ibm.com/mkvp_apka_old''),
      (''APKA NEW'', ''cex.cca.domain.ibm.com/mkvp_apka_new''),
      (''ASYM CUR'', ''cex.cca.domain.ibm.com/mkvp_asym_cur''),
      (''ASYM OLD'', ''cex.cca.domain.ibm.com/mkvp_asym_old''),
      (''ASYM NEW'', ''cex.cca.domain.ibm.com/mkvp_asym_new'')]"

definition ep11WKVPHexLen :: nat where "ep11WKVPHexLen = 32"

definition ep11MKVPKeyMap :: "string gomap" where
  "ep11MKVPKeyMap =
     [(''WK CUR'', ''cex.ep11.domain.ibm.com/mkvp_wk_cur''),
      (''WK NEW'', ''cex.ep11.domain.ibm.com/mkvp_wk_new'')]"

definition MKVPUnknownValue :: string where "MKVPUnknownValue = ''unknown''"

definition isPlaceholderState :: "string \<Rightarrow> bool" where
  "isPlaceholderState value = (case Fields value of [] \<Rightarrow> False | f # _ \<Rightarrow> f = ''-'')"

definition ExtractHexValue :: "string \<Rightarrow> string" where
  "ExtractHexValue s = (case Index ''0x'' s of None \<Rightarrow> [] | Some idx \<Rightarrow> drop (idx + 2) s)"

text \<open>
  The body of the line loop of \<open>ParseMKVPs\<close>. A key absent from the key map reads as the
  empty string in Go, and the code skips it.
\<close>

definition parse_mkvp_line :: "string \<Rightarrow> string \<Rightarrow> string \<Rightarrow> string gomap \<Rightarrow> goerr + string gomap" where
  "parse_mkvp_line cardType mkvpPath line0 mkvps =
     (let line = TrimSpace line0 in
      if line = [] then Inr mkvps
      else (case Cut (CHR '':'') line of
              None \<Rightarrow> Inr mkvps
            | Some (p0, p1) \<Rightarrow>
                (let key = TrimSpace p0; raw = TrimSpace p1 in
                 if cardType = ''cca'' then
                   (case map_of ccaMKVPKeyMap key of
                      None \<Rightarrow> Inr mkvps
                    | Some attrName \<Rightarrow>
                        if isPlaceholderState raw
                        then Inl (Errorf ''placeholder state for %q in %s: card query failed inside a successful read''
                               [FStr key, FStr mkvpPath])
                        else Inr (AList.update attrName (ExtractHexValue raw) mkvps))
                 else if cardType = ''ep11'' then
                   (case map_of ep11MKVPKeyMap key of
                      None \<Rightarrow> Inr mkvps
                    | Some attrName \<Rightarrow>
                        if isPlaceholderState raw
                        then Inl (Errorf ''placeholder state for %q in %s: card query failed inside a successful read''
                               [FStr key, FStr mkvpPath])
                        else (let value = ExtractHexValue raw;
                                  value = (if length value > ep11WKVPHexLen
                                           then take ep11WKVPHexLen value else value)
                              in Inr (AList.update attrName value mkvps)))
                 else Inr mkvps)))"

fun parse_mkvp_lines :: "string \<Rightarrow> string \<Rightarrow> string list \<Rightarrow> string gomap \<Rightarrow> goerr + string gomap" where
  "parse_mkvp_lines cardType mkvpPath [] mkvps = Inr mkvps"
| "parse_mkvp_lines cardType mkvpPath (line # lines) mkvps =
     (case parse_mkvp_line cardType mkvpPath line mkvps of
        Inl err \<Rightarrow> Inl err
      | Inr mkvps' \<Rightarrow> parse_mkvp_lines cardType mkvpPath lines mkvps')"

definition ParseMKVPs :: "'w os \<Rightarrow> string \<Rightarrow> string \<Rightarrow> 'w \<Rightarrow> goerr + string gomap" where
  "ParseMKVPs os queuePath cardType w =
     (let mkvpPath = Join [queuePath, ''mkvps''] in
      case ReadFile os mkvpPath w of
        Inl err \<Rightarrow> Inl err
      | Inr content \<Rightarrow> parse_mkvp_lines cardType mkvpPath (Split nl content) [])"

definition UnknownMKVPs :: "string \<Rightarrow> string gomap" where
  "UnknownMKVPs cardType =
     (if cardType = ''cca'' then map (\<lambda>(k, attr). (attr, MKVPUnknownValue)) ccaMKVPKeyMap
      else if cardType = ''ep11'' then map (\<lambda>(k, attr). (attr, MKVPUnknownValue)) ep11MKVPKeyMap
      else [])"

section \<open>What the MKVP parser promises\<close>

text \<open>The attribute names a card type can publish.\<close>

definition mkvp_attrs :: "string \<Rightarrow> string list" where
  "mkvp_attrs cardType =
     (if cardType = ''cca'' then map snd ccaMKVPKeyMap
      else if cardType = ''ep11'' then map snd ep11MKVPKeyMap else [])"

text \<open>The register a line reports, if it is one of the card type's: its attribute and raw field.\<close>

definition mkvp_register :: "string \<Rightarrow> string \<Rightarrow> (string \<times> string) option" where
  "mkvp_register cardType line =
     (case Cut (CHR '':'') (TrimSpace line) of
        None \<Rightarrow> None
      | Some (p0, p1) \<Rightarrow>
          (case map_of (if cardType = ''cca'' then ccaMKVPKeyMap
                        else if cardType = ''ep11'' then ep11MKVPKeyMap else []) (TrimSpace p0) of
             None \<Rightarrow> None
           | Some attr \<Rightarrow> Some (attr, TrimSpace p1)))"

definition mkvp_value :: "string \<Rightarrow> string \<Rightarrow> string" where
  "mkvp_value cardType raw =
     (if cardType = ''ep11'' then take ep11WKVPHexLen (ExtractHexValue raw) else ExtractHexValue raw)"

lemma parse_mkvp_line_None:
  "mkvp_register cardType line = None \<Longrightarrow> parse_mkvp_line cardType p line m = Inr m"
  by (auto simp: parse_mkvp_line_def mkvp_register_def Let_def split: option.splits if_splits)

lemma parse_mkvp_line_Some:
  assumes "mkvp_register cardType line = Some (attr, raw)"
  shows "if isPlaceholderState raw then (\<exists>e. parse_mkvp_line cardType p line m = Inl e)
         else parse_mkvp_line cardType p line m = Inr (AList.update attr (mkvp_value cardType raw) m)"
  using assms
  by (auto simp: parse_mkvp_line_def mkvp_register_def mkvp_value_def Let_def split: option.splits if_splits)

lemma mkvp_register_attr:
  "mkvp_register cardType line = Some (attr, raw) \<Longrightarrow> attr \<in> set (mkvp_attrs cardType)"
  by (auto simp: mkvp_register_def mkvp_attrs_def ccaMKVPKeyMap_def ep11MKVPKeyMap_def
      split: option.splits if_splits)

text \<open>
  The parser against a reference: it fails exactly when some line of the card type reports
  a placeholder, and otherwise it is the sequence of updates the register lines ask for.
\<close>

definition tainted :: "string \<Rightarrow> string \<Rightarrow> bool" where
  "tainted cardType line \<longleftrightarrow>
     (case mkvp_register cardType line of None \<Rightarrow> False | Some (_, raw) \<Rightarrow> isPlaceholderState raw)"

definition mkvp_entries :: "string \<Rightarrow> string list \<Rightarrow> (string \<times> string) list" where
  "mkvp_entries cardType lines =
     List.map_filter (\<lambda>line. map_option (\<lambda>(attr, raw). (attr, mkvp_value cardType raw))
                        (mkvp_register cardType line)) lines"

lemma mkvp_entries_Nil [simp]: "mkvp_entries cardType [] = []"
  by (simp add: mkvp_entries_def List.map_filter_def)

lemma mkvp_entries_Cons:
  "mkvp_entries cardType (line # lines) =
     (case mkvp_register cardType line of
        None \<Rightarrow> mkvp_entries cardType lines
      | Some (attr, raw) \<Rightarrow> (attr, mkvp_value cardType raw) # mkvp_entries cardType lines)"
  by (auto simp: mkvp_entries_def List.map_filter_def split: option.splits)

lemma parse_mkvp_lines_ok:
  assumes "\<not> list_ex (tainted cardType) lines"
  shows "parse_mkvp_lines cardType p lines m =
           Inr (fold (\<lambda>(a, v). AList.update a v) (mkvp_entries cardType lines) m)"
  using assms
proof (induction lines arbitrary: m)
  case (Cons line lines)
  then show ?case
    using parse_mkvp_line_Some [of cardType line _ _ p m]
    by (cases "mkvp_register cardType line")
       (auto simp: parse_mkvp_line_None mkvp_entries_Cons tainted_def)
qed simp

lemma parse_mkvp_lines_tainted:
  assumes "list_ex (tainted cardType) lines"
  shows "\<exists>e. parse_mkvp_lines cardType p lines m = Inl e"
  using assms
proof (induction lines arbitrary: m)
  case (Cons line lines)
  show ?case
  proof (cases "tainted cardType line")
    case True
    then obtain attr raw where "mkvp_register cardType line = Some (attr, raw)" "isPlaceholderState raw"
      by (auto simp: tainted_def split: option.splits)
    with parse_mkvp_line_Some [of cardType line attr raw p m] show ?thesis by auto
  next
    case False
    with Cons obtain e where "\<And>m'. \<exists>e. parse_mkvp_lines cardType p lines m' = Inl e" by auto
    then show ?thesis by (auto split: sum.splits)
  qed
qed simp

lemma UnknownMKVPs_keys: "map fst (UnknownMKVPs cardType) = mkvp_attrs cardType"
  by (simp add: UnknownMKVPs_def mkvp_attrs_def case_prod_beta comp_def)

lemma mkvp_attrs_distinct: "distinct (mkvp_attrs cardType)"
  by (simp add: mkvp_attrs_def ccaMKVPKeyMap_def ep11MKVPKeyMap_def)

lemma parse_mkvp_fold_dom:
  "fst ` set (fold (\<lambda>(a, v). AList.update a v) es m) = fst ` set m \<union> fst ` set es"
  by (induction es arbitrary: m) (simp_all add: dom_update case_prod_beta)

lemma mkvp_entries_attrs: "fst ` set (mkvp_entries cardType lines) \<subseteq> set (mkvp_attrs cardType)"
  by (induction lines)
     (auto simp: mkvp_entries_Cons split: option.splits dest: mkvp_register_attr)

lemma find_field_token:
  "find_field label s = Some tok \<Longrightarrow> tok \<noteq> [] \<and> (\<forall>c \<in> set tok. \<not> re_space c)"
proof (induction s)
  case Nil
  then show ?case by (auto simp: field_at_def Let_def dest: set_takeWhileD split: if_splits)
next
  case (Cons x xs)
  then show ?case
    by (auto simp: field_at_def Let_def dest: set_takeWhileD split: if_splits option.splits)
qed

lemma NormalizeMask_chars: "c \<in> set (NormalizeMask raw) \<Longrightarrow> c \<noteq> CHR '','' \<and> c \<noteq> nl"
  by (simp add: NormalizeMask_def RemoveAll_char_def)

lemma ParseMKVPs_attrs:
  assumes "ParseMKVPs os queuePath cardType w = Inr mkvps"
  shows "fst ` set mkvps \<subseteq> set (mkvp_attrs cardType)"
proof -
  obtain content where "parse_mkvp_lines cardType (Join [queuePath, ''mkvps'']) (Split nl content) [] = Inr mkvps"
    using assms by (auto simp: ParseMKVPs_def Let_def split: sum.splits)
  moreover from this have "\<not> list_ex (tainted cardType) (Split nl content)"
    using parse_mkvp_lines_tainted by (metis sum.distinct(1))
  ultimately have "mkvps = fold (\<lambda>(a, v). AList.update a v) (mkvp_entries cardType (Split nl content)) []"
    by (simp add: parse_mkvp_lines_ok)
  then have "fst ` set mkvps = fst ` set (mkvp_entries cardType (Split nl content))"
    using parse_mkvp_fold_dom [of "mkvp_entries cardType (Split nl content)" "[]"] by simp
  then show ?thesis using mkvp_entries_attrs by metis
qed

section \<open>Properties\<close>

text \<open>
  C31. A readable \<open>mkvps\<close> file is accepted exactly when no register line of the card type
  carries the kernel's placeholder state: one placeholder fails the whole read, and
  otherwise the result is the registers of the file in order, the last line of a register
  winning, EP11 values cut to 32 hex digits.
\<close>

theorem ParseMKVPs_reference:
  assumes "os_ReadFile os (Join [queuePath, ''mkvps'']) w = Inr content"
  shows "if list_ex (tainted cardType) (Split nl content)
         then (\<exists>e. ParseMKVPs os queuePath cardType w = Inl e)
         else ParseMKVPs os queuePath cardType w =
                Inr (fold (\<lambda>(a, v). AList.update a v) (mkvp_entries cardType (Split nl content)) [])"
  using assms parse_mkvp_lines_ok parse_mkvp_lines_tainted
  by (simp add: ParseMKVPs_def ReadFile_def)

theorem ParseMKVPs_reference_witness:
  "ParseMKVPs mem_os ''/q'' ''cca'' [(''/q/mkvps'', ''AES CUR: valid 0xab'' @ nl # ''AES CUR: valid 0xcd'')]
     = Inr [(''cex.cca.domain.ibm.com/mkvp_aes_cur'', ''cd'')]
   \<and> (\<exists>e. ParseMKVPs mem_os ''/q'' ''cca'' [(''/q/mkvps'', ''AES CUR: valid 0xab'' @ nl # ''AES NEW: - -'')] = Inl e)"
proof -
  let ?good = "[(''/q/mkvps'', ''AES CUR: valid 0xab'' @ nl # ''AES CUR: valid 0xcd'')]"
  let ?bad = "[(''/q/mkvps'', ''AES CUR: valid 0xab'' @ nl # ''AES NEW: - -'')]"
  have "os_ReadFile mem_os (Join [''/q'', ''mkvps'']) ?good = Inr (''AES CUR: valid 0xab'' @ nl # ''AES CUR: valid 0xcd'')"
    by code_simp
  moreover have "\<not> list_ex (tainted ''cca'') (Split nl (''AES CUR: valid 0xab'' @ nl # ''AES CUR: valid 0xcd''))"
    by code_simp
  moreover have "fold (\<lambda>(a, v). AList.update a v)
      (mkvp_entries ''cca'' (Split nl (''AES CUR: valid 0xab'' @ nl # ''AES CUR: valid 0xcd''))) []
    = [(''cex.cca.domain.ibm.com/mkvp_aes_cur'', ''cd'')]" by code_simp
  moreover have "os_ReadFile mem_os (Join [''/q'', ''mkvps'']) ?bad = Inr (''AES CUR: valid 0xab'' @ nl # ''AES NEW: - -'')"
    by code_simp
  moreover have "list_ex (tainted ''cca'') (Split nl (''AES CUR: valid 0xab'' @ nl # ''AES NEW: - -''))"
    by code_simp
  ultimately show ?thesis
    using ParseMKVPs_reference [of mem_os "''/q''" ?good _ "''cca''"]
      ParseMKVPs_reference [of mem_os "''/q''" ?bad _ "''cca''"] by auto
qed

end
