(* ===== verification/Mdev.thy ===== *)
theory Mdev
  imports Sysfs
begin

text \<open>
  Package \<open>internal/mdev\<close>: the vfio-ap mediated devices under
  \<open>/sys/devices/vfio_ap/matrix\<close>.
\<close>

definition VFIOAPMatrixPath :: string where
  "VFIOAPMatrixPath = ''/sys/devices/vfio_ap/matrix''"

definition sysfsWriteMode :: nat where "sysfsWriteMode = 0x180"

definition mdevCreatePath :: string where
  "mdevCreatePath = Join [VFIOAPMatrixPath, ''mdev_supported_types'', ''vfio_ap-passthrough'', ''create'']"

record APQN =
  APID :: string
  APQI :: string

lemma APQN_eta [simp]: "\<lparr>APID = APID q, APQI = APQI q\<rparr> = (q :: APQN)"
  by (cases q) simp

definition Exists :: "'w os \<Rightarrow> string \<Rightarrow> 'w \<Rightarrow> bool" where
  "Exists os uuid w = (let path = Join [VFIOAPMatrixPath, uuid] in os_Stat os path w = None)"

text \<open>The line loop of \<open>ReadMatrix\<close>.\<close>

fun matrix_lines :: "string \<Rightarrow> string list \<Rightarrow> goerr + APQN list" where
  "matrix_lines uuid [] = Inr []"
| "matrix_lines uuid (line0 # lines) =
     (let line = TrimSpace line0 in
      if line = [] then matrix_lines uuid lines
      else (case Cut (CHR ''.'') line of
              None \<Rightarrow> Inl (Errorf ''invalid matrix line %q for mdev %s'' [FStr line, FStr uuid])
            | Some (apid, apqi) \<Rightarrow>
                (case matrix_lines uuid lines of
                   Inl err \<Rightarrow> Inl err
                 | Inr out \<Rightarrow> Inr (\<lparr>APID = apid, APQI = apqi\<rparr> # out))))"

definition ReadMatrix :: "'w os \<Rightarrow> string \<Rightarrow> 'w \<Rightarrow> goerr + APQN list" where
  "ReadMatrix os uuid w =
     (let path = Join [VFIOAPMatrixPath, uuid, ''matrix''] in
      case os_ReadFile os path w of
        Inl err \<Rightarrow> Inl err
      | Inr data \<Rightarrow> matrix_lines uuid (Split nl data))"

definition Create :: "'w os \<Rightarrow> string \<Rightarrow> 'w \<Rightarrow> goerr option \<times> 'w" where
  "Create os uuid w =
     (case os_WriteFile os mdevCreatePath uuid sysfsWriteMode w of
        (Some err, w') \<Rightarrow> (Some (Wrapf ''create mdev %s: %w'' [FStr uuid] err), w')
      | (None, w') \<Rightarrow> (None, w'))"

definition Destroy :: "'w os \<Rightarrow> string \<Rightarrow> 'w \<Rightarrow> goerr option \<times> 'w" where
  "Destroy os uuid w =
     (if \<not> Exists os uuid w then (None, w)
      else let removePath = Join [VFIOAPMatrixPath, uuid, ''remove''] in
        (case os_WriteFile os removePath ''1'' sysfsWriteMode w of
           (Some err, w') \<Rightarrow> (Some (Wrapf ''destroy mdev %s: %w'' [FStr uuid] err), w')
         | (None, w') \<Rightarrow> (None, w')))"

definition AssignAdapter :: "'w os \<Rightarrow> string \<Rightarrow> string \<Rightarrow> 'w \<Rightarrow> goerr option \<times> 'w" where
  "AssignAdapter os uuid adapter w =
     (let path = Join [VFIOAPMatrixPath, uuid, ''assign_adapter'']; value = ''0x'' @ adapter in
      case os_WriteFile os path value sysfsWriteMode w of
        (Some err, w') \<Rightarrow> (Some (Wrapf ''assign adapter %s to mdev %s: %w'' [FStr value, FStr uuid] err), w')
      | (None, w') \<Rightarrow> (None, w'))"

definition AssignDomain :: "'w os \<Rightarrow> string \<Rightarrow> string \<Rightarrow> 'w \<Rightarrow> goerr option \<times> 'w" where
  "AssignDomain os uuid domain w =
     (let path = Join [VFIOAPMatrixPath, uuid, ''assign_domain'']; value = ''0x'' @ domain in
      case os_WriteFile os path value sysfsWriteMode w of
        (Some err, w') \<Rightarrow> (Some (Wrapf ''assign domain %s to mdev %s: %w'' [FStr value, FStr uuid] err), w')
      | (None, w') \<Rightarrow> (None, w'))"

definition AssignControlDomain :: "'w os \<Rightarrow> string \<Rightarrow> string \<Rightarrow> 'w \<Rightarrow> goerr option \<times> 'w" where
  "AssignControlDomain os uuid domain w =
     (let path = Join [VFIOAPMatrixPath, uuid, ''assign_control_domain'']; value = ''0x'' @ domain in
      case os_WriteFile os path value sysfsWriteMode w of
        (Some err, w') \<Rightarrow> (Some (Wrapf ''assign control domain %s to mdev %s: %w'' [FStr value, FStr uuid] err), w')
      | (None, w') \<Rightarrow> (None, w'))"

section \<open>Queue names\<close>

text \<open>
  The text of an APQN, \<open>"%s.%s"\<close> of adapter and queue index: a line of a matrix, the name
  of a queue directory, the argument of an unbind or probe write.
\<close>

definition queue_name :: "APQN \<Rightarrow> string" where
  "queue_name q = APID q @ ''.'' @ APQI q"

text \<open>A well-formed APQN as the kernel names it: two and four lowercase hex digits.\<close>

definition wf_apqn :: "APQN \<Rightarrow> bool" where
  "wf_apqn q \<longleftrightarrow> length (APID q) = 2 \<and> list_all is_lhex (APID q)
                \<and> length (APQI q) = 4 \<and> list_all is_lhex (APQI q)"

text \<open>
  The wider shape of a matrix row: hex digits around a dot. While only adapters or only
  domains are assigned the kernel prints rows whose other half is empty.
\<close>

definition hex_apqn :: "APQN \<Rightarrow> bool" where
  "hex_apqn q \<longleftrightarrow> list_all is_lhex (APID q) \<and> list_all is_lhex (APQI q)"

definition matrix_text :: "APQN list \<Rightarrow> string" where
  "matrix_text qs = concat (map (\<lambda>q. queue_name q @ [nl]) qs)"

lemma is_lhex_not_special:
  "is_lhex c \<Longrightarrow> c \<noteq> CHR ''.'' \<and> c \<noteq> slash \<and> c \<noteq> nl \<and> \<not> is_space c"
  by (auto simp: is_lhex_def is_digit_def is_space_def less_eq_char_def)

lemma wf_hex_apqn: "wf_apqn q \<Longrightarrow> hex_apqn q"
  by (simp add: wf_apqn_def hex_apqn_def)

lemma hex_apqn_chars:
  assumes "hex_apqn q"
  shows "\<forall>c \<in> set (APID q). is_lhex c" "\<forall>c \<in> set (APQI q). is_lhex c"
  using assms by (auto simp: hex_apqn_def list_all_iff)

lemmas wf_apqn_chars = hex_apqn_chars [OF wf_hex_apqn]

lemma Cut_hex_name:
  assumes "hex_apqn q"
  shows "Cut (CHR ''.'') (queue_name q) = Some (APID q, APQI q)"
proof -
  have "CHR ''.'' \<notin> set (APID q)" using hex_apqn_chars(1) [OF assms] is_lhex_not_special by blast
  then show ?thesis using Cut_append by (simp add: queue_name_def)
qed

lemmas Cut_queue_name = Cut_hex_name [OF wf_hex_apqn]

lemma queue_name_no_space:
  assumes "hex_apqn q" "c \<in> set (queue_name q)"
  shows "\<not> is_space c"
  using assms hex_apqn_chars [OF assms(1)] is_lhex_not_special
  by (auto simp: queue_name_def) (simp add: is_space_def)

lemma queue_name_inj:
  "wf_apqn q \<Longrightarrow> wf_apqn r \<Longrightarrow> queue_name q = queue_name r \<Longrightarrow> q = r"
  using Cut_queue_name [of q] Cut_queue_name [of r] by simp

lemma queue_name_not_Nil [simp]: "queue_name q \<noteq> []"
  by (simp add: queue_name_def)

text \<open>The matrix text of queues with hex names reads back as the queues, in order.\<close>

lemma matrix_lines_names:
  assumes "\<forall>q \<in> set qs. hex_apqn q"
  shows "matrix_lines uuid (map queue_name qs @ [[]]) = Inr qs"
  using assms
proof (induction qs)
  case (Cons q qs)
  have "TrimSpace (queue_name q) = queue_name q"
    using Cons.prems queue_name_no_space by (intro TrimSpace_id) auto
  with Cons show ?case by (simp add: Cut_hex_name)
qed (simp add: TrimSpace_def)

lemma matrix_lines_text:
  assumes "\<forall>q \<in> set qs. hex_apqn q"
  shows "matrix_lines uuid (Split nl (matrix_text qs)) = Inr qs"
proof -
  have "Split nl (concat (map (\<lambda>x. x @ [nl]) (map queue_name qs))) = map queue_name qs @ [[]]"
    using assms queue_name_no_space
    by (intro Split_lines) (auto simp: is_space_def)
  then show ?thesis
    using matrix_lines_names [OF assms] by (simp add: matrix_text_def comp_def)
qed

text \<open>
  Round trip: a matrix attribute that lists queues with hex names one per line, the rows
  of a half-assigned device included, is read back by \<open>ReadMatrix\<close> as exactly those queues
  in that order.
\<close>

theorem ReadMatrix_roundtrip:
  assumes "os_ReadFile os (Join [VFIOAPMatrixPath, uuid, ''matrix'']) w = Inr (matrix_text qs)"
    and "\<forall>q \<in> set qs. hex_apqn q"
  shows "ReadMatrix os uuid w = Inr qs"
  using assms by (simp add: ReadMatrix_def matrix_lines_text)

theorem ReadMatrix_roundtrip_witness:
  "ReadMatrix mem_os ''u'' [(Join [VFIOAPMatrixPath, ''u'', ''matrix''],
      matrix_text [\<lparr>APID = ''01'', APQI = ''0002''\<rparr>, \<lparr>APID = ''01'', APQI = []\<rparr>])]
   = Inr [\<lparr>APID = ''01'', APQI = ''0002''\<rparr>, \<lparr>APID = ''01'', APQI = []\<rparr>]"
  by (rule ReadMatrix_roundtrip) (simp add: mem_os_def, code_simp)

end
