(* ===== verification/Binding.thy ===== *)
theory Binding
  imports Mdev
begin

text \<open>
  Package \<open>internal/binding\<close>: moving an AP queue between the zcrypt and the vfio-ap
  driver with the \<open>driver_override\<close> mechanism (\<open>binding.go\<close>) and draining queues a
  crash left behind (\<open>recovery.go\<close>). The log lines, and \<open>logOverride\<close>, which reads
  an attribute for a log line only, are left to \<open>Logphase\<close>.
\<close>

section \<open>binding.go\<close>

definition DriversProbePath :: string where
  "DriversProbePath = ''/sys/bus/ap/drivers_probe''"

definition driverOverridePath :: "string \<Rightarrow> string \<Rightarrow> string" where
  "driverOverridePath apid apqi =
     Join [APDevicesPath, ''card'' @ apid, apid @ ''.'' @ apqi, ''driver_override'']"

definition deviceUnbindPath :: "string \<Rightarrow> string \<Rightarrow> string" where
  "deviceUnbindPath apid apqi =
     Join [APDevicesPath, ''card'' @ apid, apid @ ''.'' @ apqi, ''driver'', ''unbind'']"

definition unbindQueue :: "'w os \<Rightarrow> string \<Rightarrow> string \<Rightarrow> string \<Rightarrow> 'w \<Rightarrow> goerr option \<times> 'w" where
  "unbindQueue os queueID apid apqi w =
     (case os_WriteFile os (deviceUnbindPath apid apqi) queueID sysfsWriteMode w of
        (Some err, w') \<Rightarrow>
          if errors_Is_NotExist err then (None, w')
          else (Some (Wrapf ''unbind %s from current driver: %w'' [FStr queueID] err), w')
      | (None, w') \<Rightarrow> (None, w'))"

definition SwitchToVFIOAP :: "'w os \<Rightarrow> string \<Rightarrow> string \<Rightarrow> 'w \<Rightarrow> goerr option \<times> 'w" where
  "SwitchToVFIOAP os apid apqi w =
     (let queueID = apid @ ''.'' @ apqi in
      case os_WriteFile os (driverOverridePath apid apqi) ''vfio_ap'' sysfsWriteMode w of
        (Some err, w1) \<Rightarrow> (Some (Wrapf ''write driver_override for %s: %w'' [FStr queueID] err), w1)
      | (None, w1) \<Rightarrow>
          (case unbindQueue os queueID apid apqi w1 of
             (Some err, w2) \<Rightarrow> (Some err, w2)
           | (None, w2) \<Rightarrow>
               (case os_WriteFile os DriversProbePath queueID sysfsWriteMode w2 of
                  (Some err, w3) \<Rightarrow> (Some (Wrapf ''drivers_probe %s: %w'' [FStr queueID] err), w3)
                | (None, w3) \<Rightarrow> (None, w3))))"

text \<open>
  On the way back a failed probe puts the \<open>vfio_ap\<close> marker back, best-effort: the error
  of that write is only logged.
\<close>

definition SwitchToZcrypt :: "'w os \<Rightarrow> string \<Rightarrow> string \<Rightarrow> 'w \<Rightarrow> goerr option \<times> 'w" where
  "SwitchToZcrypt os apid apqi w =
     (let queueID = apid @ ''.'' @ apqi in
      case unbindQueue os queueID apid apqi w of
        (Some err, w1) \<Rightarrow> (Some err, w1)
      | (None, w1) \<Rightarrow>
          (let overridePath = driverOverridePath apid apqi in
           case os_WriteFile os overridePath [nl] sysfsWriteMode w1 of
             (Some err, w2) \<Rightarrow> (Some (Wrapf ''clear driver_override for %s: %w'' [FStr queueID] err), w2)
           | (None, w2) \<Rightarrow>
               (case os_WriteFile os DriversProbePath queueID sysfsWriteMode w2 of
                  (Some err, w3) \<Rightarrow>
                    (let w4 = snd (os_WriteFile os overridePath ''vfio_ap'' sysfsWriteMode w3) in
                     (Some (Wrapf ''drivers_probe %s: %w'' [FStr queueID] err), w4))
                | (None, w3) \<Rightarrow> (None, w3))))"

section \<open>recovery.go\<close>

definition apQueueOverrideGlob :: string where
  "apQueueOverrideGlob = Join [APDevicesPath, ''card*'', ''*.*'', ''driver_override'']"

definition parseAPQNFromOverridePath :: "string \<Rightarrow> (string \<times> string) option" where
  "parseAPQNFromOverridePath p = (let queueDir = Base (Dir p) in Cut (CHR ''.'') queueDir)"

text \<open>
  The entry loop of \<open>liveAPQNs\<close>. An entry whose matrix cannot be read contributes no
  queue, whether the matrix is absent (silently) or unreadable (logged).
\<close>

fun live_entries :: "'w os \<Rightarrow> dir_entry list \<Rightarrow> 'w \<Rightarrow> APQN list" where
  "live_entries os [] w = []"
| "live_entries os (e # es) w =
     (if \<not> entry_is_dir e then live_entries os es w
      else (case ReadMatrix os (entry_name e) w of
              Inl err \<Rightarrow> live_entries os es w
            | Inr rows \<Rightarrow> rows @ live_entries os es w))"

definition liveAPQNs :: "'w os \<Rightarrow> 'w \<Rightarrow> goerr + APQN list" where
  "liveAPQNs os w =
     (case os_ReadDir os VFIOAPMatrixPath w of
        Inl err \<Rightarrow>
          if errors_Is_NotExist err then Inr []
          else Inl (Wrapf ''list mdevs under %s: %w'' [FStr VFIOAPMatrixPath] err)
      | Inr entries \<Rightarrow> Inr (live_entries os entries w))"

definition drain_one :: "'w os \<Rightarrow> APQN list \<Rightarrow> string \<Rightarrow> 'w \<Rightarrow> 'w" where
  "drain_one os live p w =
     (case ReadFile os p w of
        Inl err \<Rightarrow> w
      | Inr raw \<Rightarrow>
          if TrimSpace raw \<noteq> ''vfio_ap'' then w
          else (case parseAPQNFromOverridePath p of
                  None \<Rightarrow> w
                | Some (apid, apqi) \<Rightarrow>
                    if \<lparr>APID = apid, APQI = apqi\<rparr> \<in> set live then w
                    else snd (SwitchToZcrypt os apid apqi w)))"

fun drain_matches :: "'w os \<Rightarrow> APQN list \<Rightarrow> string list \<Rightarrow> 'w \<Rightarrow> 'w" where
  "drain_matches os live [] w = w"
| "drain_matches os live (p # ps) w = drain_matches os live ps (drain_one os live p w)"

definition DrainOrphanedVFIOAP :: "'w os \<Rightarrow> 'w \<Rightarrow> goerr option \<times> 'w" where
  "DrainOrphanedVFIOAP os w =
     (case liveAPQNs os w of
        Inl err \<Rightarrow> (Some (Wrapf ''determine live vfio-ap queues: %w'' [] err), w)
      | Inr live \<Rightarrow>
          (case os_Glob os apQueueOverrideGlob w of
             Inl err \<Rightarrow> (Some (Wrapf ''glob driver_override paths: %w'' [] err), w)
           | Inr matches \<Rightarrow> (None, drain_matches os live matches w)))"

section \<open>Paths and queue names\<close>

definition override_path :: "APQN \<Rightarrow> string" where
  "override_path q = driverOverridePath (APID q) (APQI q)"

lemma APDevicesPath_path_of: "APDevicesPath = path_of [''sys'', ''devices'', ''ap'']"
  by (simp add: APDevicesPath_def path_of_def)

lemma VFIOAPMatrixPath_path_of: "VFIOAPMatrixPath = path_of [''sys'', ''devices'', ''vfio_ap'', ''matrix'']"
  by (simp add: VFIOAPMatrixPath_def path_of_def)

lemma plain_hex_comp:
  assumes "wf_apqn q"
  shows "plain (''card'' @ APID q)" and "plain (queue_name q)"
proof -
  have "slash \<notin> set (APID q)" "slash \<notin> set (APQI q)"
    using wf_apqn_chars [OF assms] is_lhex_not_special by blast+
  moreover have "length (queue_name q) = 7" using assms by (simp add: wf_apqn_def queue_name_def)
  then have "queue_name q \<noteq> ''.''" "queue_name q \<noteq> ''..''" by auto
  ultimately show "plain (''card'' @ APID q)" "plain (queue_name q)"
    by (auto simp: plain_def queue_name_def)
qed

lemma override_path_path_of:
  assumes "wf_apqn q"
  shows "override_path q =
    path_of [''sys'', ''devices'', ''ap'', ''card'' @ APID q, queue_name q, ''driver_override'']"
proof -
  have "plain ''sys''" "plain ''devices''" "plain ''ap''" "plain ''driver_override''"
    by (simp_all add: plain_def)
  then show ?thesis
    using plain_hex_comp [OF assms]
    by (simp add: override_path_def driverOverridePath_def APDevicesPath_path_of Join_path_of
        queue_name_def)
qed

lemma override_path_inj:
  assumes "wf_apqn q" "wf_apqn r" "override_path q = override_path r"
  shows "q = r"
proof -
  have "slash \<notin> set (''card'' @ APID q)" "slash \<notin> set (queue_name q)"
    "slash \<notin> set (''card'' @ APID r)" "slash \<notin> set (queue_name r)"
    using plain_hex_comp assms(1,2) by (auto simp: plain_def)
  then have "queue_name q = queue_name r"
    using path_of_inj assms by (fastforce simp: override_path_path_of)
  with assms show ?thesis by (simp add: queue_name_inj)
qed

lemma parse_override_path:
  assumes "wf_apqn q"
  shows "parseAPQNFromOverridePath (driverOverridePath (APID q) (APQI q)) = Some (APID q, APQI q)"
proof -
  let ?cs = "[''sys'', ''devices'', ''ap'', ''card'' @ APID q]"
  have plain: "plain ''sys''" "plain ''devices''" "plain ''ap''" "plain ''driver_override''"
    by (simp_all add: plain_def)
  have "driverOverridePath (APID q) (APQI q) = path_of ((?cs @ [queue_name q]) @ [''driver_override''])"
    using override_path_path_of [OF assms] by (simp add: override_path_def)
  moreover have "Dir (path_of ((?cs @ [queue_name q]) @ [''driver_override''])) = path_of (?cs @ [queue_name q])"
    by (rule Dir_path_of) (use plain plain_hex_comp [OF assms] in auto)
  moreover have "Base (path_of (?cs @ [queue_name q])) = queue_name q"
    by (rule Base_path_of) (use plain plain_hex_comp [OF assms] in \<open>auto simp: plain_def\<close>)
  ultimately show ?thesis
    by (simp add: parseAPQNFromOverridePath_def Cut_queue_name [OF assms])
qed

text \<open>
  Round trip: the path of a queue's \<open>driver_override\<close> attribute, as the switching
  code writes it, parses back to the queue it belongs to, so that two queues never share
  one and the drain acts on the queue whose marker it read.
\<close>

theorem override_path_roundtrip:
  assumes "wf_apqn q" and "wf_apqn r"
  shows "parseAPQNFromOverridePath (driverOverridePath (APID q) (APQI q)) = Some (APID q, APQI q)
       \<and> (driverOverridePath (APID q) (APQI q) = driverOverridePath (APID r) (APQI r) \<longleftrightarrow> q = r)"
  using assms parse_override_path override_path_inj by (auto simp: override_path_def)

theorem override_path_roundtrip_witness:
  "parseAPQNFromOverridePath ''/sys/devices/ap/card01/01.0002/driver_override'' = Some (''01'', ''0002'')"
proof -
  have "wf_apqn \<lparr>APID = ''01'', APQI = ''0002''\<rparr>" by code_simp
  moreover have "driverOverridePath ''01'' ''0002'' = ''/sys/devices/ap/card01/01.0002/driver_override''"
    by code_simp
  ultimately show ?thesis
    using override_path_roundtrip [of "\<lparr>APID = ''01'', APQI = ''0002''\<rparr>" "\<lparr>APID = ''01'', APQI = ''0002''\<rparr>"]
    by simp
qed

end
