(* ===== verification/Ap_Kernel.thy ===== *)
theory Ap_Kernel
  imports Binding
begin

text \<open>
  What the kernel documents about the attributes the driver writes, as laws over the
  operating system parameter, and the contract of the two queue switches under those laws.

  \<open>kstate\<close> is the part of the kernel's state the driver manages: the driver and the
  \<open>driver_override\<close> of every AP queue, and the vfio-ap mediated devices with the
  adapters, domains and control domains assigned to them. Locale \<open>ap_bus\<close> relates a
  world to that state and says what one write does to it: a write that fails leaves it
  alone; an override write rebinds nothing, only the probe acts on it; an unbind detaches the queue and fails with
  \<open>ENOENT\<close> only when the queue has no driver; a probe binds an unbound queue to
  \<open>vfio_ap\<close> when its override says so and to zcrypt when it is empty. These are the
  rules the comments of \<open>binding.go\<close>, \<open>checks.go\<close> and \<open>docs/concepts.md\<close>
  (Sysfs ownership) state.

  Because a failed write changes nothing, a crash of the driver between two writes is a
  run in which every later write fails: \<open>crash_os\<close> turns any operating system into one
  that dies after a given number of writes, and keeps the laws. A statement about every
  operating system with the laws is therefore also a statement about every crash point.
\<close>

section \<open>The kernel state\<close>

record mdev_view =
  md_adapters :: "string set"
  md_domains :: "string set"
  md_control :: "string set"

record kstate =
  k_driver :: "APQN \<Rightarrow> string"
  k_override :: "APQN \<Rightarrow> string"
  k_mdev :: "string \<Rightarrow> mdev_view option"

definition set_driver :: "APQN \<Rightarrow> string \<Rightarrow> kstate \<Rightarrow> kstate" where
  "set_driver q d k = k\<lparr>k_driver := (k_driver k)(q := d)\<rparr>"

definition set_override :: "APQN \<Rightarrow> string \<Rightarrow> kstate \<Rightarrow> kstate" where
  "set_override q v k = k\<lparr>k_override := (k_override k)(q := v)\<rparr>"

definition probe_queue :: "APQN \<Rightarrow> kstate \<Rightarrow> kstate" where
  "probe_queue q k =
     (if k_driver k q \<noteq> [] then k
      else set_driver q (if k_override k q = [] then ''cex4queue'' else k_override k q) k)"

named_theorems kstate_simps \<open>field access after a kernel state update\<close>

lemma set_driver_simps [kstate_simps]:
  "k_driver (set_driver q d k) = (k_driver k)(q := d)"
  "k_override (set_driver q d k) = k_override k"
  "k_mdev (set_driver q d k) = k_mdev k"
  by (simp_all add: set_driver_def)

lemma set_override_simps [kstate_simps]:
  "k_driver (set_override q v k) = k_driver k"
  "k_override (set_override q v k) = (k_override k)(q := v)"
  "k_mdev (set_override q v k) = k_mdev k"
  by (simp_all add: set_override_def)

lemma set_driver_idem [simp]: "k_driver k q = d \<Longrightarrow> set_driver q d k = k"
  by (auto simp: set_driver_def)

lemma set_override_idem [simp]: "k_override k q = v \<Longrightarrow> set_override q v k = k"
  by (auto simp: set_override_def)

text \<open>Two states that differ at most in the queues of a set.\<close>

definition differ_at :: "APQN set \<Rightarrow> kstate \<Rightarrow> kstate \<Rightarrow> bool" where
  "differ_at S k k' \<longleftrightarrow> k_mdev k' = k_mdev k \<and>
     (\<forall>q. q \<notin> S \<longrightarrow> k_driver k' q = k_driver k q \<and> k_override k' q = k_override k q)"

lemma differ_at_refl [simp, intro]: "differ_at S k k"
  by (simp add: differ_at_def)

lemma differ_at_trans: "differ_at S k k' \<Longrightarrow> differ_at T k' k'' \<Longrightarrow> differ_at (S \<union> T) k k''"
  by (simp add: differ_at_def)

lemma differ_at_mono: "differ_at S k k' \<Longrightarrow> S \<subseteq> T \<Longrightarrow> differ_at T k k'"
  by (auto simp: differ_at_def)

text \<open>
  The shapes of a queue. A queue that is bound to no driver and carries no \<open>vfio_ap\<close>
  override is the one no recovery path can see.
\<close>

definition on_vfio :: "kstate \<Rightarrow> APQN \<Rightarrow> bool" where
  "on_vfio k q \<longleftrightarrow> k_driver k q = ''vfio_ap'' \<and> k_override k q = ''vfio_ap''"

definition on_zcrypt :: "kstate \<Rightarrow> APQN \<Rightarrow> bool" where
  "on_zcrypt k q \<longleftrightarrow> k_driver k q = ''cex4queue'' \<and> k_override k q = []"

definition recoverable :: "kstate \<Rightarrow> APQN \<Rightarrow> bool" where
  "recoverable k q \<longleftrightarrow> k_driver k q \<noteq> [] \<or> k_override k q = ''vfio_ap''"

lemmas shape_defs = on_vfio_def on_zcrypt_def recoverable_def

section \<open>An operation on one queue\<close>

text \<open>
  The interface the claim handling relies on: an operation that changes at most its own
  queue and, when it succeeds, brings that queue to a given shape. The clients run such an
  operation over a list of queues and ignore or collect its errors.
\<close>

fun best_effort :: "('q \<Rightarrow> 'w \<Rightarrow> goerr option \<times> 'w) \<Rightarrow> 'q list \<Rightarrow> 'w \<Rightarrow> 'w" where
  "best_effort op [] w = w"
| "best_effort op (q # qs) w = best_effort op qs (snd (op q w))"

text \<open>Every call of the best-effort loop succeeds.\<close>

fun all_succeed :: "('q \<Rightarrow> 'w \<Rightarrow> goerr option \<times> 'w) \<Rightarrow> 'q list \<Rightarrow> 'w \<Rightarrow> bool" where
  "all_succeed op [] w = True"
| "all_succeed op (q # qs) w = (fst (op q w) = None \<and> all_succeed op qs (snd (op q w)))"

lemma best_effort_append: "best_effort op (qs @ rs) w = best_effort op rs (best_effort op qs w)"
  by (induction qs arbitrary: w) auto

locale queue_op =
  fixes K :: "'w \<Rightarrow> kstate"
    and Q :: "APQN set"
    and op :: "APQN \<Rightarrow> 'w \<Rightarrow> goerr option \<times> 'w"
    and shape :: "kstate \<Rightarrow> APQN \<Rightarrow> bool"
  assumes op_frame: "q \<in> Q \<Longrightarrow> op q w = (r, w') \<Longrightarrow> differ_at {q} (K w) (K w')"
    and op_shape: "q \<in> Q \<Longrightarrow> op q w = (None, w') \<Longrightarrow> shape (K w') q"
    and shape_local: "differ_at S k k' \<Longrightarrow> q \<notin> S \<Longrightarrow> shape k' q = shape k q"
begin

lemma best_effort_frame: "set qs \<subseteq> Q \<Longrightarrow> differ_at (set qs) (K w) (K (best_effort op qs w))"
proof (induction qs arbitrary: w)
  case (Cons q qs)
  have "differ_at {q} (K w) (K (snd (op q w)))"
    using Cons.prems by (intro op_frame [where r = "fst (op q w)"]) auto
  moreover have "differ_at (set qs) (K (snd (op q w))) (K (best_effort op qs (snd (op q w))))"
    using Cons by simp
  ultimately have "differ_at ({q} \<union> set qs) (K w) (K (best_effort op qs (snd (op q w))))"
    by (rule differ_at_trans)
  then show ?case by simp
qed simp

lemma best_effort_shape:
  assumes "set qs \<subseteq> Q" "distinct qs" "all_succeed op qs w" "q \<in> set qs"
  shows "shape (K (best_effort op qs w)) q"
  using assms
proof (induction qs arbitrary: w)
  case (Cons p ps)
  show ?case
  proof (cases "q = p")
    case True
    have "shape (K (snd (op p w))) p"
      using Cons.prems by (intro op_shape [of p w]) (auto simp: prod_eq_iff)
    moreover have "differ_at (set ps) (K (snd (op p w))) (K (best_effort op ps (snd (op p w))))"
      using Cons.prems by (intro best_effort_frame) auto
    ultimately show ?thesis using True Cons.prems shape_local by auto
  qed (use Cons in auto)
qed simp

lemma best_effort_keeps_mdevs: "set qs \<subseteq> Q \<Longrightarrow> k_mdev (K (best_effort op qs w)) = k_mdev (K w)"
  using best_effort_frame by (auto simp: differ_at_def)

end

section \<open>The AP bus\<close>

locale ap_bus =
  fixes os :: "'w os"
    and K :: "'w \<Rightarrow> kstate"
    and Q :: "APQN set"
  assumes queue_names: "q \<in> Q \<Longrightarrow> wf_apqn q"
    and override_write: "q \<in> Q \<Longrightarrow>
      os_WriteFile os (driverOverridePath (APID q) (APQI q)) data m w = (r, w') \<Longrightarrow>
      K w' = (if r = None then set_override q (TrimSpace data) (K w) else K w)"
    and unbind_write: "q \<in> Q \<Longrightarrow>
      os_WriteFile os (deviceUnbindPath (APID q) (APQI q)) (queue_name q) m w = (r, w') \<Longrightarrow>
      K w' = (if r = None then set_driver q [] (K w) else K w)"
    and unbind_enoent: "q \<in> Q \<Longrightarrow>
      os_WriteFile os (deviceUnbindPath (APID q) (APQI q)) (queue_name q) m w = (Some e, w') \<Longrightarrow>
      errors_Is_NotExist e \<Longrightarrow> k_driver (K w) q = []"
    and probe_write: "q \<in> Q \<Longrightarrow> k_override (K w) q \<in> {[], ''vfio_ap''} \<Longrightarrow>
      os_WriteFile os DriversProbePath (queue_name q) m w = (r, w') \<Longrightarrow>
      K w' = (if r = None then probe_queue q (K w) else K w)"
begin

lemma unbindQueue_K:
  assumes "q \<in> Q" "unbindQueue os (queue_name q) (APID q) (APQI q) w = (r, w')"
  shows "K w' = (if r = None then set_driver q [] (K w) else K w)"
  using assms unbind_write [OF assms(1)] unbind_enoent [OF assms(1)]
  by (auto simp: unbindQueue_def split: prod.splits option.splits if_splits)

text \<open>
  The state after \<open>SwitchToVFIOAP\<close>, by how far it came: nothing, override only, override
  and unbound, or bound to vfio-ap.
\<close>

lemma SwitchToVFIOAP_K:
  assumes "q \<in> Q" "SwitchToVFIOAP os (APID q) (APQI q) w = (r, w')"
  shows "if r = None then K w' = set_driver q ''vfio_ap'' (set_override q ''vfio_ap'' (K w))
         else K w' \<in> {K w, set_override q ''vfio_ap'' (K w),
                      set_driver q [] (set_override q ''vfio_ap'' (K w))}"
proof -
  let ?id = "queue_name q"
  have trim: "TrimSpace ''vfio_ap'' = ''vfio_ap''" by (simp add: TrimSpace_def is_space_def)
  obtain r1 w1 where s1: "os_WriteFile os (driverOverridePath (APID q) (APQI q)) ''vfio_ap'' sysfsWriteMode w = (r1, w1)"
    by (cases "os_WriteFile os (driverOverridePath (APID q) (APQI q)) ''vfio_ap'' sysfsWriteMode w")
  obtain r2 w2 where s2: "unbindQueue os ?id (APID q) (APQI q) w1 = (r2, w2)"
    by (cases "unbindQueue os ?id (APID q) (APQI q) w1")
  obtain r3 w3 where s3: "os_WriteFile os DriversProbePath ?id sysfsWriteMode w2 = (r3, w3)"
    by (cases "os_WriteFile os DriversProbePath ?id sysfsWriteMode w2")
  have K1: "K w1 = (if r1 = None then set_override q ''vfio_ap'' (K w) else K w)"
    using override_write [OF assms(1) s1] by (simp add: trim)
  have K2: "K w2 = (if r2 = None then set_driver q [] (K w1) else K w1)"
    using unbindQueue_K [OF assms(1) s2] .
  have K3: "r1 = None \<Longrightarrow> r2 = None \<Longrightarrow> K w3 = (if r3 = None then probe_queue q (K w2) else K w2)"
    using probe_write [OF assms(1) _ s3] by (simp add: K1 K2 kstate_simps)
  have res: "(r1 = None \<and> r2 = None \<longrightarrow> w' = w3 \<and> (r = None \<longleftrightarrow> r3 = None)) \<and>
    (r1 = None \<and> r2 \<noteq> None \<longrightarrow> w' = w2 \<and> r \<noteq> None) \<and> (r1 \<noteq> None \<longrightarrow> w' = w1 \<and> r \<noteq> None)"
    using assms(2) s1 s2 s3
    by (auto simp: SwitchToVFIOAP_def queue_name_def Let_def split: option.splits)
  have "probe_queue q (set_driver q [] (set_override q ''vfio_ap'' (K w)))
        = set_driver q ''vfio_ap'' (set_override q ''vfio_ap'' (K w))"
    by (simp add: probe_queue_def kstate_simps)
  then show ?thesis using res K1 K2 K3 by (cases r1; cases r2; cases r3) auto
qed

text \<open>The state after \<open>SwitchToZcrypt\<close>, by the write that failed.\<close>

lemma SwitchToZcrypt_K:
  assumes "q \<in> Q" "SwitchToZcrypt os (APID q) (APQI q) w = (r, w')"
  shows "if r = None then K w' = set_driver q ''cex4queue'' (set_override q [] (K w))
         else K w' \<in> {K w, set_driver q [] (K w), set_driver q [] (set_override q ''vfio_ap'' (K w))}
              \<or> K w' = set_driver q [] (set_override q [] (K w)) \<and>
                (\<exists>w3 e. os_WriteFile os (driverOverridePath (APID q) (APQI q)) ''vfio_ap'' sysfsWriteMode w3 = (Some e, w'))"
proof -
  let ?id = "queue_name q" and ?p = "driverOverridePath (APID q) (APQI q)"
  have trim: "TrimSpace ''vfio_ap'' = ''vfio_ap''" "TrimSpace [nl] = []"
    by (simp_all add: TrimSpace_def is_space_def)
  obtain r1 w1 where s1: "unbindQueue os ?id (APID q) (APQI q) w = (r1, w1)"
    by (cases "unbindQueue os ?id (APID q) (APQI q) w")
  obtain r2 w2 where s2: "os_WriteFile os ?p [nl] sysfsWriteMode w1 = (r2, w2)"
    by (cases "os_WriteFile os ?p [nl] sysfsWriteMode w1")
  obtain r3 w3 where s3: "os_WriteFile os DriversProbePath ?id sysfsWriteMode w2 = (r3, w3)"
    by (cases "os_WriteFile os DriversProbePath ?id sysfsWriteMode w2")
  obtain r4 w4 where s4: "os_WriteFile os ?p ''vfio_ap'' sysfsWriteMode w3 = (r4, w4)"
    by (cases "os_WriteFile os ?p ''vfio_ap'' sysfsWriteMode w3")
  have K1: "K w1 = (if r1 = None then set_driver q [] (K w) else K w)"
    using unbindQueue_K [OF assms(1) s1] .
  have K2: "K w2 = (if r2 = None then set_override q [] (K w1) else K w1)"
    using override_write [OF assms(1) s2] by (simp add: trim)
  have K3: "r1 = None \<Longrightarrow> r2 = None \<Longrightarrow> K w3 = (if r3 = None then probe_queue q (K w2) else K w2)"
    using probe_write [OF assms(1) _ s3] by (simp add: K1 K2 kstate_simps)
  have K4: "K w4 = (if r4 = None then set_override q ''vfio_ap'' (K w3) else K w3)"
    using override_write [OF assms(1) s4] by (simp add: trim)
  have res: "(r1 \<noteq> None \<longrightarrow> w' = w1 \<and> r \<noteq> None) \<and> (r1 = None \<and> r2 \<noteq> None \<longrightarrow> w' = w2 \<and> r \<noteq> None) \<and>
    (r1 = None \<and> r2 = None \<and> r3 \<noteq> None \<longrightarrow> w' = w4 \<and> r \<noteq> None) \<and>
    (r1 = None \<and> r2 = None \<and> r3 = None \<longrightarrow> w' = w3 \<and> r = None)"
    using assms(2) s1 s2 s3 s4
    by (auto simp: SwitchToZcrypt_def queue_name_def Let_def split: option.splits)
  have eqs: "probe_queue q (set_override q [] (set_driver q [] (K w))) = set_driver q ''cex4queue'' (set_override q [] (K w))"
    "set_override q [] (set_driver q [] (K w)) = set_driver q [] (set_override q [] (K w))"
    "set_override q ''vfio_ap'' (set_driver q [] (set_override q [] (K w))) = set_driver q [] (set_override q ''vfio_ap'' (K w))"
    by (simp_all add: probe_queue_def kstate_simps)
  show ?thesis
  proof (cases "r1 = None \<and> r2 = None \<and> r3 \<noteq> None \<and> r4 \<noteq> None")
    case True
    then show ?thesis using res K1 K2 K3 K4 eqs s4 by auto
  next
    case False
    then show ?thesis using res K1 K2 K3 K4 eqs by (cases r1; cases r2; cases r3; cases r4) auto
  qed
qed

lemma SwitchToVFIOAP_frame:
  assumes "q \<in> Q" "SwitchToVFIOAP os (APID q) (APQI q) w = (r, w')"
  shows "differ_at {q} (K w) (K w')"
  using SwitchToVFIOAP_K [OF assms] by (auto simp: differ_at_def kstate_simps split: if_splits)

lemma SwitchToZcrypt_frame:
  assumes "q \<in> Q" "SwitchToZcrypt os (APID q) (APQI q) w = (r, w')"
  shows "differ_at {q} (K w) (K w')"
  using SwitchToZcrypt_K [OF assms] by (auto simp: differ_at_def kstate_simps split: if_splits)

lemma SwitchToVFIOAP_recoverable:
  assumes "q \<in> Q" "recoverable (K w) q" "SwitchToVFIOAP os (APID q) (APQI q) w = (r, w')"
  shows "recoverable (K w') q"
  using SwitchToVFIOAP_K [OF assms(1,3)] assms(2)
  by (auto simp: recoverable_def kstate_simps split: if_splits)

end

text \<open>Both switches are operations on one queue; the claim handling uses them through that contract.\<close>

sublocale ap_bus \<subseteq> to_vfio: queue_op K Q "\<lambda>q. SwitchToVFIOAP os (APID q) (APQI q)" on_vfio
proof
  fix q w r w' assume "q \<in> Q" "SwitchToVFIOAP os (APID q) (APQI q) w = (r, w')"
  then show "differ_at {q} (K w) (K w')" by (rule SwitchToVFIOAP_frame)
next
  fix q w w' assume "q \<in> Q" "SwitchToVFIOAP os (APID q) (APQI q) w = (None, w')"
  then show "on_vfio (K w') q" using SwitchToVFIOAP_K [of q w None w'] by (simp add: shape_defs kstate_simps)
next
  fix S k k' q assume "differ_at S k k'" "q \<notin> S"
  then show "on_vfio k' q = on_vfio k q" by (simp add: differ_at_def shape_defs)
qed

sublocale ap_bus \<subseteq> to_zcrypt: queue_op K Q "\<lambda>q. SwitchToZcrypt os (APID q) (APQI q)" on_zcrypt
proof
  fix q w r w' assume "q \<in> Q" "SwitchToZcrypt os (APID q) (APQI q) w = (r, w')"
  then show "differ_at {q} (K w) (K w')" by (rule SwitchToZcrypt_frame)
next
  fix q w w' assume "q \<in> Q" "SwitchToZcrypt os (APID q) (APQI q) w = (None, w')"
  then show "on_zcrypt (K w') q" using SwitchToZcrypt_K [of q w None w'] by (simp add: shape_defs kstate_simps)
next
  fix S k k' q assume "differ_at S k k'" "q \<notin> S"
  then show "on_zcrypt k' q = on_zcrypt k q" by (simp add: differ_at_def shape_defs)
qed

section \<open>Crashes\<close>

text \<open>
  An operating system under which the driver dies after \<open>n\<close> more writes: from then on no
  write, creation or removal has an effect. Reads go to the world as it is.
\<close>

definition dying :: "('w \<Rightarrow> goerr option \<times> 'w) \<Rightarrow> 'w \<times> nat \<Rightarrow> goerr option \<times> 'w \<times> nat" where
  "dying f wn =
     (case wn of (w, n) \<Rightarrow>
        (case n of
           0 \<Rightarrow> (Some (PathError [] EIO), (w, 0))
         | Suc n' \<Rightarrow> (case f w of (r, w') \<Rightarrow> (r, (w', n')))))"

definition crash_os :: "'w os \<Rightarrow> ('w \<times> nat) os" where
  "crash_os os =
     \<lparr>os_Stat = (\<lambda>p (w, n). os_Stat os p w),
      os_ReadFile = (\<lambda>p (w, n). os_ReadFile os p w),
      os_ReadDir = (\<lambda>p (w, n). os_ReadDir os p w),
      os_Readlink = (\<lambda>p (w, n). os_Readlink os p w),
      os_Glob = (\<lambda>p (w, n). os_Glob os p w),
      os_WriteFile = (\<lambda>p d m. dying (os_WriteFile os p d m)),
      os_MkdirAll = (\<lambda>p m. dying (os_MkdirAll os p m)),
      os_Remove = (\<lambda>p. dying (os_Remove os p)),
      os_RemoveAll = (\<lambda>p. dying (os_RemoveAll os p))\<rparr>"

lemma dying_cases:
  assumes "dying f wn = (r, wn')"
  shows "(fst wn' = fst wn \<and> (\<exists>p. r = Some (PathError p EIO))) \<or> f (fst wn) = (r, fst wn')"
  using assms by (auto simp: dying_def split: prod.splits nat.splits)

lemma crash_os_write: "os_WriteFile (crash_os os) p d m = dying (os_WriteFile os p d m)"
  by (simp add: crash_os_def)

text \<open>The laws survive: a crashed run is a run under an operating system with the laws.\<close>

lemma ap_bus_crash:
  assumes "ap_bus os K Q"
  shows "ap_bus (crash_os os) (K \<circ> fst) Q"
proof -
  have ax: "\<And>q. q \<in> Q \<Longrightarrow> wf_apqn q" using assms by (rule ap_bus.queue_names)
  show ?thesis
    by unfold_locales
       (insert assms ax, auto simp: crash_os_write comp_def dest!: dying_cases
         dest: ap_bus.override_write ap_bus.unbind_write ap_bus.unbind_enoent ap_bus.probe_write)
qed

section \<open>Mediated devices and recovery\<close>

text \<open>
  A claim UID as a directory name under the matrix root; the root's own subtree
  \<open>mdev_supported_types\<close> is not a mediated device.
\<close>

definition claim_uid :: "string \<Rightarrow> bool" where
  "claim_uid u \<longleftrightarrow> plain u \<and> u \<noteq> ''mdev_supported_types''"

definition set_mdev :: "string \<Rightarrow> mdev_view option \<Rightarrow> kstate \<Rightarrow> kstate" where
  "set_mdev u m k = k\<lparr>k_mdev := (k_mdev k)(u := m)\<rparr>"

lemma set_mdev_simps [kstate_simps]:
  "k_driver (set_mdev u m k) = k_driver k"
  "k_override (set_mdev u m k) = k_override k"
  "k_mdev (set_mdev u m k) = (k_mdev k)(u := m)"
  by (simp_all add: set_mdev_def)

definition empty_mdev :: mdev_view where
  "empty_mdev = \<lparr>md_adapters = {}, md_domains = {}, md_control = {}\<rparr>"

text \<open>The queues of a mediated device: the cross product of its adapters and domains.\<close>

definition matrix_of :: "mdev_view \<Rightarrow> APQN set" where
  "matrix_of m = {q. APID q \<in> md_adapters m \<and> APQI q \<in> md_domains m}"

definition claimed :: "kstate \<Rightarrow> APQN \<Rightarrow> bool" where
  "claimed k q \<longleftrightarrow> (\<exists>u m. k_mdev k u = Some m \<and> q \<in> matrix_of m)"

text \<open>
  The rows the kernel prints: those of the cross product, and while one of the two sets is
  still empty, the members of the other with nothing beside them.
\<close>

definition matrix_rows :: "mdev_view \<Rightarrow> APQN set" where
  "matrix_rows m =
     (if md_domains m = {} then {q. APID q \<in> md_adapters m \<and> APQI q = []}
      else if md_adapters m = {} then {q. APID q = [] \<and> APQI q \<in> md_domains m}
      else matrix_of m)"

lemma matrix_of_rows: "matrix_of m \<subseteq> matrix_rows m"
  by (auto simp: matrix_rows_def matrix_of_def)

lemma matrix_rows_full: "APID q \<noteq> [] \<Longrightarrow> APQI q \<noteq> [] \<Longrightarrow> q \<in> matrix_rows m \<longleftrightarrow> q \<in> matrix_of m"
  by (auto simp: matrix_rows_def matrix_of_def split: if_splits)

lemma wf_apqn_not_Nil: "wf_apqn q \<Longrightarrow> APID q \<noteq> [] \<and> APQI q \<noteq> []"
  by (auto simp: wf_apqn_def)

text \<open>
  A queue whose override can be read and which the kernel always gives back to zcrypt.
\<close>

definition drainable :: "'w os \<Rightarrow> APQN \<Rightarrow> bool" where
  "drainable os q \<longleftrightarrow> (\<forall>w. \<exists>s. os_ReadFile os (override_path q) w = Inr s) \<and>
     (\<forall>w. fst (SwitchToZcrypt os (APID q) (APQI q) w) = None)"

locale ap_node = ap_bus os K Q for os :: "'w os" and K :: "'w \<Rightarrow> kstate" and Q :: "APQN set" +
  assumes override_read: "q \<in> Q \<Longrightarrow> os_ReadFile os (override_path q) w = Inr s \<Longrightarrow>
      TrimSpace s = k_override (K w) q"
    and override_glob: "os_Glob os apQueueOverrideGlob w = Inr ps \<Longrightarrow>
      \<exists>qs. distinct qs \<and> set qs = Q \<and> ps = map override_path qs"
    and mdev_stat: "claim_uid u \<Longrightarrow>
      os_Stat os (Join [VFIOAPMatrixPath, u]) w = None \<longleftrightarrow> k_mdev (K w) u \<noteq> None"
    and mdev_uid: "k_mdev (K w) u \<noteq> None \<Longrightarrow> claim_uid u"
    and mdev_list: "os_ReadDir os VFIOAPMatrixPath w = Inr es \<Longrightarrow> k_mdev (K w) u \<noteq> None \<Longrightarrow>
      \<exists>e \<in> set es. entry_is_dir e \<and> entry_name e = u"
    and mdev_list_absent: "os_ReadDir os VFIOAPMatrixPath w = Inl e \<Longrightarrow> errors_Is_NotExist e \<Longrightarrow>
      k_mdev (K w) u = None"
    and matrix_read: "k_mdev (K w) u = Some m \<Longrightarrow>
      os_ReadFile os (Join [VFIOAPMatrixPath, u, ''matrix'']) w = Inr s \<Longrightarrow>
      \<exists>qs. s = matrix_text qs \<and> distinct qs \<and> set qs = matrix_rows m \<and> (\<forall>q \<in> set qs. hex_apqn q)"
    and matrix_absent: "plain u \<Longrightarrow> k_mdev (K w) u = None \<Longrightarrow>
      os_ReadFile os (Join [VFIOAPMatrixPath, u, ''matrix'']) w \<noteq> Inr s"
    and dir_names: "os_ReadDir os p w = Inr es \<Longrightarrow> entry \<in> set es \<Longrightarrow> plain (entry_name entry)"
    and create_write: "claim_uid u \<Longrightarrow> os_WriteFile os mdevCreatePath u md w = (r, w') \<Longrightarrow>
      K w' = (if r = None then set_mdev u (Some empty_mdev) (K w) else K w)"
    and remove_write: "claim_uid u \<Longrightarrow>
      os_WriteFile os (Join [VFIOAPMatrixPath, u, ''remove'']) ''1'' md w = (r, w') \<Longrightarrow>
      K w' = (if r = None then set_mdev u None (K w) else K w)"
    and assign_adapter_write: "k_mdev (K w) u = Some m \<Longrightarrow>
      os_WriteFile os (Join [VFIOAPMatrixPath, u, ''assign_adapter'']) (''0x'' @ a) md w = (r, w') \<Longrightarrow>
      K w' = (if r = None then set_mdev u (Some (m\<lparr>md_adapters := insert a (md_adapters m)\<rparr>)) (K w) else K w)"
    and assign_domain_write: "k_mdev (K w) u = Some m \<Longrightarrow>
      os_WriteFile os (Join [VFIOAPMatrixPath, u, ''assign_domain'']) (''0x'' @ d) md w = (r, w') \<Longrightarrow>
      K w' = (if r = None then set_mdev u (Some (m\<lparr>md_domains := insert d (md_domains m)\<rparr>)) (K w) else K w)"
    and assign_control_write: "k_mdev (K w) u = Some m \<Longrightarrow>
      os_WriteFile os (Join [VFIOAPMatrixPath, u, ''assign_control_domain'']) (''0x'' @ d) md w = (r, w') \<Longrightarrow>
      K w' = (if r = None then set_mdev u (Some (m\<lparr>md_control := insert d (md_control m)\<rparr>)) (K w) else K w)"
begin

lemma Exists_iff: "claim_uid u \<Longrightarrow> Exists os u w \<longleftrightarrow> k_mdev (K w) u \<noteq> None"
  using mdev_stat by (simp add: Exists_def)

lemma ReadMatrix_rows:
  assumes "k_mdev (K w) u = Some m" "ReadMatrix os u w = Inr qs"
  shows "distinct qs \<and> set qs = matrix_rows m"
proof -
  obtain s where s: "os_ReadFile os (Join [VFIOAPMatrixPath, u, ''matrix'']) w = Inr s"
    "matrix_lines u (Split nl s) = Inr qs"
    using assms(2) by (auto simp: ReadMatrix_def Let_def split: sum.splits)
  then obtain rs where "s = matrix_text rs" "distinct rs" "set rs = matrix_rows m" "\<forall>q \<in> set rs. hex_apqn q"
    using matrix_read [OF assms(1)] by blast
  with s show ?thesis by (simp add: matrix_lines_text)
qed

lemma live_entries_complete:
  assumes "e \<in> set es" "entry_is_dir e" "ReadMatrix os (entry_name e) w = Inr qs" "q \<in> set qs"
  shows "q \<in> set (live_entries os es w)"
  using assms by (induction es) (auto split: sum.splits)

text \<open>
  The live set holds every queue a mediated device claims, provided every matrix can be
  read.
\<close>

lemma liveAPQNs_complete:
  assumes "liveAPQNs os w = Inr live" "claimed (K w) q"
    and "\<And>u m. k_mdev (K w) u = Some m \<Longrightarrow> \<exists>qs. ReadMatrix os u w = Inr qs"
  shows "q \<in> set live"
proof -
  obtain u m where m: "k_mdev (K w) u = Some m" "q \<in> matrix_of m"
    using assms(2) by (auto simp: claimed_def)
  then obtain qs where qs: "ReadMatrix os u w = Inr qs" "q \<in> set qs"
    using assms(3) ReadMatrix_rows matrix_of_rows by blast
  show ?thesis
  proof (cases "os_ReadDir os VFIOAPMatrixPath w")
    case (Inl e)
    then show ?thesis
      using assms(1) mdev_list_absent [OF Inl] m by (auto simp: liveAPQNs_def split: if_splits)
  next
    case (Inr es)
    then obtain e where "e \<in> set es" "entry_is_dir e" "entry_name e = u"
      using mdev_list m by blast
    then show ?thesis
      using live_entries_complete qs m assms(1) Inr by (auto simp: liveAPQNs_def)
  qed
qed

text \<open>Conversely, every queue of the bus in the live set is claimed by a mediated device.\<close>

lemma live_entries_sound:
  assumes "q \<in> set (live_entries os es w)"
  shows "\<exists>e \<in> set es. \<exists>rows. ReadMatrix os (entry_name e) w = Inr rows \<and> q \<in> set rows"
  using assms by (induction es) (auto split: if_splits sum.splits)

lemma liveAPQNs_sound:
  assumes "liveAPQNs os w = Inr live" "q \<in> set live" "q \<in> Q"
  shows "claimed (K w) q"
proof -
  obtain es where es: "os_ReadDir os VFIOAPMatrixPath w = Inr es" "q \<in> set (live_entries os es w)"
    using assms(1,2) by (auto simp: liveAPQNs_def split: sum.splits if_splits)
  then obtain e rows where e: "e \<in> set es" "ReadMatrix os (entry_name e) w = Inr rows" "q \<in> set rows"
    using live_entries_sound by blast
  then have "k_mdev (K w) (entry_name e) \<noteq> None"
    using matrix_absent [of "entry_name e" w] dir_names [OF es(1)]
    by (auto simp: ReadMatrix_def Let_def split: sum.splits)
  then show ?thesis
    using e ReadMatrix_rows matrix_rows_full wf_apqn_not_Nil [OF queue_names [OF assms(3)]]
    unfolding claimed_def by blast
qed

text \<open>One step of the drain: a marked queue that is not live goes back, the rest is left alone.\<close>

lemma drain_one_cases:
  assumes "q \<in> Q"
  shows "drain_one os live (override_path q) w = w \<and>
           (q \<in> set live \<or> k_override (K w) q \<noteq> ''vfio_ap'' \<or> (\<exists>e. os_ReadFile os (override_path q) w = Inl e))
       \<or> drain_one os live (override_path q) w = snd (SwitchToZcrypt os (APID q) (APQI q) w) \<and>
           q \<notin> set live \<and> k_override (K w) q = ''vfio_ap''"
proof -
  have parse: "parseAPQNFromOverridePath (override_path q) = Some (APID q, APQI q)"
    using parse_override_path queue_names assms by (simp add: override_path_def)
  show ?thesis
    using override_read [OF assms, of w]
    by (cases "os_ReadFile os (override_path q) w")
       (auto simp: drain_one_def ReadFile_def parse)
qed

lemma drain_one_frame:
  assumes "q \<in> Q"
  shows "differ_at (if q \<notin> set live \<and> k_override (K w) q = ''vfio_ap'' then {q} else {})
           (K w) (K (drain_one os live (override_path q) w))"
  using drain_one_cases [OF assms, of live w] SwitchToZcrypt_frame [OF assms, of w]
  by (auto simp: prod_eq_iff)

lemma drain_matches_frame:
  assumes "set qs \<subseteq> Q" "distinct qs"
  shows "differ_at {q \<in> set qs. q \<notin> set live \<and> k_override (K w) q = ''vfio_ap''}
           (K w) (K (drain_matches os live (map override_path qs) w))"
  using assms
proof (induction qs arbitrary: w)
  case (Cons q qs)
  let ?w1 = "drain_one os live (override_path q) w"
  let ?S = "\<lambda>w qs. {q \<in> set qs. q \<notin> set live \<and> k_override (K w) q = ''vfio_ap''}"
  have d1: "differ_at (if q \<notin> set live \<and> k_override (K w) q = ''vfio_ap'' then {q} else {}) (K w) (K ?w1)"
    using Cons.prems by (intro drain_one_frame) simp
  then have "differ_at {q} (K w) (K ?w1)" by (rule differ_at_mono) simp
  then have "?S ?w1 qs = ?S w qs" using Cons.prems by (auto simp: differ_at_def)
  moreover have "differ_at (?S ?w1 qs) (K ?w1) (K (drain_matches os live (map override_path qs) ?w1))"
    using Cons by simp
  ultimately have "differ_at (?S w qs) (K ?w1) (K (drain_matches os live (map override_path qs) ?w1))"
    by simp
  then have "differ_at ((if q \<notin> set live \<and> k_override (K w) q = ''vfio_ap'' then {q} else {}) \<union> ?S w qs)
      (K w) (K (drain_matches os live (map override_path qs) ?w1))"
    by (rule differ_at_trans [OF d1])
  moreover have "(if q \<notin> set live \<and> k_override (K w) q = ''vfio_ap'' then {q} else {}) \<union> ?S w qs = ?S w (q # qs)"
    by auto
  ultimately show ?case by simp
qed simp

lemma drain_matches_complete:
  assumes "set qs \<subseteq> Q" "distinct qs" "\<forall>q \<in> set qs. drainable os q"
    and "q \<in> set qs" "q \<notin> set live" "k_override (K w) q = ''vfio_ap''"
  shows "on_zcrypt (K (drain_matches os live (map override_path qs) w)) q"
  using assms
proof (induction qs arbitrary: w)
  case (Cons p ps)
  let ?w1 = "drain_one os live (override_path p) w"
  have fr: "differ_at {p} (K w) (K ?w1)"
    by (intro differ_at_mono [OF drain_one_frame]) (use Cons.prems in auto)
  show ?case
  proof (cases "q = p")
    case True
    have "drainable os p" using Cons.prems by simp
    then obtain s where "os_ReadFile os (override_path p) w = Inr s"
      unfolding drainable_def by blast
    then have "?w1 = snd (SwitchToZcrypt os (APID p) (APQI p) w)"
      using Cons.prems True drain_one_cases [of p live w] by auto
    then have "on_zcrypt (K ?w1) p"
      using Cons.prems to_zcrypt.op_shape [of p w ?w1] by (auto simp: drainable_def prod_eq_iff)
    moreover have "differ_at {q \<in> set ps. q \<notin> set live \<and> k_override (K ?w1) q = ''vfio_ap''} (K ?w1)
        (K (drain_matches os live (map override_path ps) ?w1))"
      using Cons.prems by (intro drain_matches_frame) auto
    ultimately show ?thesis using True Cons.prems to_zcrypt.shape_local by fastforce
  next
    case False
    then have "k_override (K ?w1) q = ''vfio_ap''" using fr Cons.prems by (simp add: differ_at_def)
    with False Cons show ?thesis by simp
  qed
qed simp

end

section \<open>Operating systems derived from others\<close>

text \<open>
  \<open>masked f os\<close> prepares the world with \<open>f\<close> before every operation; \<open>denying p os\<close>
  fails every write to one path. Both keep the laws, the first when \<open>f\<close> leaves the kernel
  state alone.
\<close>

definition masked :: "('w \<Rightarrow> 'w) \<Rightarrow> 'w os \<Rightarrow> 'w os" where
  "masked f os =
     \<lparr>os_Stat = (\<lambda>p w. os_Stat os p (f w)),
      os_ReadFile = (\<lambda>p w. os_ReadFile os p (f w)),
      os_ReadDir = (\<lambda>p w. os_ReadDir os p (f w)),
      os_Readlink = (\<lambda>p w. os_Readlink os p (f w)),
      os_Glob = (\<lambda>p w. os_Glob os p (f w)),
      os_WriteFile = (\<lambda>p d m w. os_WriteFile os p d m (f w)),
      os_MkdirAll = (\<lambda>p m w. os_MkdirAll os p m (f w)),
      os_Remove = (\<lambda>p w. os_Remove os p (f w)),
      os_RemoveAll = (\<lambda>p w. os_RemoveAll os p (f w))\<rparr>"

definition denying :: "string \<Rightarrow> 'w os \<Rightarrow> 'w os" where
  "denying p os = os\<lparr>os_WriteFile := (\<lambda>p' d m w.
     if p' = p then (Some (PathError p EIO), w) else os_WriteFile os p' d m w)\<rparr>"

lemma masked_sel [simp]:
  "os_Stat (masked f os) p w = os_Stat os p (f w)"
  "os_ReadFile (masked f os) p w = os_ReadFile os p (f w)"
  "os_ReadDir (masked f os) p w = os_ReadDir os p (f w)"
  "os_Readlink (masked f os) p w = os_Readlink os p (f w)"
  "os_Glob (masked f os) p w = os_Glob os p (f w)"
  "os_WriteFile (masked f os) p d m w = os_WriteFile os p d m (f w)"
  by (simp_all add: masked_def)

lemma denying_sel [simp]:
  "os_Stat (denying q os) = os_Stat os" "os_ReadFile (denying q os) = os_ReadFile os"
  "os_ReadDir (denying q os) = os_ReadDir os" "os_Readlink (denying q os) = os_Readlink os"
  "os_Glob (denying q os) = os_Glob os"
  "os_WriteFile (denying q os) p d m w =
     (if p = q then (Some (PathError q EIO), w) else os_WriteFile os p d m w)"
  by (simp_all add: denying_def)

lemma masked_bus:
  assumes a: "ap_bus os K Q" and f: "\<And>w. K (f w) = K w"
  shows "ap_bus (masked f os) K Q"
proof
  show "wf_apqn q" if "q \<in> Q" for q using ap_bus.queue_names [OF a that] .
next
  fix q data m w r w' assume "q \<in> Q" "os_WriteFile (masked f os) (driverOverridePath (APID q) (APQI q)) data m w = (r, w')"
  then show "K w' = (if r = None then set_override q (TrimSpace data) (K w) else K w)"
    using ap_bus.override_write [OF a, of q data m "f w" r w'] f by simp
next
  fix q m w r w' assume "q \<in> Q" "os_WriteFile (masked f os) (deviceUnbindPath (APID q) (APQI q)) (queue_name q) m w = (r, w')"
  then show "K w' = (if r = None then set_driver q [] (K w) else K w)"
    using ap_bus.unbind_write [OF a, of q m "f w" r w'] f by simp
next
  fix q m w e w' assume "q \<in> Q" "errors_Is_NotExist e"
    "os_WriteFile (masked f os) (deviceUnbindPath (APID q) (APQI q)) (queue_name q) m w = (Some e, w')"
  then show "k_driver (K w) q = []"
    using ap_bus.unbind_enoent [OF a, of q m "f w" e w'] f by simp
next
  fix q w m r w' assume "q \<in> Q" "k_override (K w) q \<in> {[], ''vfio_ap''}"
    "os_WriteFile (masked f os) DriversProbePath (queue_name q) m w = (r, w')"
  then show "K w' = (if r = None then probe_queue q (K w) else K w)"
    using ap_bus.probe_write [OF a, of q "f w" m r w'] f by simp
qed

lemma masked_node:
  assumes a: "ap_node os K Q" and f: "\<And>w. K (f w) = K w"
  shows "ap_node (masked f os) K Q"
proof (rule ap_node.intro [OF masked_bus [OF ap_node.axioms(1) [OF a] f]], unfold_locales)
  fix q :: APQN and w and s
  assume "q \<in> Q" "os_ReadFile (masked f os) (override_path q) w = Inr s"
  then show "TrimSpace s = k_override (K w) q" using ap_node.override_read [OF a, of q "f w"] f by simp
next
  fix w ps assume "os_Glob (masked f os) apQueueOverrideGlob w = Inr ps"
  then show "\<exists>qs. distinct qs \<and> set qs = Q \<and> ps = map override_path qs"
    using ap_node.override_glob [OF a, of "f w"] by simp
next
  fix u w assume "claim_uid u"
  then show "(os_Stat (masked f os) (Join [VFIOAPMatrixPath, u]) w = None) = (k_mdev (K w) u \<noteq> None)"
    using ap_node.mdev_stat [OF a, of u "f w"] f by simp
next
  fix w u assume "k_mdev (K w) u \<noteq> None"
  then show "claim_uid u" using ap_node.mdev_uid [OF a] by blast
next
  fix w es u assume "os_ReadDir (masked f os) VFIOAPMatrixPath w = Inr es" "k_mdev (K w) u \<noteq> None"
  then show "\<exists>e\<in>set es. entry_is_dir e \<and> entry_name e = u"
    using ap_node.mdev_list [OF a, of "f w" es u] f by simp
next
  fix w e u assume "os_ReadDir (masked f os) VFIOAPMatrixPath w = Inl e" "errors_Is_NotExist e"
  then show "k_mdev (K w) u = None" using ap_node.mdev_list_absent [OF a, of "f w" e u] f by simp
next
  fix w u m s assume "k_mdev (K w) u = Some m"
    "os_ReadFile (masked f os) (Join [VFIOAPMatrixPath, u, ''matrix'']) w = Inr s"
  then show "\<exists>qs. s = matrix_text qs \<and> distinct qs \<and> set qs = matrix_rows m \<and> (\<forall>q\<in>set qs. hex_apqn q)"
    using ap_node.matrix_read [OF a, of "f w" u m s] f by simp
next
  fix u w s assume "plain u" "k_mdev (K w) u = None"
  then show "os_ReadFile (masked f os) (Join [VFIOAPMatrixPath, u, ''matrix'']) w \<noteq> Inr s"
    using ap_node.matrix_absent [OF a, of u "f w" s] f by simp
next
  fix p w es entry assume "os_ReadDir (masked f os) p w = Inr es" "entry \<in> set es"
  then show "plain (entry_name entry)" using ap_node.dir_names [OF a, of p "f w"] by simp
next
  fix u md w r w' assume "claim_uid u" "os_WriteFile (masked f os) mdevCreatePath u md w = (r, w')"
  then show "K w' = (if r = None then set_mdev u (Some empty_mdev) (K w) else K w)"
    using ap_node.create_write [OF a, of u md "f w" r w'] f by simp
next
  fix u md w r w' assume "claim_uid u"
    "os_WriteFile (masked f os) (Join [VFIOAPMatrixPath, u, ''remove'']) ''1'' md w = (r, w')"
  then show "K w' = (if r = None then set_mdev u None (K w) else K w)"
    using ap_node.remove_write [OF a, of u md "f w" r w'] f by simp
next
  fix w u m v md r w' assume "k_mdev (K w) u = Some m"
    "os_WriteFile (masked f os) (Join [VFIOAPMatrixPath, u, ''assign_adapter'']) (''0x'' @ v) md w = (r, w')"
  then show "K w' = (if r = None then set_mdev u (Some (m\<lparr>md_adapters := insert v (md_adapters m)\<rparr>)) (K w) else K w)"
    using ap_node.assign_adapter_write [OF a, of "f w" u m v md r w'] f by simp
next
  fix w u m v md r w' assume "k_mdev (K w) u = Some m"
    "os_WriteFile (masked f os) (Join [VFIOAPMatrixPath, u, ''assign_domain'']) (''0x'' @ v) md w = (r, w')"
  then show "K w' = (if r = None then set_mdev u (Some (m\<lparr>md_domains := insert v (md_domains m)\<rparr>)) (K w) else K w)"
    using ap_node.assign_domain_write [OF a, of "f w" u m v md r w'] f by simp
next
  fix w u m v md r w' assume "k_mdev (K w) u = Some m"
    "os_WriteFile (masked f os) (Join [VFIOAPMatrixPath, u, ''assign_control_domain'']) (''0x'' @ v) md w = (r, w')"
  then show "K w' = (if r = None then set_mdev u (Some (m\<lparr>md_control := insert v (md_control m)\<rparr>)) (K w) else K w)"
    using ap_node.assign_control_write [OF a, of "f w" u m v md r w'] f by simp
qed

lemma denying_bus:
  assumes a: "ap_bus os K Q"
  shows "ap_bus (denying p os) K Q"
proof
  show "wf_apqn q" if "q \<in> Q" for q using ap_bus.queue_names [OF a that] .
next
  fix q data m w r w' assume "q \<in> Q" "os_WriteFile (denying p os) (driverOverridePath (APID q) (APQI q)) data m w = (r, w')"
  then show "K w' = (if r = None then set_override q (TrimSpace data) (K w) else K w)"
    using ap_bus.override_write [OF a, of q data m w r w'] by (auto split: if_splits)
next
  fix q m w r w' assume "q \<in> Q" "os_WriteFile (denying p os) (deviceUnbindPath (APID q) (APQI q)) (queue_name q) m w = (r, w')"
  then show "K w' = (if r = None then set_driver q [] (K w) else K w)"
    using ap_bus.unbind_write [OF a, of q m w r w'] by (auto split: if_splits)
next
  fix q m w e w' assume "q \<in> Q" "errors_Is_NotExist e"
    "os_WriteFile (denying p os) (deviceUnbindPath (APID q) (APQI q)) (queue_name q) m w = (Some e, w')"
  then show "k_driver (K w) q = []"
    using ap_bus.unbind_enoent [OF a, of q m w e w'] by (auto split: if_splits)
next
  fix q w m r w' assume "q \<in> Q" "k_override (K w) q \<in> {[], ''vfio_ap''}"
    "os_WriteFile (denying p os) DriversProbePath (queue_name q) m w = (r, w')"
  then show "K w' = (if r = None then probe_queue q (K w) else K w)"
    using ap_bus.probe_write [OF a, of q w m r w'] by (auto split: if_splits)
qed

end
