(* ===== verification/Ap_Sim.thy ===== *)
theory Ap_Sim
  imports Ap_Kernel
begin

text \<open>
  An executable operating system with the laws of \<open>Ap_Kernel\<close>: three AP queues, any number
  of mediated devices, a table of ordinary files, and a list of paths on which every
  operation fails. It plays the part the fake sysfs tree plays in the repository's tests
  (\<open>fakeSysfs\<close> in \<open>recovery_test.go\<close>), except that its attributes act the way the
  kernel's do. The witnesses run the model on it.
\<close>

record sim =
  s_queues :: "(APQN \<times> string \<times> string) list"
  s_mdevs :: "(string \<times> string list \<times> string list \<times> string list) list"
  s_files :: "(string \<times> string) list"
  s_fail :: "string list"

definition sim_apqns :: "APQN list" where
  "sim_apqns = [\<lparr>APID = ''01'', APQI = ''0002''\<rparr>, \<lparr>APID = ''01'', APQI = ''0003''\<rparr>,
                \<lparr>APID = ''02'', APQI = ''0002''\<rparr>]"

section \<open>Which attribute a path names\<close>

datatype target =
    TOverride APQN | TUnbind APQN | TProbe | TCreate | TMatrixRoot | TMdev string
  | TAttr string string | TFile string

definition apqn_of :: "string \<Rightarrow> APQN" where
  "apqn_of n = (case Cut (CHR ''.'') n of None \<Rightarrow> \<lparr>APID = n, APQI = []\<rparr>
                                       | Some (a, d) \<Rightarrow> \<lparr>APID = a, APQI = d\<rparr>)"

definition target_comps :: "string list \<Rightarrow> string \<Rightarrow> target" where
  "target_comps cs p =
     (if length cs = 6 \<and> take 3 cs = [''sys'', ''devices'', ''ap''] \<and> cs ! 5 = ''driver_override''
      then TOverride (apqn_of (cs ! 4))
      else if length cs = 7 \<and> take 3 cs = [''sys'', ''devices'', ''ap''] \<and> cs ! 6 = ''unbind''
      then TUnbind (apqn_of (cs ! 4))
      else if cs = [''sys'', ''bus'', ''ap'', ''drivers_probe''] then TProbe
      else if take 4 cs = [''sys'', ''devices'', ''vfio_ap'', ''matrix''] \<and> length cs = 7 \<and> cs ! 6 = ''create''
      then TCreate
      else if cs = [''sys'', ''devices'', ''vfio_ap'', ''matrix''] then TMatrixRoot
      else if length cs = 5 \<and> take 4 cs = [''sys'', ''devices'', ''vfio_ap'', ''matrix''] then TMdev (cs ! 4)
      else if length cs = 6 \<and> take 4 cs = [''sys'', ''devices'', ''vfio_ap'', ''matrix''] then TAttr (cs ! 4) (cs ! 5)
      else TFile p)"

definition target_of :: "string \<Rightarrow> target" where
  "target_of p = target_comps (tl (Split slash p)) p"

section \<open>The operations\<close>

definition q_state :: "sim \<Rightarrow> APQN \<Rightarrow> string \<times> string" where
  "q_state s q = (case map_of (s_queues s) q of None \<Rightarrow> ([], []) | Some x \<Rightarrow> x)"

definition set_q :: "APQN \<Rightarrow> string \<times> string \<Rightarrow> sim \<Rightarrow> sim" where
  "set_q q x s = s\<lparr>s_queues := AList.update q x (s_queues s)\<rparr>"

definition set_m :: "string \<Rightarrow> string list \<times> string list \<times> string list \<Rightarrow> sim \<Rightarrow> sim" where
  "set_m u x s = s\<lparr>s_mdevs := AList.update u x (s_mdevs s)\<rparr>"

definition assign :: "string \<Rightarrow> string \<Rightarrow> sim \<Rightarrow> string \<Rightarrow> goerr option \<times> sim" where
  "assign u attr s v =
     (case map_of (s_mdevs s) u of
        None \<Rightarrow> (Some (PathError attr ENOENT), s)
      | Some (as, ds, cs) \<Rightarrow>
          if attr = ''assign_adapter'' then (None, set_m u (v # as, ds, cs) s)
          else if attr = ''assign_domain'' then (None, set_m u (as, v # ds, cs) s)
          else if attr = ''assign_control_domain'' then (None, set_m u (as, ds, v # cs) s)
          else (Some (PathError attr EINVAL), s))"

definition sim_write :: "string \<Rightarrow> string \<Rightarrow> nat \<Rightarrow> sim \<Rightarrow> goerr option \<times> sim" where
  "sim_write p d md s =
     (if p \<in> set (s_fail s) then (Some (PathError p EIO), s)
      else (case target_of p of
              TOverride q \<Rightarrow> (None, set_q q (fst (q_state s q), TrimSpace d) s)
            | TUnbind q \<Rightarrow>
                if fst (q_state s q) = [] then (Some (PathError p ENOENT), s)
                else (None, set_q q ([], snd (q_state s q)) s)
            | TProbe \<Rightarrow>
                (let q = apqn_of d; (drv, ovr0) = q_state s q; ovr = TrimSpace ovr0 in
                 if drv \<noteq> [] then (None, s)
                 else (None, set_q q (if ovr = [] then ''cex4queue'' else ovr, ovr) s))
            | TCreate \<Rightarrow> (None, set_m d ([], [], []) s)
            | TMatrixRoot \<Rightarrow> (Some (PathError p EISDIR), s)
            | TMdev u \<Rightarrow> (Some (PathError p EISDIR), s)
            | TAttr u attr \<Rightarrow>
                if attr = ''remove'' then (None, s\<lparr>s_mdevs := AList.delete u (s_mdevs s)\<rparr>)
                else assign u attr s (drop 2 d)
            | TFile f \<Rightarrow> (None, s\<lparr>s_files := AList.update f d (s_files s)\<rparr>)))"

definition rows_of :: "string list \<times> string list \<times> string list \<Rightarrow> APQN list" where
  "rows_of x = (case x of (as, ds, cs) \<Rightarrow>
     map (\<lambda>(a, d). \<lparr>APID = a, APQI = d\<rparr>)
       (List.product (if as = [] \<and> ds \<noteq> [] then [[]] else remdups as)
                     (if ds = [] \<and> as \<noteq> [] then [[]] else remdups ds)))"

definition sim_read :: "string \<Rightarrow> sim \<Rightarrow> goerr + string" where
  "sim_read p s =
     (if p \<in> set (s_fail s) then Inl (PathError p EIO)
      else (case target_of p of
              TOverride q \<Rightarrow> Inr (TrimSpace (snd (q_state s q)))
            | TAttr u attr \<Rightarrow>
                (case map_of (s_mdevs s) u of
                   None \<Rightarrow> Inl (PathError p ENOENT)
                 | Some x \<Rightarrow> if attr = ''matrix'' \<and> claim_uid u \<and> list_all hex_apqn (rows_of x) then Inr (matrix_text (rows_of x))
                             else Inl (PathError p EACCES))
            | TFile f \<Rightarrow> (case map_of (s_files s) f of None \<Rightarrow> Inl (PathError p ENOENT) | Some d \<Rightarrow> Inr d)
            | _ \<Rightarrow> Inl (PathError p EACCES)))"

definition sim_stat :: "string \<Rightarrow> sim \<Rightarrow> goerr option" where
  "sim_stat p s =
     (case target_of p of
        TMdev u \<Rightarrow> (if map_of (s_mdevs s) u = None then Some (PathError p ENOENT) else None)
      | TFile f \<Rightarrow>
          (if list_ex (\<lambda>(g, _). g = f \<or> HasPrefix g (f @ [slash])) (s_files s) then None
           else Some (PathError p ENOENT))
      | _ \<Rightarrow> None)"

definition sim_readdir :: "string \<Rightarrow> sim \<Rightarrow> goerr + dir_entry list" where
  "sim_readdir p s =
     (if p \<in> set (s_fail s) then Inl (PathError p EIO)
      else (case target_of p of
              TMatrixRoot \<Rightarrow> Inr (\<lparr>entry_name = ''mdev_supported_types'', entry_is_dir = True\<rparr>
                # map (\<lambda>(u, _). \<lparr>entry_name = u, entry_is_dir = True\<rparr>)
                    (filter (claim_uid \<circ> fst) (s_mdevs s)))
            | TFile f \<Rightarrow>
                (let es = filter (plain \<circ> entry_name) (mem_children f (s_files s))
                 in if es = [] then Inl (PathError p ENOENT) else Inr es)
            | _ \<Rightarrow> Inl (PathError p ENOENT)))"

definition sim_readlink :: "string \<Rightarrow> sim \<Rightarrow> goerr + string" where
  "sim_readlink p s =
     (if p \<in> set (s_fail s) then Inl (PathError p EIO)
      else (case target_of p of
              TAttr u attr \<Rightarrow>
                if map_of (s_mdevs s) u \<noteq> None \<and> attr = ''iommu_group''
                then Inr ''../../../../kernel/iommu_groups/2'' else Inl (PathError p ENOENT)
            | _ \<Rightarrow> Inl (PathError p ENOENT)))"

text \<open>Besides the queue pattern, patterns with one star, which matches within a component.\<close>

definition star_match :: "string \<Rightarrow> string \<Rightarrow> string \<Rightarrow> bool" where
  "star_match pre suf f \<longleftrightarrow> HasPrefix f pre \<and> HasSuffix f suf \<and> length pre + length suf \<le> length f
     \<and> slash \<notin> set (drop (length pre) (take (length f - length suf) f))"

definition sim_glob :: "string \<Rightarrow> sim \<Rightarrow> goerr + string list" where
  "sim_glob p s =
     (if p = apQueueOverrideGlob then Inr (map override_path sim_apqns)
      else (case Cut (CHR ''*'') p of
              None \<Rightarrow> Inr []
            | Some (pre, suf) \<Rightarrow> Inr (filter (star_match pre suf) (map fst (s_files s)))))"

definition sim_remove :: "string \<Rightarrow> sim \<Rightarrow> goerr option \<times> sim" where
  "sim_remove p s =
     (if p \<in> set (s_fail s) then (Some (PathError p EIO), s)
      else if map_of (s_files s) p = None then (Some (PathError p ENOENT), s)
      else (None, s\<lparr>s_files := AList.delete p (s_files s)\<rparr>))"

definition sim_removeall :: "string \<Rightarrow> sim \<Rightarrow> goerr option \<times> sim" where
  "sim_removeall p s =
     (if p \<in> set (s_fail s) then (Some (PathError p EIO), s)
      else (None, s\<lparr>s_files := filter (\<lambda>(g, _). \<not> (g = p \<or> HasPrefix g (p @ [slash]))) (s_files s)\<rparr>))"

definition sim_os :: "sim os" where
  "sim_os = \<lparr>os_Stat = sim_stat, os_ReadFile = sim_read, os_ReadDir = sim_readdir,
     os_Readlink = sim_readlink, os_Glob = sim_glob, os_WriteFile = sim_write,
     os_MkdirAll = (\<lambda>p m s. (None, s)), os_Remove = sim_remove, os_RemoveAll = sim_removeall\<rparr>"

section \<open>It satisfies the laws\<close>

definition sim_K :: "sim \<Rightarrow> kstate" where
  "sim_K s = \<lparr>k_driver = (\<lambda>q. fst (q_state s q)),
     k_override = (\<lambda>q. TrimSpace (snd (q_state s q))),
     k_mdev = (\<lambda>u. if claim_uid u then map_option (\<lambda>(as, ds, cs).
        \<lparr>md_adapters = set as, md_domains = set ds, md_control = set cs\<rparr>) (map_of (s_mdevs s) u)
        else None)\<rparr>"

lemma TrimSpace_idem [simp]: "TrimSpace (TrimSpace s) = TrimSpace s"
proof (cases "TrimSpace s = []")
  case True
  then show ?thesis by (simp add: TrimSpace_def [of "[]"])
next
  case False
  then have "\<not> is_space (hd (TrimSpace s))" "\<not> is_space (last (TrimSpace s))"
    using TrimSpace_no_space_ends [of s] by auto
  then have "dropWhile is_space (TrimSpace s) = TrimSpace s"
    "dropWhile is_space (rev (TrimSpace s)) = rev (TrimSpace s)"
    using False by (metis dropWhile_eq_self_iff, metis dropWhile_eq_self_iff hd_rev)
  then show ?thesis by (metis TrimSpace_def rev_rev_ident)
qed

lemma TrimSpace_Nil [simp]: "TrimSpace [] = []"
  by (simp add: TrimSpace_def)

lemma apqn_of_name: "wf_apqn q \<Longrightarrow> apqn_of (queue_name q) = q"
  by (simp add: apqn_of_def Cut_queue_name)

lemma target_of_path_of:
  assumes "\<forall>c \<in> set cs. plain c"
  shows "target_of (path_of cs) = target_comps cs (path_of cs)"
  using Split_path_of [of cs] assms by (simp add: target_of_def plain_def)

lemma plain_consts:
  "plain ''sys''" "plain ''devices''" "plain ''ap''" "plain ''driver''" "plain ''unbind''"
  "plain ''driver_override''" "plain ''vfio_ap''" "plain ''matrix''" "plain ''remove''"
  "plain ''assign_adapter''" "plain ''assign_domain''" "plain ''assign_control_domain''"
  "plain ''iommu_group''"
  by (simp_all add: plain_def)

lemma target_override:
  assumes "wf_apqn q"
  shows "target_of (driverOverridePath (APID q) (APQI q)) = TOverride q"
proof -
  let ?cs = "[''sys'', ''devices'', ''ap'', ''card'' @ APID q, queue_name q, ''driver_override'']"
  have "driverOverridePath (APID q) (APQI q) = path_of ?cs"
    using override_path_path_of [OF assms] by (simp add: override_path_def)
  moreover have "target_of (path_of ?cs) = target_comps ?cs (path_of ?cs)"
    using plain_hex_comp [OF assms] plain_consts by (intro target_of_path_of) simp
  ultimately show ?thesis
    by (simp add: target_comps_def apqn_of_name [OF assms])
qed

lemma target_unbind:
  assumes "wf_apqn q"
  shows "target_of (deviceUnbindPath (APID q) (APQI q)) = TUnbind q"
proof -
  let ?cs = "[''sys'', ''devices'', ''ap'', ''card'' @ APID q, queue_name q, ''driver'', ''unbind'']"
  have "deviceUnbindPath (APID q) (APQI q) = path_of ?cs"
    using plain_hex_comp [OF assms] plain_consts
    by (simp add: deviceUnbindPath_def APDevicesPath_path_of Join_path_of queue_name_def)
  moreover have "target_of (path_of ?cs) = target_comps ?cs (path_of ?cs)"
    using plain_hex_comp [OF assms] plain_consts by (intro target_of_path_of) simp
  ultimately show ?thesis
    by (simp add: target_comps_def apqn_of_name [OF assms])
qed

lemma target_probe: "target_of DriversProbePath = TProbe"
  by code_simp

lemma target_create: "target_of mdevCreatePath = TCreate"
  by code_simp

lemma target_root: "target_of VFIOAPMatrixPath = TMatrixRoot"
  by code_simp

lemma target_mdev:
  assumes "plain u"
  shows "target_of (Join [VFIOAPMatrixPath, u]) = TMdev u"
proof -
  let ?cs = "[''sys'', ''devices'', ''vfio_ap'', ''matrix'', u]"
  have "Join [VFIOAPMatrixPath, u] = path_of ?cs"
    using assms plain_consts by (simp add: VFIOAPMatrixPath_path_of Join_path_of)
  moreover have "target_of (path_of ?cs) = target_comps ?cs (path_of ?cs)"
    using assms plain_consts by (intro target_of_path_of) simp
  ultimately show ?thesis by (simp add: target_comps_def)
qed

lemma target_attr:
  assumes "plain u" "plain a"
  shows "target_of (Join [VFIOAPMatrixPath, u, a]) = TAttr u a"
proof -
  let ?cs = "[''sys'', ''devices'', ''vfio_ap'', ''matrix'', u, a]"
  have "Join [VFIOAPMatrixPath, u, a] = path_of ?cs"
    using assms plain_consts by (simp add: VFIOAPMatrixPath_path_of Join_path_of)
  moreover have "target_of (path_of ?cs) = target_comps ?cs (path_of ?cs)"
    using assms plain_consts by (intro target_of_path_of) simp
  ultimately show ?thesis by (simp add: target_comps_def)
qed

lemmas target_simps = target_override target_unbind target_probe target_create target_root
  target_mdev target_attr

lemma sim_K_set_q:
  "sim_K (set_q q (d, v) s) = set_driver q d (set_override q (TrimSpace v) (sim_K s))"
  by (auto simp: sim_K_def set_q_def q_state_def set_driver_def set_override_def update_conv' fun_eq_iff)

lemma sim_K_fields:
  "k_driver (sim_K s) q = fst (q_state s q)"
  "k_override (sim_K s) q = TrimSpace (snd (q_state s q))"
  by (simp_all add: sim_K_def)

lemma sim_K_set_m:
  "claim_uid u \<Longrightarrow> sim_K (set_m u (as, ds, cs) s) =
     set_mdev u (Some \<lparr>md_adapters = set as, md_domains = set ds, md_control = set cs\<rparr>) (sim_K s)"
  by (auto simp: sim_K_def set_m_def set_mdev_def q_state_def update_conv' fun_eq_iff)

lemma sim_K_remove:
  "claim_uid u \<Longrightarrow> sim_K (s\<lparr>s_mdevs := AList.delete u (s_mdevs s)\<rparr>) = set_mdev u None (sim_K s)"
  by (auto simp: sim_K_def set_mdev_def q_state_def delete_conv' fun_eq_iff)

lemma claim_uid_plain: "claim_uid u \<Longrightarrow> plain u"
  by (simp add: claim_uid_def)

lemma rows_of_set:
  "set (rows_of (as, ds, cs)) = matrix_rows \<lparr>md_adapters = set as, md_domains = set ds, md_control = set cs\<rparr>"
proof -
  have "q \<in> (\<lambda>(a, d). \<lparr>APID = a, APQI = d\<rparr>) ` (A \<times> D) \<longleftrightarrow> APID q \<in> A \<and> APQI q \<in> D"
    for q :: APQN and A D
    by (cases q) force
  then show ?thesis by (auto simp: rows_of_def matrix_rows_def matrix_of_def)
qed

lemma rows_of_distinct: "distinct (rows_of x)"
  by (auto simp: rows_of_def distinct_map distinct_product inj_on_def split: prod.splits)

section \<open>The interpretation\<close>

lemma sim_apqns_wf: "q \<in> set sim_apqns \<Longrightarrow> wf_apqn q"
  by (auto simp: sim_apqns_def wf_apqn_def is_lhex_def is_digit_def less_eq_char_def)

lemma sim_os_sel [simp]:
  "os_Stat sim_os = sim_stat" "os_ReadFile sim_os = sim_read" "os_ReadDir sim_os = sim_readdir"
  "os_Readlink sim_os = sim_readlink" "os_Glob sim_os = sim_glob" "os_WriteFile sim_os = sim_write"
  "os_MkdirAll sim_os = (\<lambda>p m s. (None, s))" "os_Remove sim_os = sim_remove"
  "os_RemoveAll sim_os = sim_removeall"
  by (simp_all add: sim_os_def)

lemma set_override_keep_driver:
  "set_driver q (k_driver k q) (set_override q v k) = set_override q v k"
  by (simp add: kstate_simps)

lemma sim_probe:
  assumes "wf_apqn q" "sim_write DriversProbePath (queue_name q) m w = (r, w')"
  shows "sim_K w' = (if r = None then probe_queue q (sim_K w) else sim_K w)"
proof (cases "q_state w q")
  case (Pair drv ovr)
  then show ?thesis
    using assms
    by (auto simp: sim_write_def target_simps apqn_of_name probe_queue_def sim_K_set_q
        sim_K_fields Let_def split: if_splits)
qed

interpretation sim: ap_bus sim_os sim_K "set sim_apqns"
proof
  fix q :: APQN assume q: "q \<in> set sim_apqns"
  show wf: "wf_apqn q" using q by (rule sim_apqns_wf)
  fix data m w r w'
  show "sim_K w' = (if r = None then set_override q (TrimSpace data) (sim_K w) else sim_K w)"
    if "os_WriteFile sim_os (driverOverridePath (APID q) (APQI q)) data m w = (r, w')"
    using that wf set_override_keep_driver [of q "sim_K w"]
    by (auto simp: sim_write_def target_simps sim_K_set_q sim_K_fields split: if_splits)
  show "sim_K w' = (if r = None then set_driver q [] (sim_K w) else sim_K w)"
    if "os_WriteFile sim_os (deviceUnbindPath (APID q) (APQI q)) (queue_name q) m w = (r, w')"
    using that wf
    by (auto simp: sim_write_def target_simps sim_K_set_q sim_K_fields kstate_simps split: if_splits)
  show "k_driver (sim_K w) q = []"
    if "os_WriteFile sim_os (deviceUnbindPath (APID q) (APQI q)) (queue_name q) m w = (Some e, w')"
      "errors_Is_NotExist e" for e
    using that wf by (auto simp: sim_write_def target_simps sim_K_fields split: if_splits)
  show "sim_K w' = (if r = None then probe_queue q (sim_K w) else sim_K w)"
    if "os_WriteFile sim_os DriversProbePath (queue_name q) m w = (r, w')"
    using that sim_probe [OF wf] by simp
qed

lemma plain_supported_types: "plain ''mdev_supported_types''"
  by (simp add: plain_def)

lemma claim_uid_cases: "k_mdev (sim_K w) u = Some m \<Longrightarrow> claim_uid u \<and> (\<exists>as ds cs.
    map_of (s_mdevs w) u = Some (as, ds, cs) \<and> m = \<lparr>md_adapters = set as, md_domains = set ds, md_control = set cs\<rparr>)"
  by (auto simp: sim_K_def split: if_splits)

lemma sim_assign:
  assumes "k_mdev (sim_K w) u = Some m" "plain attr" "attr \<noteq> ''remove''"
    and "sim_write (Join [VFIOAPMatrixPath, u, attr]) (''0x'' @ v) md w = (r, w')"
  shows "w' = w \<and> r \<noteq> None \<or> (r, w') = assign u attr w v"
proof -
  have "plain u" using claim_uid_cases [OF assms(1)] claim_uid_plain by blast
  then show ?thesis
    using assms by (auto simp: sim_write_def target_simps split: if_splits)
qed

interpretation sim_node: ap_node sim_os sim_K "set sim_apqns"
proof
  fix w :: sim and u :: string
  fix q s
  show "TrimSpace s = k_override (sim_K w) q"
    if "q \<in> set sim_apqns" "os_ReadFile sim_os (override_path q) w = Inr s"
    using that sim_apqns_wf [of q]
    by (auto simp: sim_read_def override_path_def target_simps sim_K_fields split: if_splits)
  fix ps
  show "\<exists>qs. distinct qs \<and> set qs = set sim_apqns \<and> ps = map override_path qs"
    if "os_Glob sim_os apQueueOverrideGlob w = Inr ps"
    using that by (intro exI [of _ sim_apqns]) (auto simp: sim_glob_def sim_apqns_def)
  show "(os_Stat sim_os (Join [VFIOAPMatrixPath, u]) w = None) = (k_mdev (sim_K w) u \<noteq> None)" if "claim_uid u"
    using that by (auto simp: sim_stat_def target_simps claim_uid_plain sim_K_def)
  show "claim_uid u" if "k_mdev (sim_K w) u \<noteq> None"
    using that by (auto simp: sim_K_def split: if_splits)
  fix es
  show "\<exists>e \<in> set es. entry_is_dir e \<and> entry_name e = u"
    if "os_ReadDir sim_os VFIOAPMatrixPath w = Inr es" "k_mdev (sim_K w) u \<noteq> None"
    using that claim_uid_cases [of w u]
    by (auto simp: sim_readdir_def target_simps split: if_splits dest!: map_of_SomeD)
  fix e
  show "k_mdev (sim_K w) u = None"
    if "os_ReadDir sim_os VFIOAPMatrixPath w = Inl e" "errors_Is_NotExist e"
    using that by (auto simp: sim_readdir_def target_simps split: if_splits)
  fix m
  show "\<exists>qs. s = matrix_text qs \<and> distinct qs \<and> set qs = matrix_rows m \<and> (\<forall>q \<in> set qs. hex_apqn q)"
    if "k_mdev (sim_K w) u = Some m"
      "os_ReadFile sim_os (Join [VFIOAPMatrixPath, u, ''matrix'']) w = Inr s"
  proof -
    note h = that
    obtain as ds cs where m: "claim_uid u" "map_of (s_mdevs w) u = Some (as, ds, cs)"
      "m = \<lparr>md_adapters = set as, md_domains = set ds, md_control = set cs\<rparr>"
      using claim_uid_cases [OF h(1)] by auto
    then show ?thesis
      using h(2) rows_of_set rows_of_distinct
      by (intro exI [of _ "rows_of (as, ds, cs)"])
         (auto simp: sim_read_def target_simps claim_uid_plain plain_consts list_all_iff split: if_splits)
  qed
  show "os_ReadFile sim_os (Join [VFIOAPMatrixPath, u, ''matrix'']) w \<noteq> Inr s"
    if "plain u" "k_mdev (sim_K w) u = None"
    using that by (auto simp: sim_read_def target_simps plain_consts sim_K_def split: option.splits if_splits)
  show "plain (entry_name x)" if "os_ReadDir sim_os p w = Inr es" "x \<in> set es" for p x
    using that claim_uid_plain plain_supported_types
    by (auto simp: sim_readdir_def Let_def split: if_splits target.splits)
  fix md r w'
  show "sim_K w' = (if r = None then set_mdev u (Some empty_mdev) (sim_K w) else sim_K w)"
    if "claim_uid u" "os_WriteFile sim_os mdevCreatePath u md w = (r, w')"
    using that by (auto simp: sim_write_def target_simps sim_K_set_m empty_mdev_def split: if_splits)
  show "sim_K w' = (if r = None then set_mdev u None (sim_K w) else sim_K w)"
    if "claim_uid u" "os_WriteFile sim_os (Join [VFIOAPMatrixPath, u, ''remove'']) ''1'' md w = (r, w')"
    using that by (auto simp: sim_write_def target_simps claim_uid_plain plain_consts sim_K_remove split: if_splits)
  fix a
  show "sim_K w' = (if r = None then set_mdev u (Some (m\<lparr>md_adapters := insert a (md_adapters m)\<rparr>)) (sim_K w) else sim_K w)"
    if "k_mdev (sim_K w) u = Some m"
      "os_WriteFile sim_os (Join [VFIOAPMatrixPath, u, ''assign_adapter'']) (''0x'' @ a) md w = (r, w')"
    using that claim_uid_cases [OF that(1)] sim_assign [OF that(1), of "''assign_adapter''" a md r w']
    by (auto simp: plain_consts assign_def sim_K_set_m)
  show "sim_K w' = (if r = None then set_mdev u (Some (m\<lparr>md_domains := insert a (md_domains m)\<rparr>)) (sim_K w) else sim_K w)"
    if "k_mdev (sim_K w) u = Some m"
      "os_WriteFile sim_os (Join [VFIOAPMatrixPath, u, ''assign_domain'']) (''0x'' @ a) md w = (r, w')"
    using that claim_uid_cases [OF that(1)] sim_assign [OF that(1), of "''assign_domain''" a md r w']
    by (auto simp: plain_consts assign_def sim_K_set_m)
  show "sim_K w' = (if r = None then set_mdev u (Some (m\<lparr>md_control := insert a (md_control m)\<rparr>)) (sim_K w) else sim_K w)"
    if "k_mdev (sim_K w) u = Some m"
      "os_WriteFile sim_os (Join [VFIOAPMatrixPath, u, ''assign_control_domain'']) (''0x'' @ a) md w = (r, w')"
    using that claim_uid_cases [OF that(1)] sim_assign [OF that(1), of "''assign_control_domain''" a md r w']
    by (auto simp: plain_consts assign_def sim_K_set_m)
qed

section \<open>Nothing fails\<close>

definition calm_os :: "sim os" where
  "calm_os = masked (\<lambda>s. s\<lparr>s_fail := []\<rparr>) sim_os"

lemma sim_K_fail [simp]: "sim_K (s\<lparr>s_fail := f\<rparr>) = sim_K s"
  by (auto simp: sim_K_def q_state_def fun_eq_iff)

lemma calm_node: "ap_node calm_os sim_K (set sim_apqns)"
  unfolding calm_os_def by (rule masked_node [OF sim_node.ap_node_axioms]) simp

lemma calm_bus: "ap_bus calm_os sim_K (set sim_apqns)"
  unfolding calm_os_def by (rule masked_bus [OF sim.ap_bus_axioms]) simp

end
