(* ===== verification/Binding_Props.thy ===== *)
theory Binding_Props
  imports Ap_Sim
begin

text \<open>
  The properties of the queue switches and of the drain, for every operating system with
  the laws of \<open>Ap_Kernel\<close>, each with a run on the executable one of \<open>Ap_Sim\<close>.
\<close>

section \<open>Concrete worlds\<close>

abbreviation (input) qA :: APQN where "qA \<equiv> \<lparr>APID = ''01'', APQI = ''0002''\<rparr>"
abbreviation (input) qB :: APQN where "qB \<equiv> \<lparr>APID = ''01'', APQI = ''0003''\<rparr>"
abbreviation (input) qC :: APQN where "qC \<equiv> \<lparr>APID = ''02'', APQI = ''0002''\<rparr>"

text \<open>All queues on zcrypt, no mediated device.\<close>

definition w_fresh :: sim where
  "w_fresh = \<lparr>s_queues = [(qA, ''cex4queue'', []), (qB, ''cex4queue'', []), (qC, ''cex4queue'', [])],
     s_mdevs = [], s_files = [], s_fail = []\<rparr>"

text \<open>One live mediated device over \<open>01.0002\<close>, and \<open>01.0003\<close> orphaned by a crash.\<close>

definition w_orphan :: sim where
  "w_orphan = \<lparr>s_queues = [(qA, ''vfio_ap'', ''vfio_ap''), (qB, ''vfio_ap'', ''vfio_ap''), (qC, ''cex4queue'', [])],
     s_mdevs = [(''uid-1'', [''01''], [''0002''], [])], s_files = [], s_fail = []\<rparr>"

lemma sim_shapes:
  "on_vfio (sim_K s) q \<longleftrightarrow> fst (q_state s q) = ''vfio_ap'' \<and> TrimSpace (snd (q_state s q)) = ''vfio_ap''"
  "on_zcrypt (sim_K s) q \<longleftrightarrow> fst (q_state s q) = ''cex4queue'' \<and> TrimSpace (snd (q_state s q)) = []"
  "recoverable (sim_K s) q \<longleftrightarrow> fst (q_state s q) \<noteq> [] \<or> TrimSpace (snd (q_state s q)) = ''vfio_ap''"
  by (simp_all add: shape_defs sim_K_fields)

lemma sim_queue_members: "qA \<in> set sim_apqns" "qB \<in> set sim_apqns" "qC \<in> set sim_apqns"
  by (simp_all add: sim_apqns_def)

lemma sim_mdevs_all:
  "(\<And>x. x \<in> set (s_mdevs s) \<Longrightarrow> P (fst x)) \<Longrightarrow> k_mdev (sim_K s) u = Some m \<Longrightarrow> P u"
  by (auto simp: sim_K_def split: if_splits dest!: map_of_SomeD)

section \<open>Switching\<close>

text \<open>
  C1. Crash safety of \<open>SwitchToVFIOAP\<close>: let the driver die after any number of writes, or
  let any write fail. A queue that was bound or carried the drain's marker before still is
  one or the other afterwards, never the unbound and unmarked shape that no recovery path
  can see, and nothing but that queue has changed.
\<close>

theorem SwitchToVFIOAP_crash_safe:
  assumes "ap_bus os K Q" and "q \<in> Q" and "recoverable (K w) q"
    and "SwitchToVFIOAP (crash_os os) (APID q) (APQI q) (w, n) = (r, (w', n'))"
  shows "recoverable (K w') q \<and> differ_at {q} (K w) (K w')"
  using ap_bus.SwitchToVFIOAP_recoverable [OF ap_bus_crash [OF assms(1)] assms(2) _ assms(4)]
    ap_bus.SwitchToVFIOAP_frame [OF ap_bus_crash [OF assms(1)] assms(2,4)] assms(3)
  by simp

theorem SwitchToVFIOAP_crash_safe_witness:
  "recoverable (sim_K (fst (snd (SwitchToVFIOAP (crash_os sim_os) ''01'' ''0002'' (w_fresh, 2))))) qA
   \<and> fst (q_state (fst (snd (SwitchToVFIOAP (crash_os sim_os) ''01'' ''0002'' (w_fresh, 2)))) qA) = []"
proof -
  let ?x = "SwitchToVFIOAP (crash_os sim_os) ''01'' ''0002'' (w_fresh, 2)"
  have "recoverable (sim_K w_fresh) qA" unfolding sim_shapes by code_simp
  then have "recoverable (sim_K (fst (snd ?x))) qA"
    using SwitchToVFIOAP_crash_safe [OF sim.ap_bus_axioms sim_queue_members(1),
        of w_fresh 2 "fst ?x" "fst (snd ?x)" "snd (snd ?x)"] by simp
  moreover have "fst (q_state (fst (snd ?x)) qA) = []" by code_simp
  ultimately show ?thesis by simp
qed

text \<open>
  A successful switch to vfio-ap followed by a successful switch back restores the kernel
  state exactly: the queue is on vfio-ap in between and on zcrypt with no override after.
\<close>

theorem switch_there_and_back:
  assumes "ap_bus os K Q" and "q \<in> Q" and "on_zcrypt (K w) q"
    and "SwitchToVFIOAP os (APID q) (APQI q) w = (None, w1)"
    and "SwitchToZcrypt os (APID q) (APQI q) w1 = (None, w2)"
  shows "on_vfio (K w1) q \<and> K w2 = K w"
proof -
  have "K w1 = set_driver q ''vfio_ap'' (set_override q ''vfio_ap'' (K w))"
    using ap_bus.SwitchToVFIOAP_K [OF assms(1,2,4)] by simp
  moreover have "K w2 = set_driver q ''cex4queue'' (set_override q [] (K w1))"
    using ap_bus.SwitchToZcrypt_K [OF assms(1,2,5)] by simp
  moreover have "k_driver (K w) q = ''cex4queue''" "k_override (K w) q = []"
    using assms(3) by (simp_all add: shape_defs)
  ultimately show ?thesis
    using fun_upd_triv [of "k_driver (K w)" q] fun_upd_triv [of "k_override (K w)" q]
    by (simp add: shape_defs kstate_simps)
qed

theorem switch_there_and_back_witness:
  "sim_K (snd (SwitchToZcrypt sim_os ''01'' ''0002'' (snd (SwitchToVFIOAP sim_os ''01'' ''0002'' w_fresh))))
   = sim_K w_fresh"
proof -
  let ?w1 = "snd (SwitchToVFIOAP sim_os ''01'' ''0002'' w_fresh)"
  have "on_zcrypt (sim_K w_fresh) qA" unfolding sim_shapes by code_simp
  moreover have "fst (SwitchToVFIOAP sim_os ''01'' ''0002'' w_fresh) = None" by code_simp
  moreover have "fst (SwitchToZcrypt sim_os ''01'' ''0002'' ?w1) = None" by code_simp
  ultimately show ?thesis
    using switch_there_and_back [OF sim.ap_bus_axioms sim_queue_members(1), of w_fresh ?w1
        "snd (SwitchToZcrypt sim_os ''01'' ''0002'' ?w1)"]
    by (simp add: prod_eq_iff)
qed

text \<open>
  C28. Giving a marked queue back to zcrypt. A switch that succeeds leaves the queue on zcrypt
  with no override. One that fails, at whatever step, leaves it recoverable, with one
  exception: the write that puts the marker back after a failed probe is best effort, and
  when the kernel refuses that one too, as the last thing the switch does, the queue may be
  left without driver and marker.
\<close>

theorem SwitchToZcrypt_keeps_marker:
  assumes "ap_bus os K Q" and "q \<in> Q" and "k_override (K w) q = ''vfio_ap''"
    and "SwitchToZcrypt os (APID q) (APQI q) w = (r, w')"
  shows "(r = None \<longrightarrow> on_zcrypt (K w') q)
    \<and> (recoverable (K w') q \<or> r \<noteq> None
        \<and> (\<exists>w3 e. os_WriteFile os (driverOverridePath (APID q) (APQI q)) ''vfio_ap'' sysfsWriteMode w3 = (Some e, w')))"
  using ap_bus.SwitchToZcrypt_K [OF assms(1,2,4)] assms(3)
  by (auto simp: shape_defs kstate_simps split: if_splits)

text \<open>An operating system whose probe fails: the switch back puts the marker back.\<close>

definition marker_os :: "sim os" where
  "marker_os = denying DriversProbePath calm_os"

theorem SwitchToZcrypt_keeps_marker_witness:
  "fst (SwitchToZcrypt marker_os ''01'' ''0003'' w_orphan) \<noteq> None
   \<and> recoverable (sim_K (snd (SwitchToZcrypt marker_os ''01'' ''0003'' w_orphan))) qB"
proof -
  let ?x = "SwitchToZcrypt marker_os ''01'' ''0003'' w_orphan"
  have wf: "wf_apqn qB" using sim_apqns_wf sim_queue_members(2) by blast
  have np: "driverOverridePath ''01'' ''0003'' \<noteq> DriversProbePath"
    using target_override [OF wf] target_probe by auto
  have "k_override (sim_K w_orphan) qB = ''vfio_ap''" unfolding sim_K_fields by code_simp
  moreover have "fst (os_WriteFile marker_os (driverOverridePath ''01'' ''0003'') ''vfio_ap'' sysfsWriteMode w) = None" for w
    using np target_override [OF wf] by (simp add: marker_os_def denying_def calm_os_def masked_def sim_write_def)
  then have "\<nexists>w e w'. os_WriteFile marker_os (driverOverridePath ''01'' ''0003'') ''vfio_ap'' sysfsWriteMode w = (Some e, w')"
    by (metis fst_conv option.distinct(1))
  ultimately have "recoverable (sim_K (snd ?x)) qB"
    using SwitchToZcrypt_keeps_marker [OF denying_bus [OF calm_bus, of DriversProbePath, folded marker_os_def] sim_queue_members(2), of w_orphan "fst ?x" "snd ?x"]
    by simp
  moreover have "fst ?x \<noteq> None" by code_simp
  ultimately show ?thesis by simp
qed

section \<open>Draining\<close>

context ap_node
begin

lemma drain_frame:
  assumes "\<And>u m. k_mdev (K w) u = Some m \<Longrightarrow> \<exists>qs. ReadMatrix os u w = Inr qs"
    and "DrainOrphanedVFIOAP os w = (r, w')"
  shows "differ_at {q \<in> Q. \<not> claimed (K w) q \<and> k_override (K w) q = ''vfio_ap''} (K w) (K w')"
proof (cases r)
  case (Some e)
  then have "w' = w" using assms(2) by (auto simp: DrainOrphanedVFIOAP_def split: sum.splits)
  then show ?thesis by simp
next
  case None
  then obtain live ps where live: "liveAPQNs os w = Inr live"
    and ps: "os_Glob os apQueueOverrideGlob w = Inr ps" and w': "w' = drain_matches os live ps w"
    using assms(2) by (auto simp: DrainOrphanedVFIOAP_def split: sum.splits)
  from override_glob [OF ps] obtain qs
    where qs: "distinct qs" "set qs = Q" "ps = map override_path qs" by blast
  have "differ_at {q \<in> set qs. q \<notin> set live \<and> k_override (K w) q = ''vfio_ap''} (K w) (K w')"
    unfolding w' qs(3) using qs by (intro drain_matches_frame) auto
  then show ?thesis
    using liveAPQNs_complete [OF live _ assms(1)] qs(2)
    by (elim differ_at_mono) auto
qed

lemma drain_returns_marked:
  assumes "\<And>q. q \<in> Q \<Longrightarrow> drainable os q" and "DrainOrphanedVFIOAP os w = (None, w')"
    and "q \<in> Q" and "\<not> claimed (K w) q" and "k_override (K w) q = ''vfio_ap''"
  shows "on_zcrypt (K w') q"
proof -
  obtain live ps where live: "liveAPQNs os w = Inr live"
    and ps: "os_Glob os apQueueOverrideGlob w = Inr ps" and w': "w' = drain_matches os live ps w"
    using assms(2) by (auto simp: DrainOrphanedVFIOAP_def split: sum.splits)
  from override_glob [OF ps] obtain qs
    where qs: "distinct qs" "set qs = Q" "ps = map override_path qs" by blast
  have "q \<notin> set live" using liveAPQNs_sound [OF live] assms(3,4) by blast
  then show ?thesis
    unfolding w' qs(3) using qs assms(1,3,5)
    by (intro drain_matches_complete) auto
qed

end

text \<open>
  C12. The drain never touches a queue a mediated device claims, nor an unmarked one: as long
  as every mediated device's matrix can be read, the only queues
  it can change are those whose override is \<open>vfio_ap\<close> and that no mediated device claims,
  whatever fails on the way.
\<close>

theorem DrainOrphanedVFIOAP_safe:
  assumes "ap_node os K Q"
    and "\<And>u m. k_mdev (K w) u = Some m \<Longrightarrow> \<exists>qs. ReadMatrix os u w = Inr qs"
    and "DrainOrphanedVFIOAP os w = (r, w')"
  shows "differ_at {q \<in> Q. \<not> claimed (K w) q \<and> k_override (K w) q = ''vfio_ap''} (K w) (K w')"
  by (rule ap_node.drain_frame [OF assms])

lemma orphan_mdevs:
  assumes "k_mdev (sim_K w_orphan) u = Some m"
  shows "\<exists>qs. ReadMatrix sim_os u w_orphan = Inr qs"
proof -
  have "u = ''uid-1''"
    using assms by (auto simp: sim_K_def w_orphan_def split: if_splits)
  moreover have "ReadMatrix sim_os ''uid-1'' w_orphan = Inr [qA]" by code_simp
  ultimately show ?thesis by simp
qed

theorem DrainOrphanedVFIOAP_safe_witness:
  "on_vfio (sim_K (snd (DrainOrphanedVFIOAP sim_os w_orphan))) qA
   \<and> on_zcrypt (sim_K (snd (DrainOrphanedVFIOAP sim_os w_orphan))) qC"
proof -
  let ?x = "DrainOrphanedVFIOAP sim_os w_orphan"
  have d: "differ_at {q \<in> set sim_apqns. \<not> claimed (sim_K w_orphan) q \<and> k_override (sim_K w_orphan) q = ''vfio_ap''}
     (sim_K w_orphan) (sim_K (snd ?x))"
    using DrainOrphanedVFIOAP_safe [OF sim_node.ap_node_axioms, where w = w_orphan and r = "fst ?x" and w' = "snd ?x"] orphan_mdevs by simp
  have "claim_uid ''uid-1''" by code_simp
  then have "claimed (sim_K w_orphan) qA"
    by (auto simp: claimed_def sim_K_def w_orphan_def matrix_of_def)
  moreover have "on_vfio (sim_K w_orphan) qA" "on_zcrypt (sim_K w_orphan) qC"
    unfolding sim_shapes by code_simp+
  moreover from this have "k_override (sim_K w_orphan) qC \<noteq> ''vfio_ap''" by (simp add: shape_defs)
  ultimately show ?thesis using d unfolding differ_at_def shape_defs by simp
qed

text \<open>
  C13. The drain is complete: where the kernel lets overrides be read and queues be given back,
  every marked queue that no mediated device claims is on zcrypt with no override once the
  drain has run.
\<close>

theorem DrainOrphanedVFIOAP_complete:
  assumes "ap_node os K Q" and "\<And>q. q \<in> Q \<Longrightarrow> drainable os q"
    and "DrainOrphanedVFIOAP os w = (None, w')"
    and "q \<in> Q" and "\<not> claimed (K w) q" and "k_override (K w) q = ''vfio_ap''"
  shows "on_zcrypt (K w') q"
  by (rule ap_node.drain_returns_marked [OF assms])

lemma calm_drainable: "q \<in> set sim_apqns \<Longrightarrow> drainable calm_os q"
  unfolding drainable_def
  using sim_apqns_wf [of q] queue_name_def [of q, symmetric]
  by (auto simp: SwitchToZcrypt_def unbindQueue_def calm_os_def sim_write_def sim_read_def
      override_path_def target_simps apqn_of_name Let_def split: prod.splits if_splits)

theorem DrainOrphanedVFIOAP_complete_witness:
  "fst (DrainOrphanedVFIOAP calm_os w_orphan) = None
   \<and> on_zcrypt (sim_K (snd (DrainOrphanedVFIOAP calm_os w_orphan))) qB"
proof -
  let ?x = "DrainOrphanedVFIOAP calm_os w_orphan"
  have ok: "fst ?x = None" by code_simp
  have "k_override (sim_K w_orphan) qB = ''vfio_ap''" unfolding sim_K_fields by code_simp
  moreover have "\<not> claimed (sim_K w_orphan) qB"
    by (auto simp: claimed_def sim_K_def w_orphan_def matrix_of_def split: if_splits)
  ultimately have "on_zcrypt (sim_K (snd ?x)) qB"
    using DrainOrphanedVFIOAP_complete [OF calm_node calm_drainable, of w_orphan "snd ?x" qB]
      ok sim_queue_members(2) by (simp add: prod_eq_iff)
  with ok show ?thesis by simp
qed

text \<open>
  The limit of the drain's safety: a mediated device whose matrix exists but cannot be read for a moment
  is left out of the live set, and the drain, which reports no error, takes its queue away
  from it.
\<close>

definition w_unreadable :: sim where
  "w_unreadable = w_orphan\<lparr>s_fail := [Join [VFIOAPMatrixPath, ''uid-1'', ''matrix'']]\<rparr>"

theorem DrainOrphanedVFIOAP_unreadable_matrix:
  "claimed (sim_K w_unreadable) qA \<and> on_vfio (sim_K w_unreadable) qA
   \<and> fst (DrainOrphanedVFIOAP sim_os w_unreadable) = None
   \<and> on_zcrypt (sim_K (snd (DrainOrphanedVFIOAP sim_os w_unreadable))) qA"
proof -
  have "claim_uid ''uid-1''" by code_simp
  then have "claimed (sim_K w_unreadable) qA"
    by (auto simp: claimed_def sim_K_def w_orphan_def w_unreadable_def matrix_of_def)
  moreover have "on_vfio (sim_K w_unreadable) qA" unfolding sim_shapes by code_simp
  moreover have "fst (DrainOrphanedVFIOAP sim_os w_unreadable) = None" by code_simp
  moreover have "on_zcrypt (sim_K (snd (DrainOrphanedVFIOAP sim_os w_unreadable))) qA"
    unfolding sim_shapes by code_simp
  ultimately show ?thesis by simp
qed

end
