(* ===== verification/Resource_Api.thy ===== *)
theory Resource_Api
  imports Go_Prelude
begin

text \<open>
  The \<open>resource.k8s.io/v1\<close> types the driver exchanges with the API server and the kubelet
  (\<open>vendor/k8s.io/api/resource/v1/types.go\<close>), with the fields the driver reads or writes.
  A pointer field is an option, a map an association list. Record fields carry a short
  prefix where two Go structs use the same field name.
\<close>

section \<open>Devices\<close>

record DeviceAttribute =
  StringValue :: "string option"
  IntValue :: "int option"

record Device =
  dev_Name :: string
  dev_Attributes :: "DeviceAttribute gomap"

section \<open>Claims\<close>

text \<open>\<open>req_Exactly\<close> is the \<open>DeviceClassName\<close> of the request's \<open>Exactly\<close> clause, if it has one.\<close>

record DeviceRequest =
  req_Name :: string
  req_Exactly :: "string option"

record DeviceRequestAllocationResult =
  res_Request :: string
  res_Driver :: string
  res_Pool :: string
  res_Device :: string

record OpaqueDeviceConfiguration =
  opq_Driver :: string
  opq_Parameters :: string

datatype AllocationConfigSource = FromClass | FromClaim

record DeviceAllocationConfiguration =
  cfg_Source :: AllocationConfigSource
  cfg_Requests :: "string list"
  cfg_Opaque :: "OpaqueDeviceConfiguration option"

record AllocationResult =
  alloc_Results :: "DeviceRequestAllocationResult list"
  alloc_Config :: "DeviceAllocationConfiguration list"

record ResourceClaim =
  claim_Name :: string
  claim_Namespace :: string
  claim_UID :: string
  claim_Annotations :: "string gomap"
  claim_Requests :: "DeviceRequest list"
  claim_Allocation :: "AllocationResult option"

end
