(* ===== verification/Apscanner.thy ===== *)
theory Apscanner
  imports Sysfs Resource_Api
begin

text \<open>
  \<open>internal/apscanner/scanner.go\<close>: the two-level scan of the AP bus, the status values it
  derives, and the tracker that bridges queues whose master key patterns cannot be read.

  The tracker is threaded through every call that mutates it, also on the error paths: a
  failed cycle keeps what it had already recorded. Every attribute is read from the
  operating system parameter, which is free to list a directory entry and then report its
  attributes missing, so a card that vanishes in the middle of a scan is covered.
\<close>

section \<open>Constants and types\<close>

definition CardStatusConfigured :: string where "CardStatusConfigured = ''configured''"
definition CardStatusDeconfig :: string where "CardStatusDeconfig = ''deconfig''"
definition CardStatusChkstop :: string where "CardStatusChkstop = ''chkstop''"
definition CardStatusOffline :: string where "CardStatusOffline = ''offline''"
definition CardStatusUnknown :: string where "CardStatusUnknown = ''unknown''"

definition QueueStatusOnline :: string where "QueueStatusOnline = ''online''"
definition QueueStatusOffline :: string where "QueueStatusOffline = ''offline''"
definition QueueStatusBoundVFIO :: string where "QueueStatusBoundVFIO = ''bound-vfio''"
definition QueueStatusUnbound :: string where "QueueStatusUnbound = ''unbound''"
definition QueueStatusUnknown :: string where "QueueStatusUnknown = ''unknown''"

definition MKVPStateKnown :: string where "MKVPStateKnown = ''known''"
definition MKVPStateCached :: string where "MKVPStateCached = ''cached''"
definition MKVPStateUnknown :: string where "MKVPStateUnknown = ''unknown''"

definition MKVPRetryBudget :: int where "MKVPRetryBudget = 3"

definition zcryptDriver :: string where "zcryptDriver = ''cex4queue''"
definition vfioAPDriver :: string where "vfioAPDriver = ''vfio_ap''"

lemmas status_defs = CardStatusConfigured_def CardStatusDeconfig_def CardStatusChkstop_def
  CardStatusOffline_def CardStatusUnknown_def QueueStatusOnline_def QueueStatusOffline_def
  QueueStatusBoundVFIO_def QueueStatusUnbound_def QueueStatusUnknown_def

lemmas mkvp_state_defs = MKVPStateKnown_def MKVPStateCached_def MKVPStateUnknown_def

text \<open>A nil \<open>cache\<close> is \<open>None\<close>.\<close>

record queueMKVPState =
  cache :: "string gomap option"
  failCount :: int

record MKVPTracker =
  queues :: "queueMKVPState gomap"
  firstScanDone :: bool

definition NewMKVPTracker :: MKVPTracker where
  "NewMKVPTracker = \<lparr>queues = [], firstScanDone = False\<rparr>"

definition scanDetailLevel :: int where "scanDetailLevel = 4"

definition detailLevel :: "MKVPTracker \<Rightarrow> int" where
  "detailLevel t = (if firstScanDone t then scanDetailLevel else 0)"

record APQueue =
  q_APID :: string
  q_APQI :: string
  q_Type :: string
  q_Generation :: int
  q_CardStatus :: string
  q_QueueStatus :: string
  q_Driver :: string
  q_MKVPs :: "string gomap"
  q_MKVPState :: string

text \<open>The two directory name patterns, as their matching functions; \<open>None\<close> is no match.\<close>

definition cardPattern :: "string \<Rightarrow> string option" where
  "cardPattern name =
     (if length name = 6 \<and> HasPrefix name ''card'' \<and> list_all is_lhex (drop 4 name)
      then Some (drop 4 name) else None)"

definition queuePattern :: "string \<Rightarrow> (string \<times> string) option" where
  "queuePattern name =
     (if length name = 7 \<and> list_all is_lhex (take 2 name) \<and> name ! 2 = CHR ''.'' \<and> list_all is_lhex (drop 3 name)
      then Some (take 2 name, drop 3 name) else None)"

section \<open>Card and queue status\<close>

definition readFailed :: "goerr \<Rightarrow> bool" where
  "readFailed err \<longleftrightarrow> errors_As_PathError err \<and> \<not> errors_Is_NotExist err"

definition readCardStatus :: "'w os \<Rightarrow> string \<Rightarrow> 'w \<Rightarrow> string" where
  "readCardStatus os cardPath w =
     (case ReadFile os (Join [cardPath, ''config'']) w of
        Inl err \<Rightarrow> CardStatusUnknown
      | Inr config \<Rightarrow>
          (case ReadFile os (Join [cardPath, ''chkstop'']) w of
             Inl err \<Rightarrow> CardStatusUnknown
           | Inr chkstop \<Rightarrow>
               if TrimSpace chkstop = ''1'' then CardStatusChkstop
               else if TrimSpace config = ''0'' then CardStatusDeconfig
               else if TrimSpace config = ''1'' then
                 (case ReadFile os (Join [cardPath, ''online'']) w of
                    Inl err \<Rightarrow> if readFailed err then CardStatusUnknown else CardStatusConfigured
                  | Inr online \<Rightarrow>
                      if TrimSpace online = ''1'' then CardStatusConfigured
                      else if TrimSpace online = ''0'' then CardStatusOffline
                      else CardStatusUnknown)
               else CardStatusUnknown))"

definition readQueueStatus :: "'w os \<Rightarrow> string \<Rightarrow> string \<Rightarrow> 'w \<Rightarrow> string" where
  "readQueueStatus os queuePath driver w =
     (if driver = [] then QueueStatusUnbound
      else if driver = vfioAPDriver then QueueStatusBoundVFIO
      else if driver = zcryptDriver then
        (case ReadFile os (Join [queuePath, ''online'']) w of
           Inl err \<Rightarrow> QueueStatusUnknown
         | Inr online \<Rightarrow>
             if TrimSpace online = ''1'' then QueueStatusOnline
             else if TrimSpace online = ''0'' then QueueStatusOffline
             else QueueStatusUnknown)
      else QueueStatusUnknown)"

definition readQueueDriver :: "'w os \<Rightarrow> string \<Rightarrow> 'w \<Rightarrow> string" where
  "readQueueDriver os queuePath w =
     (case os_Readlink os (Join [queuePath, ''driver'']) w of
        Inl err \<Rightarrow> []
      | Inr target \<Rightarrow> Base target)"

definition fileExists :: "'w os \<Rightarrow> string \<Rightarrow> 'w \<Rightarrow> bool" where
  "fileExists os path w \<longleftrightarrow> os_Stat os path w = None"

section \<open>Master key verification patterns\<close>

text \<open>\<open>copyMKVPs\<close> copies a map; a value has no identity in the model, so the copy is the map.\<close>

definition copyMKVPs :: "string gomap \<Rightarrow> string gomap" where
  "copyMKVPs src = fold (\<lambda>(k, v) dst. AList.update k v dst) src []"

text \<open>
  \<open>readZcryptMKVPs\<close> mutates the queue's state through a pointer; here it returns the new
  state, which \<open>Evaluate\<close> stores.
\<close>

definition readZcryptMKVPs ::
  "'w os \<Rightarrow> queueMKVPState \<Rightarrow> string \<Rightarrow> string \<Rightarrow> 'w \<Rightarrow> (string gomap \<times> string) \<times> queueMKVPState" where
  "readZcryptMKVPs os state queuePath cardType w =
     (case ParseMKVPs os queuePath cardType w of
        Inl err \<Rightarrow>
          (case cache state of
             None \<Rightarrow> ((UnknownMKVPs cardType, MKVPStateUnknown), state)
           | Some c \<Rightarrow>
               (let state' = state\<lparr>failCount := failCount state + 1\<rparr> in
                if failCount state' \<le> MKVPRetryBudget
                then ((copyMKVPs c, MKVPStateCached), state')
                else ((UnknownMKVPs cardType, MKVPStateUnknown), state'\<lparr>cache := None\<rparr>)))
      | Inr mkvps \<Rightarrow>
          ((mkvps, MKVPStateKnown), state\<lparr>cache := Some (copyMKVPs mkvps), failCount := 0\<rparr>))"

definition Evaluate ::
  "'w os \<Rightarrow> string \<Rightarrow> string \<Rightarrow> string \<Rightarrow> string \<Rightarrow> 'w \<Rightarrow> MKVPTracker \<Rightarrow> (string gomap \<times> string) \<times> MKVPTracker" where
  "Evaluate os apqn driver queuePath cardType w t =
     (if cardType \<noteq> ''cca'' \<and> cardType \<noteq> ''ep11'' then (([], MKVPStateKnown), t)
      else
        (let state = (case map_of (queues t) apqn of None \<Rightarrow> \<lparr>cache = None, failCount = 0\<rparr> | Some s \<Rightarrow> s);
             t1 = t\<lparr>queues := AList.update apqn state (queues t)\<rparr>;
             mkvpPath = Join [queuePath, ''mkvps'']
         in if driver = zcryptDriver \<and> fileExists os mkvpPath w then
              (case readZcryptMKVPs os state queuePath cardType w of
                 (r, state') \<Rightarrow> (r, t1\<lparr>queues := AList.update apqn state' (queues t1)\<rparr>))
            else
              (case cache state of
                 Some c \<Rightarrow> ((copyMKVPs c, MKVPStateCached), t1)
               | None \<Rightarrow> ((UnknownMKVPs cardType, MKVPStateUnknown), t1))))"

definition parseAPQueueDir ::
  "'w os \<Rightarrow> string \<Rightarrow> string \<Rightarrow> string \<Rightarrow> string \<Rightarrow> int \<Rightarrow> string \<Rightarrow> 'w \<Rightarrow> MKVPTracker \<Rightarrow> APQueue \<times> MKVPTracker" where
  "parseAPQueueDir os path apid apqi cardType generation cardStatus w t =
     (let driver = readQueueDriver os path w;
          apqn = apid @ ''.'' @ apqi
      in case Evaluate os apqn driver path cardType w t of
           ((mkvps, mkvpState), t') \<Rightarrow>
             (\<lparr>q_APID = apid, q_APQI = apqi, q_Type = cardType, q_Generation = generation,
               q_CardStatus = cardStatus, q_QueueStatus = readQueueStatus os path driver w,
               q_Driver = driver, q_MKVPs = mkvps, q_MKVPState = mkvpState\<rparr>, t'))"

text \<open>The slice \<open>typeContent[3 : len-1]\<close> is in range because the length is at least 5.\<close>

definition parseCardType :: "'w os \<Rightarrow> string \<Rightarrow> 'w \<Rightarrow> goerr + string \<times> int" where
  "parseCardType os cardPath w =
     (case ReadFile os (Join [cardPath, ''type'']) w of
        Inl err \<Rightarrow> Inl (Wrapf ''read card type: %w'' [] err)
      | Inr content \<Rightarrow>
          (let typeContent = TrimSpace content in
           if length typeContent < 5 \<or> \<not> HasPrefix typeContent ''CEX''
           then Inl (Errorf ''unexpected card type format: %q'' [FStr typeContent])
           else
             (case Atoi (drop 3 (butlast typeContent)) of
                Inl err \<Rightarrow> Inl (Wrapf ''parse generation from %q: %w'' [FStr typeContent] err)
              | Inr gen \<Rightarrow>
                  (let typeChar = last typeContent in
                   if typeChar = CHR ''C'' then Inr (''cca'', gen)
                   else if typeChar = CHR ''P'' then Inr (''ep11'', gen)
                   else if typeChar = CHR ''A'' then Inr (''accel'', gen)
                   else Inl (Errorf ''unknown card type character: %q'' [FStr [typeChar]])))))"

section \<open>Devices\<close>

definition SetStringAttr :: "string \<Rightarrow> string \<Rightarrow> DeviceAttribute gomap \<Rightarrow> DeviceAttribute gomap" where
  "SetStringAttr name value attrs = AList.update name \<lparr>StringValue = Some value, IntValue = None\<rparr> attrs"

definition SetIntAttr :: "string \<Rightarrow> int \<Rightarrow> DeviceAttribute gomap \<Rightarrow> DeviceAttribute gomap" where
  "SetIntAttr name value attrs = AList.update name \<lparr>StringValue = None, IntValue = Some value\<rparr> attrs"

definition QueueToDevice :: "APQueue \<Rightarrow> string \<Rightarrow> Device" where
  "QueueToDevice queue machineID =
     (let name = machineID @ ''-'' @ q_APID queue @ ''-'' @ q_APQI queue;
          attrs0 = [];
          attrs1 = SetStringAttr ''cex.ibm.com/machineid'' machineID attrs0;
          attrs2 = SetStringAttr ''cex.ibm.com/apid'' (q_APID queue) attrs1;
          attrs3 = SetStringAttr ''cex.ibm.com/apqi'' (q_APQI queue) attrs2;
          attrs4 = SetStringAttr ''cex.ibm.com/type'' (q_Type queue) attrs3;
          attrs5 = SetIntAttr ''cex.ibm.com/generation'' (q_Generation queue) attrs4;
          attrs6 = SetStringAttr ''cex.ibm.com/driver'' (q_Driver queue) attrs5;
          attrs7 = SetStringAttr ''cex.ibm.com/card_status'' (q_CardStatus queue) attrs6;
          attrs8 = SetStringAttr ''cex.ibm.com/queue_status'' (q_QueueStatus queue) attrs7;
          attrs9 = (if q_MKVPState queue \<noteq> [] then SetStringAttr ''cex.ibm.com/mkvp_state'' (q_MKVPState queue) attrs8
                    else attrs8)
      in \<lparr>dev_Name = name,
          dev_Attributes = fold (\<lambda>(key, value) attrs. SetStringAttr key value attrs) (q_MKVPs queue) attrs9\<rparr>)"

section \<open>The scan\<close>

definition scanQueue ::
  "'w os \<Rightarrow> string \<Rightarrow> dir_entry \<Rightarrow> string \<Rightarrow> int \<Rightarrow> string \<Rightarrow> string \<Rightarrow> 'w \<Rightarrow> MKVPTracker \<Rightarrow> Device option \<times> MKVPTracker" where
  "scanQueue os cardPath queueEntry cardType generation cardStatus machineID w t =
     (if \<not> entry_is_dir queueEntry then (None, t)
      else (case queuePattern (entry_name queueEntry) of
              None \<Rightarrow> (None, t)
            | Some (apid, apqi) \<Rightarrow>
                (let queuePath = Join [cardPath, entry_name queueEntry] in
                 case parseAPQueueDir os queuePath apid apqi cardType generation cardStatus w t of
                   (queue, t') \<Rightarrow> (Some (QueueToDevice queue machineID), t'))))"

text \<open>The loop over a card's queue directories.\<close>

fun scan_queues ::
  "'w os \<Rightarrow> string \<Rightarrow> dir_entry list \<Rightarrow> string \<Rightarrow> int \<Rightarrow> string \<Rightarrow> string \<Rightarrow> 'w \<Rightarrow> MKVPTracker \<Rightarrow> Device list \<times> MKVPTracker" where
  "scan_queues os cardPath [] cardType generation cardStatus machineID w t = ([], t)"
| "scan_queues os cardPath (e # es) cardType generation cardStatus machineID w t =
     (case scanQueue os cardPath e cardType generation cardStatus machineID w t of
        (None, t1) \<Rightarrow> scan_queues os cardPath es cardType generation cardStatus machineID w t1
      | (Some d, t1) \<Rightarrow>
          (case scan_queues os cardPath es cardType generation cardStatus machineID w t1 of
             (ds, t2) \<Rightarrow> (d # ds, t2)))"

text \<open>\<open>Inr None\<close> is the Go result with \<open>ok\<close> false.\<close>

definition scanCard ::
  "'w os \<Rightarrow> dir_entry \<Rightarrow> string \<Rightarrow> 'w \<Rightarrow> MKVPTracker \<Rightarrow> (goerr + Device list option) \<times> MKVPTracker" where
  "scanCard os cardEntry machineID w t =
     (if \<not> entry_is_dir cardEntry \<or> cardPattern (entry_name cardEntry) = None then (Inr None, t)
      else
        (let cardPath = Join [APDevicesPath, entry_name cardEntry] in
         case parseCardType os cardPath w of
           Inl err \<Rightarrow>
             if readFailed err
             then (Inl (Wrapf ''parse card type of %s: %w'' [FStr (entry_name cardEntry)] err), t)
             else (Inr None, t)
         | Inr (cardType, generation) \<Rightarrow>
             (case os_ReadDir os cardPath w of
                Inl err \<Rightarrow>
                  if readFailed err
                  then (Inl (Wrapf ''read card %s: %w'' [FStr (entry_name cardEntry)] err), t)
                  else (Inr None, t)
              | Inr queueEntries \<Rightarrow>
                  (let cardStatus = readCardStatus os cardPath w in
                   case scan_queues os cardPath queueEntries cardType generation cardStatus machineID w t of
                     (devices, t') \<Rightarrow> (Inr (Some devices), t')))))"

text \<open>The loop over the card directories; the accumulator is \<open>devicesByCard\<close>.\<close>

fun scan_cards ::
  "'w os \<Rightarrow> dir_entry list \<Rightarrow> string \<Rightarrow> 'w \<Rightarrow> Device list gomap \<Rightarrow> MKVPTracker \<Rightarrow> (goerr + Device list gomap) \<times> MKVPTracker" where
  "scan_cards os [] machineID w acc t = (Inr acc, t)"
| "scan_cards os (e # es) machineID w acc t =
     (case scanCard os e machineID w t of
        (Inl err, t1) \<Rightarrow> (Inl err, t1)
      | (Inr None, t1) \<Rightarrow> scan_cards os es machineID w acc t1
      | (Inr (Some devices), t1) \<Rightarrow>
          scan_cards os es machineID w
            (if devices \<noteq> [] then AList.update (entry_name e) devices acc else acc) t1)"

text \<open>
  The deferred function sets \<open>firstScanDone\<close> on every path that returns no error, the one
  where the AP bus directory is missing included; there Go returns a nil map, read by the
  callers as an empty one.
\<close>

definition Scan :: "'w os \<Rightarrow> string \<Rightarrow> 'w \<Rightarrow> MKVPTracker \<Rightarrow> (goerr + Device list gomap) \<times> MKVPTracker" where
  "Scan os machineID w tracker =
     (case os_ReadDir os APDevicesPath w of
        Inl err \<Rightarrow>
          if os_IsNotExist err then (Inr [], tracker\<lparr>firstScanDone := True\<rparr>)
          else (Inl (Wrapf ''read AP devices directory: %w'' [] err), tracker)
      | Inr cardEntries \<Rightarrow>
          (case scan_cards os cardEntries machineID w [] tracker of
             (Inl err, t) \<Rightarrow> (Inl err, t)
           | (Inr devicesByCard, t) \<Rightarrow> (Inr devicesByCard, t\<lparr>firstScanDone := True\<rparr>)))"

end
