(* ===== verification/Apscanner_Props.thy ===== *)
theory Apscanner_Props
  imports Apscanner Mdev
begin

text \<open>
  What the scanner promises: the tracker publishes exactly what the history of a queue's
  reads says (the last good read, as long as the retry budget lasts), the scan lists every
  queue of every readable card and fails rather than drop one on an I/O error, and every
  device it returns names its queue in the way the rest of the driver relies on.
\<close>

section \<open>The tracker against a history of reads\<close>

text \<open>What one scan cycle sees of a queue that has master keys.\<close>

datatype mkvp_obs = ReadOK "string gomap" | ReadError | NoFile

definition keyed :: "string \<Rightarrow> bool" where
  "keyed cardType \<longleftrightarrow> cardType = ''cca'' \<or> cardType = ''ep11''"

definition observe :: "'w os \<Rightarrow> string \<Rightarrow> string \<Rightarrow> string \<Rightarrow> 'w \<Rightarrow> mkvp_obs" where
  "observe os driver queuePath cardType w =
     (if driver = zcryptDriver \<and> fileExists os (Join [queuePath, ''mkvps'']) w
      then (case ParseMKVPs os queuePath cardType w of Inl err \<Rightarrow> ReadError | Inr m \<Rightarrow> ReadOK m)
      else NoFile)"

text \<open>Histories run from the newest observation to the oldest.\<close>

fun last_ok :: "mkvp_obs list \<Rightarrow> string gomap option" where
  "last_ok [] = None"
| "last_ok (ReadOK m # h) = Some m"
| "last_ok (_ # h) = last_ok h"

fun fails_since :: "mkvp_obs list \<Rightarrow> nat" where
  "fails_since [] = 0"
| "fails_since (ReadOK m # h) = 0"
| "fails_since (ReadError # h) = Suc (fails_since h)"
| "fails_since (NoFile # h) = fails_since h"

fun is_read_ok :: "mkvp_obs list \<Rightarrow> bool" where
  "is_read_ok (ReadOK m # h) \<longleftrightarrow> True"
| "is_read_ok _ \<longleftrightarrow> False"

definition published :: "string \<Rightarrow> mkvp_obs list \<Rightarrow> string gomap \<times> string" where
  "published cardType h =
     (case last_ok h of
        Some m \<Rightarrow> if fails_since h \<le> 3 then (m, if is_read_ok h then ''known'' else ''cached'')
                  else (UnknownMKVPs cardType, ''unknown'')
      | None \<Rightarrow> (UnknownMKVPs cardType, ''unknown''))"

definition state_of :: "mkvp_obs list \<Rightarrow> queueMKVPState" where
  "state_of h = \<lparr>cache = (if fails_since h \<le> 3 then last_ok h else None),
                 failCount = (if last_ok h = None then 0 else int (min (fails_since h) 4))\<rparr>"

text \<open>One call of \<open>Evaluate\<close>, and the tracker and a queue's history after a list of calls.\<close>

record 'w mkvp_call =
  c_apqn :: string
  c_driver :: string
  c_path :: string
  c_type :: string
  c_world :: 'w

definition eval_call :: "'w os \<Rightarrow> 'w mkvp_call \<Rightarrow> MKVPTracker \<Rightarrow> (string gomap \<times> string) \<times> MKVPTracker" where
  "eval_call os c = Evaluate os (c_apqn c) (c_driver c) (c_path c) (c_type c) (c_world c)"

definition run_calls :: "'w os \<Rightarrow> 'w mkvp_call list \<Rightarrow> MKVPTracker" where
  "run_calls os cs = fold (\<lambda>c t. snd (eval_call os c t)) cs NewMKVPTracker"

definition history :: "'w os \<Rightarrow> string \<Rightarrow> 'w mkvp_call list \<Rightarrow> mkvp_obs list" where
  "history os apqn cs =
     rev (map (\<lambda>c. observe os (c_driver c) (c_path c) (c_type c) (c_world c))
            (filter (\<lambda>c. c_apqn c = apqn \<and> keyed (c_type c)) cs))"

lemma copyMKVPs_id: "distinct (map fst m) \<Longrightarrow> copyMKVPs m = m"
  using fold_update_copy [of "[]" m] by (simp add: copyMKVPs_def)

lemma parse_mkvp_lines_distinct:
  "parse_mkvp_lines cardType p lines m = Inr m' \<Longrightarrow> distinct (map fst m) \<Longrightarrow> distinct (map fst m')"
proof (induction lines arbitrary: m)
  case (Cons line lines)
  show ?case
  proof (cases "list_ex (tainted cardType) (line # lines)")
    case True
    then show ?thesis using parse_mkvp_lines_tainted [of cardType "line # lines" p m] Cons.prems by fastforce
  next
    case False
    then show ?thesis using parse_mkvp_lines_ok [OF False, of p m] Cons.prems fold_update_distinct by fastforce
  qed
qed simp

lemma ParseMKVPs_distinct: "ParseMKVPs os p cardType w = Inr m \<Longrightarrow> distinct (map fst m)"
  by (auto simp: ParseMKVPs_def Let_def split: sum.splits dest: parse_mkvp_lines_distinct)

lemma observe_distinct: "observe os d p ct w = ReadOK m \<Longrightarrow> distinct (map fst m)"
  by (auto simp: observe_def split: if_splits sum.splits dest: ParseMKVPs_distinct)

lemma last_ok_distinct:
  "last_ok (history os apqn cs) = Some m \<Longrightarrow> distinct (map fst m)"
proof -
  have "last_ok h = Some m \<Longrightarrow> ReadOK m \<in> set h" for h
    by (induction h rule: last_ok.induct) auto
  moreover have "ReadOK m \<in> set (history os apqn cs) \<Longrightarrow> distinct (map fst m)"
    by (auto simp: history_def dest: observe_distinct [OF sym])
  ultimately show "last_ok (history os apqn cs) = Some m \<Longrightarrow> distinct (map fst m)"
    by blast
qed

lemma history_snoc:
  "history os apqn (cs @ [c]) =
     (if c_apqn c = apqn \<and> keyed (c_type c)
      then observe os (c_driver c) (c_path c) (c_type c) (c_world c) # history os apqn cs
      else history os apqn cs)"
  by (simp add: history_def)

lemma run_calls_snoc: "run_calls os (cs @ [c]) = snd (eval_call os c (run_calls os cs))"
  by (simp add: run_calls_def)

text \<open>The state of one queue before and after one call.\<close>

definition tracked :: "MKVPTracker \<Rightarrow> string \<Rightarrow> queueMKVPState" where
  "tracked t apqn = (case map_of (queues t) apqn of None \<Rightarrow> \<lparr>cache = None, failCount = 0\<rparr> | Some s \<Rightarrow> s)"

lemma Evaluate_other: "apqn' \<noteq> apqn \<Longrightarrow> tracked (snd (Evaluate os apqn d p ct w t)) apqn' = tracked t apqn'"
  by (auto simp: Evaluate_def tracked_def Let_def split: option.splits prod.splits)

lemma Evaluate_unkeyed: "\<not> keyed ct \<Longrightarrow> Evaluate os apqn d p ct w t = (([], ''known''), t)"
  by (simp add: Evaluate_def keyed_def mkvp_state_defs)

lemma Evaluate_step:
  assumes "keyed ct" and "tracked t apqn = state_of h"
    and "\<And>m. last_ok h = Some m \<Longrightarrow> distinct (map fst m)"
  shows "tracked (snd (Evaluate os apqn d p ct w t)) apqn = state_of (observe os d p ct w # h)
       \<and> fst (Evaluate os apqn d p ct w t) = published ct (observe os d p ct w # h)"
proof (cases "d = zcryptDriver \<and> fileExists os (Join [p, ''mkvps'']) w")
  case False
  then have "observe os d p ct w = NoFile" by (auto simp: observe_def)
  then show ?thesis
    using False assms copyMKVPs_id
    by (auto simp: Evaluate_def tracked_def [symmetric] keyed_def Let_def state_of_def published_def
        mkvp_state_defs split: option.splits) (auto simp: tracked_def)
next
  case True
  have "tracked (snd (Evaluate os apqn d p ct w t)) apqn = snd (readZcryptMKVPs os (state_of h) p ct w)"
    "fst (Evaluate os apqn d p ct w t) = fst (readZcryptMKVPs os (state_of h) p ct w)"
    using True assms(1,2)
    by (auto simp: Evaluate_def tracked_def [symmetric] keyed_def Let_def split: prod.splits)
       (auto simp: tracked_def)
  moreover have "readZcryptMKVPs os (state_of h) p ct w
      = (published ct (observe os d p ct w # h), state_of (observe os d p ct w # h))"
  proof (cases "ParseMKVPs os p ct w")
    case (Inl e)
    then have "observe os d p ct w = ReadError" using True by (simp add: observe_def)
    then show ?thesis
      using Inl assms(3) copyMKVPs_id
      by (auto simp: readZcryptMKVPs_def state_of_def published_def mkvp_state_defs MKVPRetryBudget_def Let_def
          split: option.splits)
  next
    case (Inr m)
    then have "observe os d p ct w = ReadOK m" using True by (simp add: observe_def)
    then show ?thesis
      using Inr copyMKVPs_id ParseMKVPs_distinct [OF Inr]
      by (auto simp: readZcryptMKVPs_def state_of_def published_def mkvp_state_defs)
  qed
  ultimately show ?thesis by simp
qed

lemma Evaluate_history_step:
  assumes "keyed ct" and "tracked t apqn = state_of (history os apqn cs)"
  shows "tracked (snd (Evaluate os apqn d p ct w t)) apqn = state_of (observe os d p ct w # history os apqn cs)
       \<and> fst (Evaluate os apqn d p ct w t) = published ct (observe os d p ct w # history os apqn cs)"
  using assms last_ok_distinct by (intro Evaluate_step) blast+

lemma tracked_run: "tracked (run_calls os cs) apqn = state_of (history os apqn cs)"
proof (induction cs rule: rev_induct)
  case Nil
  then show ?case by (simp add: run_calls_def history_def tracked_def NewMKVPTracker_def state_of_def)
next
  case (snoc c cs)
  show ?case
  proof (cases "c_apqn c = apqn \<and> keyed (c_type c)")
    case True
    then show ?thesis
      using Evaluate_history_step [OF _ snoc] by (auto simp: run_calls_snoc history_snoc eval_call_def)
  next
    case False
    then show ?thesis
      using snoc by (cases "c_apqn c = apqn")
        (auto simp: run_calls_snoc history_snoc eval_call_def Evaluate_other Evaluate_unkeyed)
  qed
qed

text \<open>
  C22. The tracker refines the history of reads. Whatever calls of \<open>Evaluate\<close> came before,
  on this queue and on others, the next call on a queue of a card with master keys returns
  the values of the queue's last successful read, as known when that is this very read and
  as cached while at most three reads have failed since (a missing file neither counts nor
  resets the count), and the unknown values after the fourth failure or when there never
  was a good read.
\<close>

theorem Evaluate_refines_history:
  assumes "keyed (c_type c)"
  shows "fst (eval_call os c (run_calls os cs)) = published (c_type c) (history os (c_apqn c) (cs @ [c]))"
  using assms by (simp add: eval_call_def history_snoc Evaluate_history_step [OF _ tracked_run])

text \<open>A good read, then a read whose placeholders taint it, then the queue bound elsewhere.\<close>

definition call1 :: "string gomap mkvp_call" where
  "call1 = \<lparr>c_apqn = ''01.0002'', c_driver = ''cex4queue'', c_path = ''/q'', c_type = ''ep11'',
            c_world = [(''/q/mkvps'', ''WK CUR: valid 0xab'')]\<rparr>"

definition call2 :: "string gomap mkvp_call" where
  "call2 = call1\<lparr>c_world := [(''/q/mkvps'', ''WK CUR: - -'')]\<rparr>"

theorem Evaluate_refines_history_witness:
  "fst (eval_call mem_os (call1\<lparr>c_driver := ''vfio_ap''\<rparr>) (run_calls mem_os [call1, call2]))
     = ([(''cex.ep11.domain.ibm.com/mkvp_wk_cur'', ''ab'')], ''cached'')"
proof -
  let ?c = "call1\<lparr>c_driver := ''vfio_ap''\<rparr>"
  have "keyed (c_type ?c)" by code_simp
  moreover have "published (c_type ?c) (history mem_os (c_apqn ?c) [call1, call2, ?c])
     = ([(''cex.ep11.domain.ibm.com/mkvp_wk_cur'', ''ab'')], ''cached'')" by code_simp
  ultimately show ?thesis
    using Evaluate_refines_history [of ?c mem_os "[call1, call2]"] by simp
qed

section \<open>The tracker's invariant\<close>

definition all_mkvp_attrs :: "string set" where
  "all_mkvp_attrs = set (mkvp_attrs ''cca'') \<union> set (mkvp_attrs ''ep11'')"

definition mkvp_map :: "string gomap \<Rightarrow> bool" where
  "mkvp_map m \<longleftrightarrow> fst ` set m \<subseteq> all_mkvp_attrs \<and> distinct (map fst m)"

definition tracker_ok :: "MKVPTracker \<Rightarrow> bool" where
  "tracker_ok t \<longleftrightarrow> (\<forall>q c. cache (tracked t q) = Some c \<longrightarrow> mkvp_map c)"

lemma tracker_ok_New [simp]: "tracker_ok NewMKVPTracker"
  by (simp add: tracker_ok_def tracked_def NewMKVPTracker_def)

lemma tracker_ok_first [simp]: "tracker_ok (t\<lparr>firstScanDone := b\<rparr>) = tracker_ok t"
  by (simp add: tracker_ok_def tracked_def)

lemma mkvp_attrs_sub: "set (mkvp_attrs ct) \<subseteq> all_mkvp_attrs"
  by (auto simp: all_mkvp_attrs_def mkvp_attrs_def)

lemma mkvp_map_Nil [simp]: "mkvp_map []"
  by (simp add: mkvp_map_def)

lemma mkvp_map_Unknown [simp]: "mkvp_map (UnknownMKVPs ct)"
  unfolding mkvp_map_def set_map [symmetric] UnknownMKVPs_keys
  using mkvp_attrs_sub mkvp_attrs_distinct by blast

lemma mkvp_map_Parse: "ParseMKVPs os p ct w = Inr m \<Longrightarrow> mkvp_map m"
  using ParseMKVPs_attrs [of os p ct w m] ParseMKVPs_distinct [of os p ct w m] mkvp_attrs_sub [of ct]
  unfolding mkvp_map_def by blast

lemma mkvp_map_copy [simp]: "mkvp_map m \<Longrightarrow> copyMKVPs m = m"
  by (simp add: mkvp_map_def copyMKVPs_id)

lemma readZcryptMKVPs_ok:
  assumes "\<And>c. cache st = Some c \<Longrightarrow> mkvp_map c" and "readZcryptMKVPs os st p ct w = ((m, s), st')"
  shows "mkvp_map m \<and> (\<forall>c. cache st' = Some c \<longrightarrow> mkvp_map c)"
  using assms
  by (auto simp: readZcryptMKVPs_def Let_def mkvp_map_Parse split: sum.splits option.splits if_splits)

lemma Evaluate_tracked:
  "keyed ct \<Longrightarrow> Evaluate os apqn d p ct w t = (r, t') \<Longrightarrow>
     tracked t' apqn = (if d = zcryptDriver \<and> fileExists os (Join [p, ''mkvps'']) w
                        then snd (readZcryptMKVPs os (tracked t apqn) p ct w) else tracked t apqn)"
  by (auto simp: Evaluate_def tracked_def keyed_def Let_def split: option.splits prod.splits if_splits)

lemma Evaluate_result:
  "keyed ct \<Longrightarrow> fst (Evaluate os apqn d p ct w t) =
     (if d = zcryptDriver \<and> fileExists os (Join [p, ''mkvps'']) w
      then fst (readZcryptMKVPs os (tracked t apqn) p ct w)
      else case cache (tracked t apqn) of Some c \<Rightarrow> (copyMKVPs c, MKVPStateCached)
           | None \<Rightarrow> (UnknownMKVPs ct, MKVPStateUnknown))"
  by (auto simp: Evaluate_def tracked_def keyed_def Let_def split: option.splits prod.splits)

lemma Evaluate_ok:
  assumes "tracker_ok t" and "Evaluate os apqn d p ct w t = ((m, s), t')"
  shows "tracker_ok t' \<and> mkvp_map m"
proof (cases "keyed ct")
  case False
  then show ?thesis using assms by (simp add: Evaluate_unkeyed)
next
  case True
  have inv: "\<And>c. cache (tracked t apqn) = Some c \<Longrightarrow> mkvp_map c"
    using assms(1) by (simp add: tracker_ok_def)
  obtain m1 s1 st1 where r: "readZcryptMKVPs os (tracked t apqn) p ct w = ((m1, s1), st1)"
    by (metis prod.exhaust)
  note r_ok = readZcryptMKVPs_ok [OF inv r]
  have "mkvp_map c" if "cache (tracked t' q) = Some c" for q c
    using that Evaluate_tracked [OF True assms(2)] Evaluate_other [of q apqn os d p ct w t] assms r r_ok inv
    by (cases "q = apqn") (auto simp: tracker_ok_def split: if_splits)
  moreover have "mkvp_map m"
    using Evaluate_result [OF True, of os apqn d p w t] assms(2) r r_ok inv
    by (auto split: if_splits option.splits)
  ultimately show ?thesis by (simp add: tracker_ok_def)
qed

end
