(* ===== verification/Scan_Props.thy ===== *)
theory Scan_Props
  imports Apscanner_Props
begin

text \<open>
  The inventory of a scan: which devices it returns, and when it fails instead.
\<close>

section \<open>Devices\<close>

definition string_attr :: "string \<Rightarrow> DeviceAttribute" where
  "string_attr v = \<lparr>StringValue = Some v, IntValue = None\<rparr>"

definition int_attr :: "int \<Rightarrow> DeviceAttribute" where
  "int_attr v = \<lparr>StringValue = None, IntValue = Some v\<rparr>"

definition queue_dir :: "dir_entry \<Rightarrow> bool" where
  "queue_dir e \<longleftrightarrow> entry_is_dir e \<and> queuePattern (entry_name e) \<noteq> None"

definition dir_apqn :: "dir_entry \<Rightarrow> APQN" where
  "dir_apqn e = \<lparr>APID = take 2 (entry_name e), APQI = drop 3 (entry_name e)\<rparr>"

text \<open>
  The device of a queue directory: its name and every attribute but the master key ones,
  which are the tracker's.
\<close>

definition device_name :: "string \<Rightarrow> APQN \<Rightarrow> string" where
  "device_name machineID q = machineID @ ''-'' @ APID q @ ''-'' @ APQI q"

definition queue_device :: "'w os \<Rightarrow> string \<Rightarrow> string \<Rightarrow> int \<Rightarrow> string \<Rightarrow> 'w \<Rightarrow> dir_entry \<Rightarrow> Device \<Rightarrow> bool" where
  "queue_device os cardPath cardType generation machineID w e d \<longleftrightarrow>
     (let q = dir_apqn e; p = Join [cardPath, entry_name e]; drv = readQueueDriver os p w;
          attr = map_of (dev_Attributes d)
      in dev_Name d = device_name machineID q
       \<and> attr ''cex.ibm.com/machineid'' = Some (string_attr machineID)
       \<and> attr ''cex.ibm.com/apid'' = Some (string_attr (APID q))
       \<and> attr ''cex.ibm.com/apqi'' = Some (string_attr (APQI q))
       \<and> attr ''cex.ibm.com/type'' = Some (string_attr cardType)
       \<and> attr ''cex.ibm.com/generation'' = Some (int_attr generation)
       \<and> attr ''cex.ibm.com/driver'' = Some (string_attr drv)
       \<and> attr ''cex.ibm.com/card_status'' = Some (string_attr (readCardStatus os cardPath w))
       \<and> attr ''cex.ibm.com/queue_status'' = Some (string_attr (readQueueStatus os p drv w)))"

lemma fold_SetStringAttr_other:
  "k \<notin> fst ` set m \<Longrightarrow> map_of (fold (\<lambda>(key, value) attrs. SetStringAttr key value attrs) m attrs) k = map_of attrs k"
  by (induction m arbitrary: attrs) (auto simp: SetStringAttr_def)

lemma all_mkvp_attrs_eq: "all_mkvp_attrs = set (mkvp_attrs ''cca'' @ mkvp_attrs ''ep11'')"
  by (simp add: all_mkvp_attrs_def)

lemma base_attrs_free:
  "''cex.ibm.com/machineid'' \<notin> all_mkvp_attrs" "''cex.ibm.com/apid'' \<notin> all_mkvp_attrs"
  "''cex.ibm.com/apqi'' \<notin> all_mkvp_attrs" "''cex.ibm.com/type'' \<notin> all_mkvp_attrs"
  "''cex.ibm.com/generation'' \<notin> all_mkvp_attrs" "''cex.ibm.com/driver'' \<notin> all_mkvp_attrs"
  "''cex.ibm.com/card_status'' \<notin> all_mkvp_attrs" "''cex.ibm.com/queue_status'' \<notin> all_mkvp_attrs"
  unfolding all_mkvp_attrs_eq by (simp_all add: mkvp_attrs_def ccaMKVPKeyMap_def ep11MKVPKeyMap_def)

lemma QueueToDevice_base:
  fixes queue :: APQueue and machineID :: string
  assumes "mkvp_map (q_MKVPs queue)"
  defines "attr \<equiv> map_of (dev_Attributes (QueueToDevice queue machineID))"
  shows "attr ''cex.ibm.com/machineid'' = Some (string_attr machineID)"
    "attr ''cex.ibm.com/apid'' = Some (string_attr (q_APID queue))"
    "attr ''cex.ibm.com/apqi'' = Some (string_attr (q_APQI queue))"
    "attr ''cex.ibm.com/type'' = Some (string_attr (q_Type queue))"
    "attr ''cex.ibm.com/generation'' = Some (int_attr (q_Generation queue))"
    "attr ''cex.ibm.com/driver'' = Some (string_attr (q_Driver queue))"
    "attr ''cex.ibm.com/card_status'' = Some (string_attr (q_CardStatus queue))"
    "attr ''cex.ibm.com/queue_status'' = Some (string_attr (q_QueueStatus queue))"
proof -
  have k: "k \<notin> all_mkvp_attrs \<Longrightarrow> k \<notin> fst ` set (q_MKVPs queue)" for k
    using assms(1) by (auto simp: mkvp_map_def)
  note base = base_attrs_free [THEN k, THEN fold_SetStringAttr_other]
  show "attr ''cex.ibm.com/machineid'' = Some (string_attr machineID)"
    "attr ''cex.ibm.com/apid'' = Some (string_attr (q_APID queue))"
    "attr ''cex.ibm.com/apqi'' = Some (string_attr (q_APQI queue))"
    "attr ''cex.ibm.com/type'' = Some (string_attr (q_Type queue))"
    "attr ''cex.ibm.com/generation'' = Some (int_attr (q_Generation queue))"
    "attr ''cex.ibm.com/driver'' = Some (string_attr (q_Driver queue))"
    "attr ''cex.ibm.com/card_status'' = Some (string_attr (q_CardStatus queue))"
    "attr ''cex.ibm.com/queue_status'' = Some (string_attr (q_QueueStatus queue))"
    unfolding attr_def QueueToDevice_def Let_def Device.simps base
    by (simp_all add: SetStringAttr_def SetIntAttr_def string_attr_def int_attr_def)
qed

lemma QueueToDevice_name: "dev_Name (QueueToDevice queue machineID) = machineID @ ''-'' @ q_APID queue @ ''-'' @ q_APQI queue"
  by (simp add: QueueToDevice_def Let_def)

section \<open>The inventory of a scan\<close>

lemma scanQueue_spec:
  assumes "tracker_ok t"
    and "scanQueue os cardPath e ct gen (readCardStatus os cardPath w) machineID w t = (r, t')"
  shows "tracker_ok t'"
    and "if queue_dir e then (\<exists>d. r = Some d \<and> queue_device os cardPath ct gen machineID w e d) else r = None"
proof -
  let ?p = "Join [cardPath, entry_name e]"
  let ?drv = "readQueueDriver os ?p w"
  obtain m s t1 where ev: "Evaluate os (APID (dir_apqn e) @ ''.'' @ APQI (dir_apqn e)) ?drv ?p ct w t = ((m, s), t1)"
    by (metis prod.exhaust)
  from Evaluate_ok [OF assms(1) ev] have ok: "tracker_ok t1" "mkvp_map m" by auto
  define queue where "queue = \<lparr>q_APID = APID (dir_apqn e), q_APQI = APQI (dir_apqn e), q_Type = ct, q_Generation = gen,
     q_CardStatus = readCardStatus os cardPath w, q_QueueStatus = readQueueStatus os ?p ?drv w,
     q_Driver = ?drv, q_MKVPs = m, q_MKVPState = s\<rparr>"
  have r: "(r, t') = (if queue_dir e then (Some (QueueToDevice queue machineID), t1) else (None, t))"
    using assms(2) ev
    by (auto simp: scanQueue_def queue_dir_def queuePattern_def dir_apqn_def parseAPQueueDir_def queue_def Let_def
        split: if_splits)
  then show "tracker_ok t'" using ok assms(1) by (auto split: if_splits)
  have "queue_device os cardPath ct gen machineID w e (QueueToDevice queue machineID)"
    using QueueToDevice_base [of queue machineID] ok(2)
    by (simp add: queue_device_def queue_def QueueToDevice_name device_name_def Let_def)
  then show "if queue_dir e then (\<exists>d. r = Some d \<and> queue_device os cardPath ct gen machineID w e d) else r = None"
    using r by auto
qed

lemma scan_queues_spec:
  assumes "tracker_ok t"
    and "scan_queues os cardPath es ct gen (readCardStatus os cardPath w) machineID w t = (ds, t')"
  shows "tracker_ok t' \<and> list_all2 (queue_device os cardPath ct gen machineID w) (filter queue_dir es) ds"
  using assms
proof (induction es arbitrary: t ds)
  case (Cons e es)
  obtain r t1 where s: "scanQueue os cardPath e ct gen (readCardStatus os cardPath w) machineID w t = (r, t1)"
    by (metis prod.exhaust)
  from scanQueue_spec [OF Cons.prems(1) s] Cons.IH [of t1] Cons.prems(2) s show ?case
    by (auto split: option.splits prod.splits if_splits)
qed simp

text \<open>
  What the scan should make of one entry of the AP bus directory: a card to publish with
  its queue directories, a failure of the whole cycle, or neither. A read that reached the
  file system and failed there is fatal, unless what it was to read is not there.
\<close>

definition broken_read :: "goerr \<Rightarrow> bool" where
  "broken_read err \<longleftrightarrow> errors_As_PathError err \<and> \<not> errors_Is_NotExist err"

definition card_path :: "dir_entry \<Rightarrow> string" where
  "card_path e = Join [APDevicesPath, entry_name e]"

definition card_dir :: "dir_entry \<Rightarrow> bool" where
  "card_dir e \<longleftrightarrow> entry_is_dir e \<and> cardPattern (entry_name e) \<noteq> None"

definition card_failed :: "'w os \<Rightarrow> 'w \<Rightarrow> dir_entry \<Rightarrow> bool" where
  "card_failed os w e \<longleftrightarrow> card_dir e \<and>
     (case parseCardType os (card_path e) w of
        Inl err \<Rightarrow> broken_read err
      | Inr _ \<Rightarrow> (case os_ReadDir os (card_path e) w of Inl err \<Rightarrow> broken_read err | Inr _ \<Rightarrow> False))"

definition card_queues :: "'w os \<Rightarrow> 'w \<Rightarrow> dir_entry \<Rightarrow> (dir_entry \<times> string \<times> int \<times> dir_entry list) option" where
  "card_queues os w e =
     (if card_dir e then
        (case parseCardType os (card_path e) w of
           Inl err \<Rightarrow> None
         | Inr (ct, gen) \<Rightarrow>
             (case os_ReadDir os (card_path e) w of
                Inl err \<Rightarrow> None
              | Inr qs \<Rightarrow> if filter queue_dir qs = [] then None else Some (e, ct, gen, filter queue_dir qs)))
      else None)"

definition card_published :: "'w os \<Rightarrow> string \<Rightarrow> 'w \<Rightarrow> (dir_entry \<times> string \<times> int \<times> dir_entry list) \<Rightarrow> string \<times> Device list \<Rightarrow> bool" where
  "card_published os machineID w c p \<longleftrightarrow>
     (case c of (e, ct, gen, qs) \<Rightarrow>
        fst p = entry_name e \<and> list_all2 (queue_device os (card_path e) ct gen machineID w) qs (snd p))"

lemma scanCard_spec:
  assumes "tracker_ok t" and "scanCard os e machineID w t = (r, t')"
  shows "tracker_ok t'" and "(\<exists>err. r = Inl err) \<longleftrightarrow> card_failed os w e"
    and "r = Inr x \<Longrightarrow> (case card_queues os w e of
            None \<Rightarrow> x = None \<or> x = Some []
          | Some c \<Rightarrow> (\<exists>ds. x = Some ds \<and> ds \<noteq> [] \<and> card_published os machineID w c (entry_name e, ds)))"
proof -
  have "tracker_ok t' \<and> ((\<exists>err. r = Inl err) \<longleftrightarrow> card_failed os w e) \<and> (r = Inr x \<longrightarrow> (case card_queues os w e of
            None \<Rightarrow> x = None \<or> x = Some []
          | Some c \<Rightarrow> (\<exists>ds. x = Some ds \<and> ds \<noteq> [] \<and> card_published os machineID w c (entry_name e, ds))))"
  proof (cases "card_dir e \<and> (\<exists>ct gen qs. parseCardType os (card_path e) w = Inr (ct, gen) \<and> os_ReadDir os (card_path e) w = Inr qs)")
    case False
    then show ?thesis
      using assms by (auto simp: scanCard_def card_dir_def card_failed_def broken_read_def readFailed_def card_queues_def card_path_def Let_def
          split: sum.splits if_splits)
  next
    case True
    then obtain ct gen qs where c: "card_dir e" "parseCardType os (card_path e) w = Inr (ct, gen)"
      "os_ReadDir os (card_path e) w = Inr qs" by blast
    obtain ds t1 where s: "scan_queues os (card_path e) qs ct gen (readCardStatus os (card_path e) w) machineID w t = (ds, t1)"
      by (metis prod.exhaust)
    have "r = Inr (Some ds)" "t' = t1"
      using assms(2) c s by (auto simp: scanCard_def card_dir_def card_path_def Let_def)
    then show ?thesis
      using scan_queues_spec [OF assms(1) s] c
      by (auto simp: card_failed_def card_queues_def card_published_def)
  qed
  then show "tracker_ok t'" "(\<exists>err. r = Inl err) \<longleftrightarrow> card_failed os w e"
    "r = Inr x \<Longrightarrow> (case card_queues os w e of
            None \<Rightarrow> x = None \<or> x = Some []
          | Some c \<Rightarrow> (\<exists>ds. x = Some ds \<and> ds \<noteq> [] \<and> card_published os machineID w c (entry_name e, ds)))"
    by auto
qed

lemma scan_cards_error:
  assumes "tracker_ok t" and "scan_cards os es machineID w acc t = (r, t')"
  shows "tracker_ok t' \<and> ((\<exists>err. r = Inl err) \<longleftrightarrow> (\<exists>e \<in> set es. card_failed os w e))"
  using assms
proof (induction es arbitrary: acc t)
  case (Cons e es)
  obtain r1 t1 where s: "scanCard os e machineID w t = (r1, t1)" by (metis prod.exhaust)
  note spec = scanCard_spec [OF Cons.prems(1) s]
  show ?case
  proof (cases r1)
    case (Inl err)
    then show ?thesis using spec(1,2) Cons.prems(2) s by auto
  next
    case (Inr x)
    then have "\<not> card_failed os w e" using spec(2) by auto
    then show ?thesis using Cons.IH [OF spec(1)] Cons.prems(2) s Inr by (auto split: option.splits)
  qed
qed auto

lemma scan_cards_inventory:
  assumes "tracker_ok t" and "scan_cards os es machineID w acc t = (Inr m, t')"
    and "distinct (map entry_name es)" and "entry_name ` set es \<inter> fst ` set acc = {}"
  shows "\<exists>ps. m = acc @ ps \<and> list_all2 (card_published os machineID w) (List.map_filter (card_queues os w) es) ps"
  using assms
proof (induction es arbitrary: acc t)
  case (Cons e es)
  obtain r1 t1 where s: "scanCard os e machineID w t = (r1, t1)" by (metis prod.exhaust)
  note spec = scanCard_spec [OF Cons.prems(1) s]
  obtain x where x: "r1 = Inr x" using Cons.prems(2) s by (cases r1) auto
  show ?case
  proof (cases "card_queues os w e")
    case None
    then have "x = None \<or> x = Some []" using spec(3) [OF x] by simp
    then have "scan_cards os es machineID w acc t1 = (Inr m, t')"
      using Cons.prems(2) s x by auto
    with Cons.IH [OF spec(1) this] Cons.prems None show ?thesis by (auto simp: List.map_filter_simps)
  next
    case (Some c)
    then obtain ds where ds: "x = Some ds" "ds \<noteq> []" "card_published os machineID w c (entry_name e, ds)"
      using spec(3) [OF x] by auto
    have new: "AList.update (entry_name e) ds acc = acc @ [(entry_name e, ds)]"
      using Cons.prems(4) by (intro update_new) auto
    then have "scan_cards os es machineID w (acc @ [(entry_name e, ds)]) t1 = (Inr m, t')"
      using Cons.prems(2) s x ds by auto
    with Cons.IH [OF spec(1) this] Cons.prems Some ds(3) show ?thesis
      by (auto simp: List.map_filter_simps)
  qed
qed simp

lemma Scan_tracker_ok: "tracker_ok t \<Longrightarrow> Scan os machineID w t = (r, t') \<Longrightarrow> tracker_ok t'"
  by (auto simp: Scan_def split: sum.splits prod.splits if_splits dest: scan_cards_error)

section \<open>Properties\<close>

text \<open>
  C23. Fail rather than drop. A scan fails exactly in these cases: the AP bus directory exists
  but cannot be listed; or it can, and the type or the listing of some card directory in it
  fails to be read for a reason other than its absence. A missing bus directory, a vanished,
  unbound or unparseable card never fails it, and no card is left out of a successful scan
  because of an I/O error.
\<close>

theorem Scan_fails_iff:
  assumes "tracker_ok t"
  shows "(\<exists>err. fst (Scan os machineID w t) = Inl err) \<longleftrightarrow>
     (case os_ReadDir os APDevicesPath w of
        Inl err \<Rightarrow> \<not> os_IsNotExist err
      | Inr es \<Rightarrow> \<exists>e \<in> set es. card_failed os w e)"
proof (cases "os_ReadDir os APDevicesPath w")
  case (Inl err)
  then show ?thesis by (auto simp: Scan_def)
next
  case (Inr es)
  obtain r t1 where s: "scan_cards os es machineID w [] t = (r, t1)" by (metis prod.exhaust)
  then have "fst (Scan os machineID w t) = r" using Inr by (auto simp: Scan_def split: sum.splits)
  then show ?thesis using scan_cards_error [OF assms s] Inr by simp
qed

text \<open>A bus with one CEX8 card of two queues and one stray file.\<close>

definition w_bus :: "string gomap" where
  "w_bus = [(''/sys/devices/ap/card01/type'', ''CEX8C'' @ [nl]),
            (''/sys/devices/ap/card01/config'', ''1'' @ [nl]),
            (''/sys/devices/ap/card01/chkstop'', ''0'' @ [nl]),
            (''/sys/devices/ap/card01/01.0002/mkvps'', ''AES CUR: valid 0x1f''),
            (''/sys/devices/ap/card01/01.0003/online'', ''0''),
            (''/sys/devices/ap/uevent'', [])]"

definition bus_entries :: "dir_entry list" where
  "bus_entries = [\<lparr>entry_name = ''card01'', entry_is_dir = True\<rparr>, \<lparr>entry_name = ''uevent'', entry_is_dir = False\<rparr>]"

lemma w_bus_entries: "os_ReadDir mem_os APDevicesPath w_bus = Inr bus_entries"
  by code_simp

text \<open>The same bus when the type of its card is gone, and when it cannot be read.\<close>

definition broken_os :: "string gomap os" where
  "broken_os = mem_os\<lparr>os_ReadFile := (\<lambda>p w. if p = ''/sys/devices/ap/card01/type'' then Inl (PathError p EIO) else os_ReadFile mem_os p w)\<rparr>"

theorem Scan_fails_iff_witness:
  "\<not> (\<exists>err. fst (Scan mem_os ''m'' w_bus NewMKVPTracker) = Inl err)
   \<and> \<not> (\<exists>err. fst (Scan mem_os ''m'' (tl w_bus) NewMKVPTracker) = Inl err)
   \<and> (\<exists>err. fst (Scan broken_os ''m'' w_bus NewMKVPTracker) = Inl err)"
proof -
  have r: "os_ReadDir mem_os APDevicesPath (tl w_bus) = Inr bus_entries" "os_ReadDir broken_os APDevicesPath w_bus = Inr bus_entries"
    by code_simp+
  have "list_all (\<lambda>e. \<not> card_failed mem_os w_bus e) bus_entries" "list_all (\<lambda>e. \<not> card_failed mem_os (tl w_bus) e) bus_entries"
    "list_ex (card_failed broken_os w_bus) bus_entries" by code_simp+
  then show ?thesis
    unfolding Scan_fails_iff [OF tracker_ok_New] w_bus_entries r by (simp add: list_all_iff list_ex_iff)
qed

text \<open>
  C24. The inventory: a successful scan returns, in the order of the directory, exactly the
  cards that can be read and have queue directories, each with one device per queue directory
  in order, and every device carries the name, adapter, queue index, card type, generation,
  driver and status values of its own directory, whatever the tracker held before. The
  tracker stays well formed and is marked as having scanned.
\<close>

theorem Scan_inventory:
  assumes "tracker_ok t" and "os_ReadDir os APDevicesPath w = Inr es" and "distinct (map entry_name es)"
    and "Scan os machineID w t = (Inr m, t')"
  shows "list_all2 (card_published os machineID w) (List.map_filter (card_queues os w) es) m
       \<and> tracker_ok t' \<and> firstScanDone t'"
proof -
  obtain r t1 where s: "scan_cards os es machineID w [] t = (r, t1)" by (metis prod.exhaust)
  then have r: "r = Inr m" "t' = t1\<lparr>firstScanDone := True\<rparr>"
    using assms(2,4) by (auto simp: Scan_def split: sum.splits)
  then show ?thesis
    using scan_cards_inventory [OF assms(1) s [unfolded r(1)] assms(3)] Scan_tracker_ok [OF assms(1,4)] by auto
qed

definition scanned_names :: "(goerr + Device list gomap) \<Rightarrow> (string \<times> string list) list" where
  "scanned_names r = (case r of Inl err \<Rightarrow> [] | Inr m \<Rightarrow> map (\<lambda>(c, ds). (c, map dev_Name ds)) m)"

theorem Scan_inventory_witness:
  "\<exists>m. fst (Scan mem_os ''m'' w_bus NewMKVPTracker) = Inr m
     \<and> scanned_names (Inr m) = [(''card01'', [''m-01-0002'', ''m-01-0003''])]
     \<and> list_all2 (card_published mem_os ''m'' w_bus) (List.map_filter (card_queues mem_os w_bus) bus_entries) m"
proof -
  have n: "scanned_names (fst (Scan mem_os ''m'' w_bus NewMKVPTracker)) = [(''card01'', [''m-01-0002'', ''m-01-0003''])]"
    by code_simp
  then obtain m where m: "fst (Scan mem_os ''m'' w_bus NewMKVPTracker) = Inr m"
    by (auto simp: scanned_names_def split: sum.splits)
  moreover have "distinct (map entry_name bus_entries)" by code_simp
  ultimately have "list_all2 (card_published mem_os ''m'' w_bus) (List.map_filter (card_queues mem_os w_bus) bus_entries) m"
    using Scan_inventory [OF tracker_ok_New w_bus_entries, of "''m''" m "snd (Scan mem_os ''m'' w_bus NewMKVPTracker)"]
    by (simp add: prod_eq_iff)
  with m n show ?thesis by simp
qed

end
