(* ===== verification/Go_Json.thy ===== *)
theory Go_Json
  imports Go_Prelude
begin

text \<open>
  What the driver uses of \<open>encoding/json\<close>: \<open>MarshalIndent\<close> with two spaces, the syntax
  that \<open>Unmarshal\<close> and \<open>Decoder.Decode\<close> accept, and the typed part of decoding (which
  values a Go type takes, how an object finds a struct's fields).

  A value is a tree; a number keeps its literal. The parser is recursive descent with fuel;
  \<open>parse_value_fuel\<close> shows that twice the length of the text is always enough, so \<open>None\<close> means
  a syntax error and never a lack of fuel. Strings are byte strings: bytes from 0x80 up pass
  through printer and parser unchanged, which is Go's behaviour on valid UTF-8 other than
  the two line separators U+2028 and U+2029. Go's limit of 10000 nested values is left out.
\<close>

datatype json =
    JNull
  | JBool bool
  | JNum string
  | JStr string
  | JArr "json list"
  | JObj "(string \<times> json) list"

section \<open>Printing\<close>

definition hex_char :: "nat \<Rightarrow> char" where
  "hex_char n = (if n < 10 then char_of (48 + n) else char_of (87 + n))"

definition u_escape :: "char \<Rightarrow> string" where
  "u_escape c = CHR 0x5C # ''u00'' @ [hex_char (of_char c div 16), hex_char (of_char c mod 16)]"

definition escape_char :: "char \<Rightarrow> string" where
  "escape_char c =
     (if c = CHR 0x22 then [CHR 0x5C, CHR 0x22]
      else if c = CHR 0x5C then [CHR 0x5C, CHR 0x5C]
      else if c = CHR 0x08 then CHR 0x5C # ''b''
      else if c = CHR 0x0C then CHR 0x5C # ''f''
      else if c = CHR 0x0A then CHR 0x5C # ''n''
      else if c = CHR 0x0D then CHR 0x5C # ''r''
      else if c = CHR 0x09 then CHR 0x5C # ''t''
      else if of_char c < (32::nat) \<or> c = CHR ''<'' \<or> c = CHR ''>'' \<or> c = CHR ''&'' then u_escape c
      else [c])"

definition print_str :: "string \<Rightarrow> string" where
  "print_str s = CHR 0x22 # concat (map escape_char s) @ [CHR 0x22]"

text \<open>\<open>MarshalIndent(v, "", "  ")\<close> below \<open>d\<close> enclosing values.\<close>

definition newline_indent :: "nat \<Rightarrow> string" where
  "newline_indent d = nl # concat (replicate d ''  '')"

fun print_json :: "nat \<Rightarrow> json \<Rightarrow> string"
  and print_elems :: "nat \<Rightarrow> json list \<Rightarrow> string"
  and print_members :: "nat \<Rightarrow> (string \<times> json) list \<Rightarrow> string" where
  "print_json d JNull = ''null''"
| "print_json d (JBool b) = (if b then ''true'' else ''false'')"
| "print_json d (JNum n) = n"
| "print_json d (JStr s) = print_str s"
| "print_json d (JArr vs) = (if vs = [] then ''[]'' else ''['' @ print_elems (Suc d) vs @ newline_indent d @ '']'')"
| "print_json d (JObj ms) =
     (if ms = [] then [CHR 0x7B, CHR 0x7D]
      else CHR 0x7B # print_members (Suc d) ms @ newline_indent d @ [CHR 0x7D])"
| "print_elems d [] = []"
| "print_elems d (v # vs) = newline_indent d @ print_json d v @ (if vs = [] then [] else '','' @ print_elems d vs)"
| "print_members d [] = []"
| "print_members d ((k, v) # ms) =
     newline_indent d @ print_str k @ '': '' @ print_json d v @ (if ms = [] then [] else '','' @ print_members d ms)"

definition MarshalIndent :: "json \<Rightarrow> string" where
  "MarshalIndent v = print_json 0 v"

section \<open>Parsing\<close>

definition json_space :: "char \<Rightarrow> bool" where
  "json_space c \<longleftrightarrow> c = CHR '' '' \<or> c = CHR 0x09 \<or> c = CHR 0x0A \<or> c = CHR 0x0D"

definition skip_ws :: "string \<Rightarrow> string" where
  "skip_ws s = dropWhile json_space s"

definition hex_val :: "char \<Rightarrow> nat" where
  "hex_val c = (if is_digit c then of_char c - 48 else if is_lhex c then of_char c - 87 else of_char c - 55)"

definition hex4 :: "string \<Rightarrow> nat option" where
  "hex4 s = (if 4 \<le> length s \<and> list_all is_hex (take 4 s)
             then Some (foldl (\<lambda>n c. 16 * n + hex_val c) 0 (take 4 s)) else None)"

definition utf8 :: "nat \<Rightarrow> string" where
  "utf8 n =
     (if n < 0x80 then [char_of n]
      else if n < 0x800 then [char_of (0xC0 + n div 64), char_of (0x80 + n mod 64)]
      else if n < 0x10000 then [char_of (0xE0 + n div 4096), char_of (0x80 + n div 64 mod 64), char_of (0x80 + n mod 64)]
      else [char_of (0xF0 + n div 262144), char_of (0x80 + n div 4096 mod 64), char_of (0x80 + n div 64 mod 64),
            char_of (0x80 + n mod 64)])"

definition unescape_char :: "char \<Rightarrow> char option" where
  "unescape_char e =
     (if e = CHR 0x22 \<or> e = CHR 0x5C \<or> e = CHR ''/'' then Some e
      else if e = CHR ''b'' then Some (CHR 0x08)
      else if e = CHR ''f'' then Some (CHR 0x0C)
      else if e = CHR ''n'' then Some (CHR 0x0A)
      else if e = CHR ''r'' then Some (CHR 0x0D)
      else if e = CHR ''t'' then Some (CHR 0x09)
      else None)"

text \<open>
  A \<open>\u\<close> escape that is the first half of a surrogate pair takes the second half with it;
  a half alone becomes the replacement character U+FFFD.
\<close>

definition low_surrogate :: "string \<Rightarrow> nat option" where
  "low_surrogate s =
     (if take 2 s = [CHR 0x5C, CHR ''u''] then
        (case hex4 (drop 2 s) of Some n \<Rightarrow> if 0xDC00 \<le> n \<and> n < 0xE000 then Some n else None | None \<Rightarrow> None)
      else None)"

definition prepend :: "string \<Rightarrow> (string \<times> string) option \<Rightarrow> (string \<times> string) option" where
  "prepend p r = map_option (\<lambda>(a, b). (p @ a, b)) r"

text \<open>The rest of a string literal after its opening quote.\<close>

fun parse_str :: "string \<Rightarrow> (string \<times> string) option" where
  "parse_str [] = None"
| "parse_str (c # s) =
     (if c = CHR 0x22 then Some ([], s)
      else if of_char c < (32::nat) then None
      else if c \<noteq> CHR 0x5C then prepend [c] (parse_str s)
      else (case s of
              [] \<Rightarrow> None
            | e # s1 \<Rightarrow>
                if e = CHR ''u'' then
                  (case hex4 s1 of
                     None \<Rightarrow> None
                   | Some n \<Rightarrow>
                       if 0xD800 \<le> n \<and> n < 0xE000 then
                         (if n < 0xDC00 then
                            (case low_surrogate (drop 4 s1) of
                               Some l \<Rightarrow> prepend (utf8 (0x10000 + (n - 0xD800) * 1024 + (l - 0xDC00))) (parse_str (drop 10 s1))
                             | None \<Rightarrow> prepend (utf8 0xFFFD) (parse_str (drop 4 s1)))
                          else prepend (utf8 0xFFFD) (parse_str (drop 4 s1)))
                       else prepend (utf8 n) (parse_str (drop 4 s1)))
                else (case unescape_char e of None \<Rightarrow> None | Some ch \<Rightarrow> prepend [ch] (parse_str s1))))"

declare parse_str.simps(2) [simp del]

text \<open>The number literal at the start of a text, and what follows it.\<close>

definition digits1 :: "string \<Rightarrow> (string \<times> string) option" where
  "digits1 s = (let ds = takeWhile is_digit s in if ds = [] then None else Some (ds, drop (length ds) s))"

definition int_part :: "string \<Rightarrow> (string \<times> string) option" where
  "int_part s = (if s \<noteq> [] \<and> hd s = CHR ''0'' then Some (''0'', tl s) else digits1 s)"

definition frac_part :: "string \<Rightarrow> (string \<times> string) option" where
  "frac_part s =
     (if s \<noteq> [] \<and> hd s = CHR ''.'' then map_option (\<lambda>(f, r). (''.'' @ f, r)) (digits1 (tl s)) else Some ([], s))"

definition exp_sign :: "string \<Rightarrow> string" where
  "exp_sign s = (if s \<noteq> [] \<and> (hd s = CHR ''+'' \<or> hd s = CHR ''-'') then [hd s] else [])"

definition exp_part :: "string \<Rightarrow> (string \<times> string) option" where
  "exp_part s =
     (if s \<noteq> [] \<and> (hd s = CHR ''e'' \<or> hd s = CHR ''E'')
      then map_option (\<lambda>(x, r). (hd s # exp_sign (tl s) @ x, r)) (digits1 (drop (length (exp_sign (tl s))) (tl s)))
      else Some ([], s))"

definition parse_number :: "string \<Rightarrow> (string \<times> string) option" where
  "parse_number s =
     (let sign = (if s \<noteq> [] \<and> hd s = CHR ''-'' then ''-'' else []) in
      case int_part (drop (length sign) s) of
        None \<Rightarrow> None
      | Some (ip, s1) \<Rightarrow>
          (case frac_part s1 of
             None \<Rightarrow> None
           | Some (fp, s2) \<Rightarrow>
               (case exp_part s2 of
                  None \<Rightarrow> None
                | Some (ep, s3) \<Rightarrow> Some (sign @ ip @ fp @ ep, s3))))"

definition literal :: "string \<Rightarrow> json \<Rightarrow> string \<Rightarrow> (json \<times> string) option" where
  "literal name v s = (if HasPrefix s name then Some (v, drop (length name) s) else None)"

fun parse_value :: "nat \<Rightarrow> string \<Rightarrow> (json \<times> string) option"
  and parse_elems :: "nat \<Rightarrow> string \<Rightarrow> (json list \<times> string) option"
  and parse_members :: "nat \<Rightarrow> string \<Rightarrow> ((string \<times> json) list \<times> string) option" where
  "parse_value 0 s = None"
| "parse_value (Suc n) s =
     (case skip_ws s of
        [] \<Rightarrow> None
      | c # r \<Rightarrow>
          if c = CHR 0x22 then map_option (\<lambda>(t, r'). (JStr t, r')) (parse_str r)
          else if c = CHR 0x7B then
            (case skip_ws r of
               [] \<Rightarrow> None
             | c' # r' \<Rightarrow> if c' = CHR 0x7D then Some (JObj [], r')
                         else map_option (\<lambda>(ms, q). (JObj ms, q)) (parse_members n (c' # r')))
          else if c = CHR ''['' then
            (case skip_ws r of
               [] \<Rightarrow> None
             | c' # r' \<Rightarrow> if c' = CHR '']'' then Some (JArr [], r')
                         else map_option (\<lambda>(vs, q). (JArr vs, q)) (parse_elems n (c' # r')))
          else if c = CHR ''-'' \<or> is_digit c then map_option (\<lambda>(t, r'). (JNum t, r')) (parse_number (c # r))
          else if c = CHR ''t'' then literal ''true'' (JBool True) (c # r)
          else if c = CHR ''f'' then literal ''false'' (JBool False) (c # r)
          else if c = CHR ''n'' then literal ''null'' JNull (c # r)
          else None)"
| "parse_elems 0 s = None"
| "parse_elems (Suc n) s =
     (case parse_value n s of
        None \<Rightarrow> None
      | Some (v, r) \<Rightarrow>
          (case skip_ws r of
             [] \<Rightarrow> None
           | c # r' \<Rightarrow> if c = CHR '']'' then Some ([v], r')
                       else if c = CHR '','' then map_option (\<lambda>(vs, q). (v # vs, q)) (parse_elems n r')
                       else None))"
| "parse_members 0 s = None"
| "parse_members (Suc n) s =
     (case skip_ws s of
        [] \<Rightarrow> None
      | c # r \<Rightarrow>
          if c \<noteq> CHR 0x22 then None
          else (case parse_str r of
                  None \<Rightarrow> None
                | Some (k, r1) \<Rightarrow>
                    (case skip_ws r1 of
                       [] \<Rightarrow> None
                     | c1 # r2 \<Rightarrow>
                         if c1 \<noteq> CHR '':'' then None
                         else (case parse_value n r2 of
                                 None \<Rightarrow> None
                               | Some (v, r3) \<Rightarrow>
                                   (case skip_ws r3 of
                                      [] \<Rightarrow> None
                                    | c2 # r4 \<Rightarrow>
                                        if c2 = CHR 0x7D then Some ([(k, v)], r4)
                                        else if c2 = CHR '','' then
                                          map_option (\<lambda>(ms, q). ((k, v) # ms, q)) (parse_members n r4)
                                        else None)))))"

text \<open>
  The value at the start of a stream (\<open>Decoder.Decode\<close>) with the text after it, and a whole
  document (\<open>Unmarshal\<close>), after which only space may follow.
\<close>

definition json_stream :: "string \<Rightarrow> (json \<times> string) option" where
  "json_stream s = parse_value (2 * length s + 1) s"

definition json_document :: "string \<Rightarrow> json option" where
  "json_document s = (case json_stream s of None \<Rightarrow> None | Some (v, r) \<Rightarrow> if skip_ws r = [] then Some v else None)"

section \<open>Decoding into Go types\<close>

text \<open>
  The Go types the driver decodes into: strings (and pointers to strings), \<open>int64\<close>, slices,
  maps and structs with their JSON field names. \<open>null\<close> leaves any value as it is. A struct
  field is found by its exact name, else by a name equal up to letter case; a key with no
  field is an error only in strict mode (\<open>DisallowUnknownFields\<close>).
\<close>

datatype gotype = TString | TInt64 | TSlice gotype | TMap gotype | TStruct "(string \<times> gotype) list"

definition field_name :: "string list \<Rightarrow> string \<Rightarrow> string option" where
  "field_name fs k = (if k \<in> set fs then Some k else find (\<lambda>f. ToLower f = ToLower k) fs)"

definition int64_literal :: "string \<Rightarrow> int option" where
  "int64_literal n = (case Atoi n of Inl e \<Rightarrow> None | Inr i \<Rightarrow> Some i)"

fun fits :: "bool \<Rightarrow> gotype \<Rightarrow> json \<Rightarrow> bool" where
  "fits strict t JNull = True"
| "fits strict TString (JStr s) = True"
| "fits strict TInt64 (JNum n) = (int64_literal n \<noteq> None)"
| "fits strict (TSlice t) (JArr vs) = list_all (fits strict t) vs"
| "fits strict (TMap t) (JObj ms) = list_all (\<lambda>m. fits strict t (snd m)) ms"
| "fits strict (TStruct fs) (JObj ms) =
     list_all (\<lambda>m. case field_name (map fst fs) (fst m) of
                      None \<Rightarrow> \<not> strict
                    | Some f \<Rightarrow> (case map_of fs f of None \<Rightarrow> \<not> strict | Some t \<Rightarrow> fits strict t (snd m))) ms"
| "fits strict t v = False"

text \<open>
  The values an object stores in a field of a struct, in the order they are stored: a later
  key for the same field overwrites the earlier one.
\<close>

definition field_values :: "string list \<Rightarrow> string \<Rightarrow> json \<Rightarrow> json list" where
  "field_values fs f v =
     (case v of JObj ms \<Rightarrow> map snd (filter (\<lambda>m. field_name fs (fst m) = Some f \<and> snd m \<noteq> JNull) ms) | _ \<Rightarrow> [])"

definition string_field :: "string list \<Rightarrow> string \<Rightarrow> json \<Rightarrow> string" where
  "string_field fs f v =
     (case rev (field_values fs f v) of JStr s # _ \<Rightarrow> s | _ \<Rightarrow> [])"

end
