(* ===== verification/Json_Props.thy ===== *)
theory Json_Props
  imports Go_Json
begin

text \<open>
  The parser needs no more fuel than \<open>json_stream\<close> gives it, and reads back what
  \<open>MarshalIndent\<close> prints.
\<close>

section \<open>Fuel\<close>

lemma skip_ws_length: "length (skip_ws s) \<le> length s"
  by (simp add: skip_ws_def length_dropWhile_le)

lemma skip_ws_Cons: "skip_ws s = c # r \<Longrightarrow> length r < length s"
  using skip_ws_length [of s] by simp

lemma prepend_Some: "prepend p x = Some (a, b) \<longleftrightarrow> (\<exists>a'. x = Some (a', b) \<and> a = p @ a')"
  by (auto simp: prepend_def)

lemma parse_str_length: "parse_str s = Some (a, b) \<Longrightarrow> length b < length s"
proof (induction s arbitrary: a rule: parse_str.induct)
  case (2 c s)
  show ?case
    using 2 by (fastforce simp: parse_str.simps(2) prepend_Some split: if_splits list.splits option.splits)
qed simp

lemma digits1_length: "digits1 s = Some (a, b) \<Longrightarrow> length b < length s"
  by (cases s) (auto simp: digits1_def Let_def split: if_splits)

lemma number_part_length:
  "int_part s = Some (a, b) \<Longrightarrow> length b < length s"
  "frac_part s = Some (a, b) \<Longrightarrow> length b \<le> length s"
  "exp_part s = Some (a, b) \<Longrightarrow> length b \<le> length s"
  by (auto simp: int_part_def frac_part_def exp_part_def split: if_splits dest!: digits1_length)

lemma parse_number_length: "parse_number s = Some (a, b) \<Longrightarrow> length b < length s"
  by (fastforce simp: parse_number_def Let_def split: option.splits if_splits dest!: number_part_length)

lemma literal_length: "name \<noteq> [] \<Longrightarrow> literal name v s = Some (x, r) \<Longrightarrow> s \<noteq> [] \<Longrightarrow> length r < length s"
  by (auto simp: literal_def HasPrefix_def split: if_splits)

lemma parse_length:
  "parse_value n s = Some (v, r) \<Longrightarrow> length r < length s"
  "parse_elems n s = Some (vs, r) \<Longrightarrow> length r < length s"
  "parse_members n s = Some (ms, r) \<Longrightarrow> length r < length s"
proof (induction n arbitrary: s v vs ms r)
  case (Suc n)
  {
    case 1
    then obtain c s1 where w: "skip_ws s = c # s1" by (cases "skip_ws s") auto
    have l: "length (c # s1) \<le> length s" using skip_ws_length [of s] w by simp
    consider "c = CHR 0x22" | "c = CHR 0x7B" | "c = CHR ''[''"
      | "c \<noteq> CHR 0x22" "c \<noteq> CHR 0x7B" "c \<noteq> CHR ''[''" by blast
    then show ?case
    proof cases
      case a: 1
      then show ?thesis using 1 w l by (auto dest: parse_str_length)
    next
      case 2
      then obtain c' s2 where "skip_ws s1 = c' # s2" using 1 w by (cases "skip_ws s1") auto
      then show ?thesis using 1 2 w l skip_ws_length [of s1] Suc.IH(3) by (fastforce split: if_splits)
    next
      case 3
      then obtain c' s2 where "skip_ws s1 = c' # s2" using 1 w by (cases "skip_ws s1") auto
      then show ?thesis using 1 3 w l skip_ws_length [of s1] Suc.IH(2) by (fastforce split: if_splits)
    next
      case 4
      then show ?thesis
        using 1 w l parse_number_length [of "c # s1"] literal_length [of _ _ "c # s1"]
        by (fastforce split: if_splits)
    qed
  next
    case 2
    then obtain v r1 where v: "parse_value n s = Some (v, r1)" by (auto split: option.splits)
    then obtain c r2 where c: "skip_ws r1 = c # r2" using 2 by (cases "skip_ws r1") auto
    have "length r \<le> length r2"
      using 2 v c Suc.IH(2) [of r2] by (auto split: if_splits dest!: less_imp_le)
    then show ?case using Suc.IH(1) [OF v] skip_ws_Cons [OF c] by linarith
  next
    case 3
    then obtain s1 where s1: "skip_ws s = CHR 0x22 # s1" by (auto split: list.splits if_splits)
    with 3 obtain k r1 where k: "parse_str s1 = Some (k, r1)" by (auto split: option.splits)
    with 3 s1 obtain r2 where r2: "skip_ws r1 = CHR '':'' # r2" by (auto split: list.splits if_splits)
    with 3 s1 k obtain v r3 where v: "parse_value n r2 = Some (v, r3)" by (auto split: option.splits)
    with 3 s1 k r2 obtain c r4 where c: "skip_ws r3 = c # r4" by (auto split: list.splits if_splits)
    have "length r \<le> length r4"
      using 3 s1 k r2 v c Suc.IH(3) [of r4] by (auto split: if_splits dest!: less_imp_le)
    then show ?case
      using skip_ws_Cons [OF s1] parse_str_length [OF k] skip_ws_Cons [OF r2] Suc.IH(1) [OF v] skip_ws_Cons [OF c]
      by linarith
  }
qed simp_all

lemma parse_fuel:
  "2 * length s < n \<Longrightarrow> n \<le> m \<Longrightarrow> parse_value m s = parse_value n s"
  "2 * length s + 1 < n \<Longrightarrow> n \<le> m \<Longrightarrow> parse_elems m s = parse_elems n s"
  "2 * length s + 1 < n \<Longrightarrow> n \<le> m \<Longrightarrow> parse_members m s = parse_members n s"
proof (induction n arbitrary: s m)
  case (Suc n)
  {
    case 1
    then obtain m' where m: "m = Suc m'" "n \<le> m'" by (cases m) auto
    show ?case
    proof (cases "skip_ws s")
      case Nil
      then show ?thesis by (simp add: m)
    next
      case (Cons c r)
      have r: "length r < length s" using skip_ws_Cons [OF Cons] .
      show ?thesis
      proof (cases "skip_ws r")
        case Nil
        then show ?thesis by (simp add: m Cons)
      next
        case c': (Cons c' r')
        have "2 * length (c' # r') + 1 < n" using r 1 skip_ws_length [of r] c' by simp
        then show ?thesis using Suc.IH(2,3) [of "c' # r'" m'] m(2) by (simp add: m Cons c')
      qed
    qed
  next
    case 2
    then obtain m' where m: "m = Suc m'" "n \<le> m'" by (cases m) auto
    have v: "parse_value m' s = parse_value n s" using 2 m(2) by (intro Suc.IH(1)) simp_all
    show ?case
    proof (cases "parse_value n s")
      case None
      then show ?thesis by (simp add: m v)
    next
      case (Some x)
      then obtain u r where x: "parse_value n s = Some (u, r)" by (cases x) auto
      have "parse_elems m' r' = parse_elems n r'" if "skip_ws r = c # r'" for c r'
        using parse_length(1) [OF x] skip_ws_Cons [OF that] 2 m(2) by (intro Suc.IH(2)) linarith+
      then show ?thesis by (cases "skip_ws r") (simp_all add: m v x)
    qed
  next
    case 3
    then obtain m' where m: "m = Suc m'" "n \<le> m'" by (cases m) auto
    show ?case
    proof (cases "\<exists>s1 k r1 r2. skip_ws s = CHR 0x22 # s1 \<and> parse_str s1 = Some (k, r1) \<and> skip_ws r1 = CHR '':'' # r2")
      case False
      then show ?thesis by (auto simp: m split: list.splits option.splits)
    next
      case True
      then obtain s1 k r1 r2 where h: "skip_ws s = CHR 0x22 # s1" "parse_str s1 = Some (k, r1)"
        "skip_ws r1 = CHR '':'' # r2" by blast
      have r2: "length r2 < length s"
        using skip_ws_Cons [OF h(1)] parse_str_length [OF h(2)] skip_ws_Cons [OF h(3)] by linarith
      then have v: "parse_value m' r2 = parse_value n r2" using 3 m(2) by (intro Suc.IH(1)) auto
      show ?thesis
      proof (cases "parse_value n r2")
        case None
        then show ?thesis by (simp add: m h v)
      next
        case (Some x)
        then obtain u r3 where x: "parse_value n r2 = Some (u, r3)" by (cases x) auto
        have "parse_members m' r4 = parse_members n r4" if "skip_ws r3 = c # r4" for c r4
          using parse_length(1) [OF x] skip_ws_Cons [OF that] r2 3 m(2) by (intro Suc.IH(3)) linarith+
        then show ?thesis by (cases "skip_ws r3") (simp_all add: m h v x)
      qed
    qed
  }
qed simp_all

lemma json_stream_fuel: "2 * length s < n \<Longrightarrow> parse_value n s = json_stream s"
  using parse_fuel(1) [of s "2 * length s + 1" n] by (simp add: json_stream_def)

section \<open>Round trip\<close>

lemma hex_char_digits:
  assumes "n < 16"
  shows "is_hex (hex_char n) \<and> hex_val (hex_char n) = n"
proof -
  have "n \<in> set [0..<16]" using assms by simp
  moreover have "list_all (\<lambda>n. is_hex (hex_char n) \<and> hex_val (hex_char n) = n) [0..<16]" by code_simp
  ultimately show ?thesis unfolding list_all_iff by blast
qed

lemma hex4_u_escape:
  assumes "of_char c < (256::nat)"
  shows "hex4 (''00'' @ [hex_char (of_char c div 16), hex_char (of_char c mod 16)] @ t) = Some (of_char c)"
proof -
  have d: "of_char c div 16 < (16::nat)" using assms by (intro less_mult_imp_div_less) simp
  have z: "is_hex (CHR ''0'')" "hex_val (CHR ''0'') = 0" by code_simp+
  show ?thesis using hex_char_digits [OF d] hex_char_digits [of "of_char c mod 16"] z
    by (simp add: hex4_def)
qed

definition short_escapes :: "char list" where
  "short_escapes = [CHR 0x22, CHR 0x5C, CHR 0x08, CHR 0x0C, CHR 0x0A, CHR 0x0D, CHR 0x09]"

lemma escape_char_cases:
  "c \<in> set short_escapes \<or> escape_char c = u_escape c \<and> of_char c < (128::nat)
   \<or> escape_char c = [c] \<and> c \<noteq> CHR 0x22 \<and> c \<noteq> CHR 0x5C \<and> \<not> of_char c < (32::nat)"
proof (cases "c \<in> set short_escapes")
  case False
  show ?thesis
  proof (cases "of_char c < (32::nat) \<or> c = CHR ''<'' \<or> c = CHR ''>'' \<or> c = CHR ''&''")
    case True
    then have "escape_char c = u_escape c" using False by (simp add: escape_char_def short_escapes_def)
    moreover have "of_char c < (128::nat)" using True by auto
    ultimately show ?thesis by simp
  next
    case c: False
    then have "escape_char c = [c]" using False by (simp add: escape_char_def short_escapes_def)
    then show ?thesis using False c by (simp add: short_escapes_def)
  qed
qed simp

lemma parse_str_backslash:
  "parse_str (CHR 0x5C # CHR ''u'' # t) =
     (case hex4 t of None \<Rightarrow> None | Some n \<Rightarrow>
        if 0xD800 \<le> n \<and> n < 0xE000 then
          (if n < 0xDC00 then
             (case low_surrogate (drop 4 t) of
                Some l \<Rightarrow> prepend (utf8 (0x10000 + (n - 0xD800) * 1024 + (l - 0xDC00))) (parse_str (drop 10 t))
              | None \<Rightarrow> prepend (utf8 0xFFFD) (parse_str (drop 4 t)))
           else prepend (utf8 0xFFFD) (parse_str (drop 4 t)))
        else prepend (utf8 n) (parse_str (drop 4 t)))"
  "unescape_char e = Some ch \<Longrightarrow> parse_str (CHR 0x5C # e # t) = prepend [ch] (parse_str t)"
  by (auto simp: parse_str.simps(2) unescape_char_def split: if_splits)

lemma parse_str_escape: "parse_str (escape_char c @ t) = prepend [c] (parse_str t)"
  using escape_char_cases [of c]
proof (elim disjE conjE)
  assume "c \<in> set short_escapes"
  then have "\<exists>e. escape_char c = [CHR 0x5C, e] \<and> unescape_char e = Some c"
    by (auto simp: short_escapes_def escape_char_def unescape_char_def)
  then show ?thesis using parse_str_backslash(2) by fastforce
next
  assume c: "escape_char c = u_escape c" "of_char c < (128::nat)"
  then have "hex4 (CHR ''0'' # CHR ''0'' # hex_char (of_char c div 16) # hex_char (of_char c mod 16) # t) = Some (of_char c)"
    using hex4_u_escape [of c t] by simp
  then show ?thesis using c by (simp add: u_escape_def parse_str_backslash(1) utf8_def)
next
  assume "escape_char c = [c]" "c \<noteq> CHR 0x22" "c \<noteq> CHR 0x5C" "\<not> of_char c < (32::nat)"
  then show ?thesis by (simp add: parse_str.simps(2))
qed

lemma parse_print_str: "parse_str (concat (map escape_char s) @ CHR 0x22 # r) = Some (s, r)"
  by (induction s) (simp_all add: parse_str_escape prepend_def parse_str.simps(2))

text \<open>Decimal numbers.\<close>

lemma digit_char_digit:
  assumes "d < 10"
  shows "is_digit (digit_char d) \<and> digit_val (digit_char d) = d \<and> (digit_char d = CHR ''0'' \<longrightarrow> d = 0)"
proof -
  have "d \<in> set [0..<10]" using assms by simp
  moreover have "list_all (\<lambda>d. is_digit (digit_char d) \<and> digit_val (digit_char d) = d
      \<and> (digit_char d = CHR ''0'' \<longrightarrow> d = 0)) [0..<10]" by code_simp
  ultimately show ?thesis unfolding list_all_iff by blast
qed

lemma nat_digits_props:
  "nat_digits n \<noteq> [] \<and> list_all is_digit (nat_digits n) \<and> digits_val (nat_digits n) = n
   \<and> (hd (nat_digits n) = CHR ''0'' \<longrightarrow> n = 0)"
proof (induction n rule: nat_digits.induct)
  case (1 n)
  show ?case
  proof (cases "n < 10")
    case True
    then have "nat_digits n = [digit_char n]" by (subst nat_digits.simps) simp
    then show ?thesis using digit_char_digit [OF True] by (simp add: digits_val_def)
  next
    case False
    then have e: "nat_digits n = nat_digits (n div 10) @ [digit_char (n mod 10)]" by (subst nat_digits.simps) simp
    show ?thesis
      using 1 [OF False] digit_char_digit [of "n mod 10"] False unfolding e by (auto simp: digits_val_def)
  qed
qed

lemma nat_digits_0: "nat_digits 0 = ''0''"
  by code_simp

lemma digit_not_minus: "is_digit c \<Longrightarrow> c \<noteq> CHR ''-'' \<and> c \<noteq> CHR ''+''"
  by (auto simp: is_digit_def less_eq_char_def)

lemma Atoi_Itoa:
  assumes "- (2 ^ 63) \<le> i" "i < 2 ^ 63"
  shows "Atoi (Itoa i) = Inr i"
proof -
  note p = nat_digits_props
  show ?thesis
  proof (cases "i < 0")
    case True
    then show ?thesis using p [of "nat (- i)"] assms by (simp add: Itoa_def Atoi_def Let_def)
  next
    case False
    then obtain c cs where c: "nat_digits (nat i) = c # cs" using p [of "nat i"] by (cases "nat_digits (nat i)") auto
    then show ?thesis
      using p [of "nat i"] False assms digit_not_minus [of c] by (auto simp: Itoa_def Atoi_def Let_def)
  qed
qed

text \<open>What may follow a number without being part of it.\<close>

definition delim :: "string \<Rightarrow> bool" where
  "delim r \<longleftrightarrow> r = [] \<or> hd r = nl \<or> hd r = CHR '',''"

lemma delim_no_digit: "delim r \<Longrightarrow> r \<noteq> [] \<Longrightarrow> \<not> is_digit (hd r) \<and> hd r \<notin> {CHR ''.'', CHR ''e'', CHR ''E''}"
  by (auto simp: delim_def is_digit_def less_eq_char_def)

lemma digits1_append:
  assumes "ds \<noteq> []" "list_all is_digit ds" "delim r"
  shows "digits1 (ds @ r) = Some (ds, r)"
proof -
  have "takeWhile is_digit r = []" using delim_no_digit [OF assms(3)] by (cases r) auto
  then have "takeWhile is_digit (ds @ r) = ds" using assms(2) by (simp add: list_all_iff)
  then show ?thesis using assms(1) by (simp add: digits1_def)
qed

lemma parse_number_digits:
  assumes "ds \<noteq> []" "list_all is_digit ds" "delim r" "hd ds = CHR ''0'' \<Longrightarrow> ds = ''0''"
  shows "int_part (ds @ r) = Some (ds, r)" "frac_part r = Some ([], r)" "exp_part r = Some ([], r)"
proof -
  show "int_part (ds @ r) = Some (ds, r)"
    using assms digits1_append by (cases "hd ds = CHR ''0''") (auto simp: int_part_def)
  show "frac_part r = Some ([], r)" "exp_part r = Some ([], r)"
    using delim_no_digit [OF assms(3)] by (auto simp: frac_part_def exp_part_def)
qed

lemma parse_number_Itoa:
  assumes "delim r"
  shows "parse_number (Itoa i @ r) = Some (Itoa i, r)"
proof -
  define n where "n = nat \<bar>i\<bar>"
  note p = nat_digits_props [of n]
  have z: "hd (nat_digits n) = CHR ''0'' \<Longrightarrow> nat_digits n = ''0''" using p nat_digits_0 by auto
  have i: "Itoa i = (if i < 0 then ''-'' else []) @ nat_digits n"
    by (simp add: Itoa_def n_def)
  have "is_digit (hd (nat_digits n))" using p by (cases "nat_digits n") auto
  then have "hd (nat_digits n @ r) \<noteq> CHR ''-''" using p digit_not_minus by auto
  then show ?thesis
    unfolding i parse_number_def using parse_number_digits [OF _ _ assms z] p by (auto simp: Let_def)
qed

lemma Itoa_head: "Itoa i \<noteq> [] \<and> (hd (Itoa i) = CHR ''-'' \<or> is_digit (hd (Itoa i)))"
  using nat_digits_props [of "nat i"] nat_digits_props [of "nat (- i)"]
  by (cases "nat_digits (nat i)") (auto simp: Itoa_def)

text \<open>Trees whose numbers are integer literals in canonical form.\<close>

definition num_ok :: "string \<Rightarrow> bool" where
  "num_ok n = (case Atoi n of Inl e \<Rightarrow> False | Inr i \<Rightarrow> Itoa i = n)"

fun json_ok :: "json \<Rightarrow> bool" where
  "json_ok (JNum n) = num_ok n"
| "json_ok (JArr vs) = list_all json_ok vs"
| "json_ok (JObj ms) = list_all (\<lambda>m. json_ok (snd m)) ms"
| "json_ok _ = True"

lemma num_ok_Itoa: "num_ok n \<Longrightarrow> \<exists>i. n = Itoa i"
  by (auto simp: num_ok_def split: sum.splits)

lemma skip_ws_nonspace: "\<not> json_space c \<Longrightarrow> skip_ws (c # t) = c # t"
  by (simp add: skip_ws_def)

lemma skip_ws_idem [simp]: "skip_ws (skip_ws s) = skip_ws s"
  by (simp add: skip_ws_def)

lemma skip_ws_indent [simp]: "skip_ws (newline_indent d @ t) = skip_ws t"
proof -
  have "skip_ws (concat (replicate d ''  '') @ t) = skip_ws t"
    by (induction d) (simp_all add: skip_ws_def json_space_def)
  then show ?thesis by (simp add: newline_indent_def skip_ws_def json_space_def)
qed

lemma parse_skip_ws [simp]:
  "parse_value n (skip_ws s) = parse_value n s"
  "parse_elems n (skip_ws s) = parse_elems n s"
  "parse_members n (skip_ws s) = parse_members n s"
proof -
  show v: "parse_value n (skip_ws s) = parse_value n s" for n by (cases n) simp_all
  show "parse_elems n (skip_ws s) = parse_elems n s" by (cases n) (simp_all add: v)
  show "parse_members n (skip_ws s) = parse_members n s" by (cases n) simp_all
qed

lemma parse_indent [simp]:
  "parse_value n (newline_indent d @ s) = parse_value n s"
  "parse_elems n (newline_indent d @ s) = parse_elems n s"
  "parse_members n (newline_indent d @ s) = parse_members n s"
  by (metis parse_skip_ws(1) skip_ws_indent, metis parse_skip_ws(2) skip_ws_indent,
      metis parse_skip_ws(3) skip_ws_indent)

lemma json_punct [simp]:
  "\<not> json_space (CHR 0x22)" "\<not> json_space (CHR 0x7B)" "\<not> json_space (CHR 0x7D)" "\<not> json_space (CHR ''['')"
  "\<not> json_space (CHR '']'')" "\<not> json_space (CHR '','')" "\<not> json_space (CHR '':'')"
  "json_space (CHR '' '')" "json_space nl"
  by (simp_all add: json_space_def)

lemma print_head:
  assumes "json_ok v"
  shows "\<exists>c t. print_json d v = c # t \<and> \<not> json_space c \<and> c \<noteq> CHR '']'' \<and> c \<noteq> CHR 0x7D"
proof (cases v)
  case (JNum n)
  then obtain i where "n = Itoa i" using assms num_ok_Itoa by auto
  then obtain c t where "n = c # t" "c = CHR ''-'' \<or> is_digit c"
    using Itoa_head [of i] by (metis list.collapse)
  moreover from this have "\<not> json_space c \<and> c \<noteq> CHR '']'' \<and> c \<noteq> CHR 0x7D"
    by (auto simp: json_space_def is_digit_def less_eq_char_def)
  ultimately show ?thesis using JNum by auto
qed (auto simp: print_str_def json_space_def)

lemma delim_indent [simp]: "delim (newline_indent d @ r)" "delim (CHR '','' # r)" "delim []"
  by (simp_all add: delim_def newline_indent_def)

lemma literal_append: "literal name v (name @ r) = Some (v, r)"
  by (simp add: literal_def)

lemma print_parse:
  "json_ok v \<Longrightarrow> delim r \<Longrightarrow> \<exists>N. \<forall>n \<ge> N. parse_value n (print_json d v @ r) = Some (v, r)"
  "vs \<noteq> [] \<Longrightarrow> list_all json_ok vs \<Longrightarrow>
     \<exists>N. \<forall>n \<ge> N. parse_elems n (print_elems d vs @ newline_indent d' @ '']'' @ r) = Some (vs, r)"
  "ms \<noteq> [] \<Longrightarrow> list_all (\<lambda>m. json_ok (snd m)) ms \<Longrightarrow>
     \<exists>N. \<forall>n \<ge> N. parse_members n (print_members d ms @ newline_indent d' @ CHR 0x7D # r) = Some (ms, r)"
proof (induction d v and d vs and d ms arbitrary: r and d' r and d' r rule: print_json_print_elems_print_members.induct)
  case (1 d)
  have "parse_value (Suc n) (print_json d JNull @ r) = Some (JNull, r)" for n
    using literal_append [of "''null''" JNull r] by (simp add: skip_ws_nonspace json_space_def is_digit_def)
  then show ?case by (metis Suc_le_D)
next
  case (2 d b)
  have "parse_value (Suc n) (print_json d (JBool b) @ r) = Some (JBool b, r)" for n
    using literal_append [of "''true''" "JBool True" r] literal_append [of "''false''" "JBool False" r]
    by (simp add: skip_ws_nonspace json_space_def is_digit_def)
  then show ?case by (metis Suc_le_D)
next
  case (3 d x)
  then obtain i where i: "x = Itoa i" using num_ok_Itoa by auto
  obtain c t where ct: "print_json d (JNum x) = c # t" "\<not> json_space c" using print_head [OF 3(1), of d] by auto
  have h: "c = CHR ''-'' \<or> is_digit c" using ct Itoa_head [of i] by (auto simp: i)
  then have "c \<noteq> CHR 0x22" "c \<noteq> CHR 0x7B" "c \<noteq> CHR ''[''" by (auto simp: is_digit_def less_eq_char_def)
  then have "parse_value (Suc n) (print_json d (JNum x) @ r) = Some (JNum x, r)" for n
    using ct h parse_number_Itoa [OF 3(2), of i] by (simp add: skip_ws_nonspace i)
  then show ?case by (metis Suc_le_D)
next
  case (4 d s)
  have "parse_value (Suc n) (print_json d (JStr s) @ r) = Some (JStr s, r)" for n
    using parse_print_str [of s r] by (simp add: print_str_def skip_ws_nonspace)
  then show ?case by (metis Suc_le_D)
next
  case (5 d vs)
  show ?case
  proof (cases "vs = []")
    case True
    then have "parse_value (Suc n) (print_json d (JArr vs) @ r) = Some (JArr vs, r)" for n
      by (simp add: skip_ws_nonspace)
    then show ?thesis by (metis Suc_le_D)
  next
    case False
    let ?t = "print_elems (Suc d) vs @ newline_indent d @ '']'' @ r"
    obtain N where N: "\<And>n. n \<ge> N \<Longrightarrow> parse_elems n ?t = Some (vs, r)"
      using 5 False by fastforce
    obtain v vs' where vs: "vs = v # vs'" using False by (cases vs) auto
    obtain c t where "print_json (Suc d) v = c # t" "\<not> json_space c" "c \<noteq> CHR '']''"
      using print_head [of v "Suc d"] 5(2) vs by auto
    then obtain t' where t': "skip_ws ?t = c # t'" "c \<noteq> CHR '']''" by (simp add: vs skip_ws_nonspace)
    have "parse_value (Suc n) (print_json d (JArr vs) @ r) = Some (JArr vs, r)" if "n \<ge> N" for n
    proof -
      have "parse_elems n (c # t') = Some (vs, r)" using N [OF that] parse_skip_ws(2) [of n ?t] unfolding t'(1) by metis
      then show ?thesis using t' False by (simp add: skip_ws_nonspace)
    qed
    then have "\<forall>n \<ge> Suc N. parse_value n (print_json d (JArr vs) @ r) = Some (JArr vs, r)"
      by (metis Suc_le_D Suc_le_mono)
    then show ?thesis by blast
  qed
next
  case (6 d ms)
  show ?case
  proof (cases "ms = []")
    case True
    then have "parse_value (Suc n) (print_json d (JObj ms) @ r) = Some (JObj ms, r)" for n
      by (simp add: skip_ws_nonspace)
    then show ?thesis by (metis Suc_le_D)
  next
    case False
    let ?t = "print_members (Suc d) ms @ newline_indent d @ CHR 0x7D # r"
    obtain N where N: "\<And>n. n \<ge> N \<Longrightarrow> parse_members n ?t = Some (ms, r)"
      using 6 False by fastforce
    obtain k v ms' where ms: "ms = (k, v) # ms'" using False by (cases ms) auto
    obtain t' where t': "skip_ws ?t = CHR 0x22 # t'" by (simp add: ms print_str_def skip_ws_nonspace)
    have "parse_value (Suc n) (print_json d (JObj ms) @ r) = Some (JObj ms, r)" if "n \<ge> N" for n
    proof -
      have "parse_members n (CHR 0x22 # t') = Some (ms, r)" using N [OF that] parse_skip_ws(3) [of n ?t] unfolding t' by metis
      then show ?thesis using t' False by (simp add: skip_ws_nonspace)
    qed
    then have "\<forall>n \<ge> Suc N. parse_value n (print_json d (JObj ms) @ r) = Some (JObj ms, r)"
      by (metis Suc_le_D Suc_le_mono)
    then show ?thesis by blast
  qed
next
  case (8 d v vs)
  let ?r = "(if vs = [] then [] else '','' @ print_elems d vs) @ newline_indent d' @ '']'' @ r"
  have "delim ?r" by simp
  with 8(1,4) obtain N1 where N1: "\<And>n. n \<ge> N1 \<Longrightarrow> parse_value n (print_json d v @ ?r) = Some (v, ?r)"
    by fastforce
  obtain N2 where N2: "\<And>n. n \<ge> N2 \<Longrightarrow> vs \<noteq> [] \<Longrightarrow> parse_elems n (print_elems d vs @ newline_indent d' @ '']'' @ r) = Some (vs, r)"
    using 8(2,4) by fastforce
  have "parse_elems (Suc n) (print_elems d (v # vs) @ newline_indent d' @ '']'' @ r) = Some (v # vs, r)"
    if "n \<ge> N1" "n \<ge> N2" for n
    using N1 [OF that(1)] N2 [OF that(2)] by (cases "vs = []") (simp_all add: skip_ws_nonspace)
  then have "\<forall>n \<ge> Suc (max N1 N2). parse_elems n (print_elems d (v # vs) @ newline_indent d' @ '']'' @ r) = Some (v # vs, r)"
    by (metis Suc_le_D Suc_le_mono max.bounded_iff)
  then show ?case by blast
next
  case (10 d k v ms)
  let ?r = "(if ms = [] then [] else '','' @ print_members d ms) @ newline_indent d' @ CHR 0x7D # r"
  have "delim ?r" by simp
  with 10(1,4) obtain N1 where N1: "\<And>n. n \<ge> N1 \<Longrightarrow> parse_value n (print_json d v @ ?r) = Some (v, ?r)"
    by fastforce
  obtain N2 where N2: "\<And>n. n \<ge> N2 \<Longrightarrow> ms \<noteq> [] \<Longrightarrow> parse_members n (print_members d ms @ newline_indent d' @ CHR 0x7D # r) = Some (ms, r)"
    using 10(2,4) by fastforce
  have sp: "parse_value n (CHR '' '' # s) = parse_value n s" for n s
    by (metis (mono_tags) parse_skip_ws(1) skip_ws_def dropWhile.simps(2) json_punct(8))
  have "parse_members (Suc n) (print_members d ((k, v) # ms) @ newline_indent d' @ CHR 0x7D # r) = Some ((k, v) # ms, r)"
    if "n \<ge> N1" "n \<ge> N2" for n
    using N1 [OF that(1)] N2 [OF that(2)]
    by (cases "ms = []") (simp_all add: skip_ws_nonspace print_str_def parse_print_str sp)
  then have "\<forall>n \<ge> Suc (max N1 N2). parse_members n (print_members d ((k, v) # ms) @ newline_indent d' @ CHR 0x7D # r) = Some ((k, v) # ms, r)"
    by (metis Suc_le_D Suc_le_mono max.bounded_iff)
  then show ?case by blast
qed simp_all

lemma json_document_MarshalIndent:
  assumes "json_ok v"
  shows "json_document (MarshalIndent v) = Some v"
proof -
  let ?s = "print_json 0 v"
  obtain N where N: "\<And>n. n \<ge> N \<Longrightarrow> parse_value n (?s @ []) = Some (v, [])"
    using print_parse(1) [OF assms, of "[]" 0] by auto
  then have "parse_value (max N (2 * length ?s + 1)) ?s = Some (v, [])" by simp
  then have "json_stream ?s = Some (v, [])" using json_stream_fuel [of ?s "max N (2 * length ?s + 1)"] by simp
  then show ?thesis by (simp add: json_document_def MarshalIndent_def skip_ws_def)
qed

end
