(* ===== verification/Metadata.thy ===== *)
theory Metadata
  imports Go_OS Json_Props
begin

text \<open>
  \<open>internal/metadata/metadata.go\<close>: the KEP-5304 metadata files of a prepared VM claim, one
  per request, their generation lifecycle, and their removal.

  The loop over the requests ranges over a Go map, so the operation takes the iteration
  order as a parameter. \<open>json.MarshalIndent\<close> cannot fail on these types (strings, integers,
  slices, maps and pointers to strings), so its error branch is left out.
\<close>

section \<open>Constants and types\<close>

definition metadataSubDir :: string where "metadataSubDir = ''dra-device-metadata''"
definition metadataContainerBase :: string where
  "metadataContainerBase = ''/var/run/kubernetes.io/dra-device-attributes''"
definition metadataFileName :: string where "metadataFileName = ''metadata.json''"
definition metadataFileMode :: nat where "metadataFileMode = 0x1A4"
definition metadataDirMode :: nat where "metadataDirMode = 0x1E8"
definition resourceClaimsSubdir :: string where "resourceClaimsSubdir = ''resourceclaims''"
definition resourceClaimTemplatesSubdir :: string where
  "resourceClaimTemplatesSubdir = ''resourceclaimtemplates''"
definition metadataKind :: string where "metadataKind = ''DeviceMetadata''"
definition metadataAPIVersion :: string where "metadataAPIVersion = ''metadata.resource.k8s.io/v1alpha1''"
definition PodClaimNameAnnotation :: string where
  "PodClaimNameAnnotation = ''resource.kubernetes.io/pod-claim-name''"

record ObjectMeta =
  om_Name :: string
  om_Namespace :: string
  om_UID :: string
  om_Generation :: int

text \<open>An attribute holds a pointer to a string; \<open>None\<close> is nil and is omitted from the JSON.\<close>

record DeviceEntry =
  de_Driver :: string
  de_Pool :: string
  de_Name :: string
  de_Attributes :: "string option gomap"

record RequestDevices =
  rd_Name :: string
  rd_Devices :: "DeviceEntry list"

record DeviceMetadata =
  dm_Kind :: string
  dm_APIVersion :: string
  dm_Metadata :: ObjectMeta
  dm_PodClaimName :: "string option"
  dm_Requests :: "RequestDevices list"

record DeviceInfo =
  di_Driver :: string
  di_Pool :: string
  di_Name :: string

record ClaimParams =
  cp_PluginDataDir :: string
  cp_ClaimName :: string
  cp_ClaimNamespace :: string
  cp_ClaimUID :: string
  cp_DriverName :: string
  cp_MdevUUID :: string
  cp_PodClaimName :: string
  cp_RequestDevices :: "DeviceInfo list gomap"

record Mount =
  mnt_HostPath :: string
  mnt_ContainerPath :: string

section \<open>The JSON form\<close>

text \<open>
  The tree the struct tags describe. Maps are printed by key order; the driver's attribute
  map has a single key.
\<close>

definition attribute_json :: "string option \<Rightarrow> json" where
  "attribute_json a = JObj (case a of None \<Rightarrow> [] | Some s \<Rightarrow> [(''string'', JStr s)])"

definition entry_json :: "DeviceEntry \<Rightarrow> json" where
  "entry_json e = JObj [(''driver'', JStr (de_Driver e)), (''pool'', JStr (de_Pool e)), (''name'', JStr (de_Name e)),
     (''attributes'', JObj (map (\<lambda>(k, a). (k, attribute_json a)) (de_Attributes e)))]"

definition request_json :: "RequestDevices \<Rightarrow> json" where
  "request_json r = JObj [(''name'', JStr (rd_Name r)), (''devices'', JArr (map entry_json (rd_Devices r)))]"

definition object_json :: "ObjectMeta \<Rightarrow> json" where
  "object_json m = JObj [(''name'', JStr (om_Name m)), (''namespace'', JStr (om_Namespace m)),
     (''uid'', JStr (om_UID m)), (''generation'', JNum (Itoa (om_Generation m)))]"

definition metadata_json :: "DeviceMetadata \<Rightarrow> json" where
  "metadata_json d = JObj ([(''kind'', JStr (dm_Kind d)), (''apiVersion'', JStr (dm_APIVersion d)),
      (''metadata'', object_json (dm_Metadata d))]
    @ (case dm_PodClaimName d of None \<Rightarrow> [] | Some n \<Rightarrow> [(''podClaimName'', JStr n)])
    @ [(''requests'', JArr (map request_json (dm_Requests d)))])"

definition render :: "DeviceMetadata \<Rightarrow> string" where
  "render d = MarshalIndent (metadata_json d)"

text \<open>The same struct as a type to decode into, and the generation a decoded file carries.\<close>

definition object_fields :: "(string \<times> gotype) list" where
  "object_fields = [(''name'', TString), (''namespace'', TString), (''uid'', TString), (''generation'', TInt64)]"

definition metadata_fields :: "(string \<times> gotype) list" where
  "metadata_fields =
     [(''kind'', TString), (''apiVersion'', TString), (''metadata'', TStruct object_fields), (''podClaimName'', TString),
      (''requests'', TSlice (TStruct [(''name'', TString),
         (''devices'', TSlice (TStruct [(''driver'', TString), (''pool'', TString), (''name'', TString),
            (''attributes'', TMap (TStruct [(''string'', TString)]))]))]))]"

definition decoded_generation :: "json \<Rightarrow> int" where
  "decoded_generation v =
     (case rev (concat (map (field_values (map fst object_fields) ''generation'')
                         (field_values (map fst metadata_fields) ''metadata'' v))) of
        JNum n # _ \<Rightarrow> (case int64_literal n of None \<Rightarrow> 0 | Some i \<Rightarrow> i)
      | _ \<Rightarrow> 0)"

text \<open>\<open>json.Unmarshal(prevRaw, &prev)\<close>: the generation, or \<open>None\<close> for an error.\<close>

definition unmarshal_generation :: "string \<Rightarrow> int option" where
  "unmarshal_generation raw =
     (case json_document raw of
        None \<Rightarrow> None
      | Some v \<Rightarrow> if fits False (TStruct metadata_fields) v then Some (decoded_generation v) else None)"

section \<open>Writing\<close>

definition set_generation :: "int \<Rightarrow> DeviceMetadata \<Rightarrow> DeviceMetadata" where
  "set_generation g d = d\<lparr>dm_Metadata := (dm_Metadata d)\<lparr>om_Generation := g\<rparr>\<rparr>"

text \<open>The generation of a rewrite over the file read back, lines 176 to 184.\<close>

definition resolve_generation :: "goerr + string \<Rightarrow> DeviceMetadata \<Rightarrow> DeviceMetadata" where
  "resolve_generation prevFile meta =
     (case prevFile of
        Inl err \<Rightarrow> meta
      | Inr prevRaw \<Rightarrow>
          (case unmarshal_generation prevRaw of
             None \<Rightarrow> meta
           | Some g \<Rightarrow>
               if g \<ge> 1 then
                 (let meta1 = set_generation g meta in
                  if render meta1 \<noteq> prevRaw then set_generation (wrap64 (g + 1)) meta1 else meta1)
               else meta))"

definition new_metadata :: "ClaimParams \<Rightarrow> string \<Rightarrow> DeviceInfo \<Rightarrow> DeviceMetadata" where
  "new_metadata p requestName d =
     \<lparr>dm_Kind = metadataKind, dm_APIVersion = metadataAPIVersion,
      dm_Metadata = \<lparr>om_Name = cp_ClaimName p, om_Namespace = cp_ClaimNamespace p, om_UID = cp_ClaimUID p,
                     om_Generation = 1\<rparr>,
      dm_PodClaimName = (if cp_PodClaimName p \<noteq> [] then Some (cp_PodClaimName p) else None),
      dm_Requests = [\<lparr>rd_Name = requestName,
        rd_Devices = [\<lparr>de_Driver = di_Driver d, de_Pool = di_Pool d, de_Name = di_Name d,
                       de_Attributes = [(''mdevUUID'', Some (cp_MdevUUID p))]\<rparr>]\<rparr>]\<rparr>"

definition metadata_host_dir :: "ClaimParams \<Rightarrow> string \<Rightarrow> string" where
  "metadata_host_dir p requestName = Join [cp_PluginDataDir p, metadataSubDir, cp_ClaimUID p, requestName]"

definition metadata_host_path :: "ClaimParams \<Rightarrow> string \<Rightarrow> string" where
  "metadata_host_path p requestName = Join [metadata_host_dir p requestName, metadataFileName]"

definition metadata_container_path :: "ClaimParams \<Rightarrow> string \<Rightarrow> string" where
  "metadata_container_path p requestName =
     (let subdir = (if cp_PodClaimName p \<noteq> [] then resourceClaimTemplatesSubdir else resourceClaimsSubdir);
          claimRefName = (if cp_PodClaimName p \<noteq> [] then cp_PodClaimName p else cp_ClaimName p)
      in Join [metadataContainerBase, subdir, claimRefName, requestName, cp_DriverName p @ ''-metadata.json''])"

text \<open>The body of the request loop.\<close>

definition generate_request ::
  "'w os \<Rightarrow> ClaimParams \<Rightarrow> string \<Rightarrow> DeviceInfo list \<Rightarrow> 'w \<Rightarrow> (goerr + Mount option) \<times> 'w" where
  "generate_request os p requestName devices w =
     (case devices of
        [] \<Rightarrow> (Inr None, w)
      | d # _ \<Rightarrow>
          (let hostDir = metadata_host_dir p requestName;
               hostPath = metadata_host_path p requestName;
               meta = resolve_generation (os_ReadFile os hostPath w) (new_metadata p requestName d);
               data = render meta
           in case os_MkdirAll os hostDir metadataDirMode w of
                (Some err, w1) \<Rightarrow> (Inl (Wrapf ''create metadata directory %s: %w'' [FStr hostDir] err), w1)
              | (None, w1) \<Rightarrow>
                  (case os_WriteFile os hostPath data metadataFileMode w1 of
                     (Some err, w2) \<Rightarrow> (Inl (Wrapf ''write metadata file %s: %w'' [FStr hostPath] err), w2)
                   | (None, w2) \<Rightarrow>
                       (Inr (Some \<lparr>mnt_HostPath = hostPath, mnt_ContainerPath = metadata_container_path p requestName\<rparr>), w2))))"

fun generate_requests :: "'w os \<Rightarrow> ClaimParams \<Rightarrow> string list \<Rightarrow> 'w \<Rightarrow> (goerr + Mount list) \<times> 'w" where
  "generate_requests os p [] w = (Inr [], w)"
| "generate_requests os p (requestName # names) w =
     (case generate_request os p requestName
             (case map_of (cp_RequestDevices p) requestName of None \<Rightarrow> [] | Some ds \<Rightarrow> ds) w of
        (Inl err, w1) \<Rightarrow> (Inl err, w1)
      | (Inr m, w1) \<Rightarrow>
          (case generate_requests os p names w1 of
             (Inl err, w2) \<Rightarrow> (Inl err, w2)
           | (Inr ms, w2) \<Rightarrow> (Inr ((case m of None \<Rightarrow> [] | Some x \<Rightarrow> [x]) @ ms), w2)))"

definition GenerateClaimMetadata ::
  "'w os \<Rightarrow> (string list \<Rightarrow> string list) \<Rightarrow> ClaimParams \<Rightarrow> 'w \<Rightarrow> (goerr + Mount list) \<times> 'w" where
  "GenerateClaimMetadata os order p w = generate_requests os p (order (map fst (cp_RequestDevices p))) w"

section \<open>Existence and removal\<close>

definition claim_metadata_dir :: "string \<Rightarrow> string \<Rightarrow> string" where
  "claim_metadata_dir pluginDataDir claimUID = Join [pluginDataDir, metadataSubDir, claimUID]"

definition ClaimMetadataExists :: "'w os \<Rightarrow> string \<Rightarrow> string \<Rightarrow> 'w \<Rightarrow> bool" where
  "ClaimMetadataExists os pluginDataDir claimUID w \<longleftrightarrow>
     os_Stat os (claim_metadata_dir pluginDataDir claimUID) w = None"

text \<open>The loop of the collector; the liveness test is a callback that looks at the world.\<close>

fun gc_metadata_entries :: "'w os \<Rightarrow> string \<Rightarrow> (string \<Rightarrow> 'w \<Rightarrow> bool) \<Rightarrow> dir_entry list \<Rightarrow> 'w \<Rightarrow> 'w" where
  "gc_metadata_entries os root live [] w = w"
| "gc_metadata_entries os root live (e # es) w =
     (if \<not> entry_is_dir e then gc_metadata_entries os root live es w
      else if live (entry_name e) w then gc_metadata_entries os root live es w
      else gc_metadata_entries os root live es (snd (os_RemoveAll os (Join [root, entry_name e]) w)))"

definition GCStaleClaimMetadata :: "'w os \<Rightarrow> string \<Rightarrow> (string \<Rightarrow> 'w \<Rightarrow> bool) \<Rightarrow> 'w \<Rightarrow> goerr option \<times> 'w" where
  "GCStaleClaimMetadata os pluginDataDir live w =
     (let root = Join [pluginDataDir, metadataSubDir] in
      case os_ReadDir os root w of
        Inl err \<Rightarrow>
          if os_IsNotExist err then (None, w)
          else (Some (Wrapf ''list metadata directories under %s: %w'' [FStr root] err), w)
      | Inr entries \<Rightarrow> (None, gc_metadata_entries os root live entries w))"

definition DeleteClaimMetadata :: "'w os \<Rightarrow> string \<Rightarrow> string \<Rightarrow> 'w \<Rightarrow> goerr option \<times> 'w" where
  "DeleteClaimMetadata os pluginDataDir claimUID w =
     (let claimDir = claim_metadata_dir pluginDataDir claimUID in
      case os_RemoveAll os claimDir w of
        (Some err, w1) \<Rightarrow> (Some (Wrapf ''remove metadata directory %s: %w'' [FStr claimDir] err), w1)
      | (None, w1) \<Rightarrow> (None, w1))"

end
