(* ===== verification/File_Store.thy ===== *)
theory File_Store
  imports Go_OS
begin

text \<open>
  What the driver relies on for the ordinary files it keeps (claim metadata and CDI specs),
  as a locale over the operating system parameter: \<open>F\<close> gives the content of every regular
  file, \<open>reg\<close> says which paths are ordinary files rather than kernel attributes. A failed
  write may leave anything in the file it was writing, but touches no other.

  The second locale is the contract of a best-effort garbage collector; both collectors of
  the driver are instances of it.
\<close>

definition under :: "string \<Rightarrow> string \<Rightarrow> bool" where
  "under p q \<longleftrightarrow> q = p \<or> HasPrefix q (p @ [slash])"

locale file_store =
  fixes os :: "'w os" and F :: "'w \<Rightarrow> string \<Rightarrow> string option" and reg :: "string \<Rightarrow> bool"
  assumes file_read: "reg p \<Longrightarrow> os_ReadFile os p w = Inr d \<Longrightarrow> F w p = Some d"
    and file_write: "reg p \<Longrightarrow> os_WriteFile os p d m w = (None, w') \<Longrightarrow> F w' = (F w)(p \<mapsto> d)"
    and file_write_failed: "reg p \<Longrightarrow> os_WriteFile os p d m w = (Some e, w') \<Longrightarrow> q \<noteq> p \<Longrightarrow> F w' q = F w q"
    and file_mkdir: "reg p \<Longrightarrow> os_MkdirAll os p m w = (r, w') \<Longrightarrow> F w' = F w"
    and file_remove: "reg p \<Longrightarrow> os_Remove os p w = (r, w') \<Longrightarrow> F w' = (if r = None then (F w)(p := None) else F w)"
    and file_remove_absent: "reg p \<Longrightarrow> os_Remove os p w = (Some e, w') \<Longrightarrow> os_IsNotExist e \<Longrightarrow> F w p = None"
    and file_remove_all: "reg p \<Longrightarrow> os_RemoveAll os p w = (None, w') \<Longrightarrow>
        F w' = (\<lambda>q. if under p q then None else F w q)"
    and file_remove_all_failed: "reg p \<Longrightarrow> os_RemoveAll os p w = (Some e, w') \<Longrightarrow>
        F w' q = F w q \<or> under p q \<and> F w' q = None"
begin

lemma file_write_other: "reg p \<Longrightarrow> os_WriteFile os p d m w = (r, w') \<Longrightarrow> q \<noteq> p \<Longrightarrow> F w' q = F w q"
  using file_write file_write_failed by (cases r) auto

lemma file_remove_all_other: "reg p \<Longrightarrow> os_RemoveAll os p w = (r, w') \<Longrightarrow> \<not> under p q \<Longrightarrow> F w' q = F w q"
  using file_remove_all [of p w w'] file_remove_all_failed [of p w _ w' q] by (cases r) auto

lemma file_remove_all_none: "reg p \<Longrightarrow> os_RemoveAll os p w = (r, w') \<Longrightarrow> F w q = None \<Longrightarrow> F w' q = None"
  using file_remove_all [of p w w'] file_remove_all_failed [of p w _ w' q] by (cases r) auto

end

text \<open>
  A collector goes through its items in order, skips an item without an owner or with a live
  one, and tries to remove the files of the others.
\<close>

fun gc_loop :: "('i \<Rightarrow> string option) \<Rightarrow> ('i \<Rightarrow> 'w \<Rightarrow> goerr option \<times> 'w) \<Rightarrow> (string \<Rightarrow> 'w \<Rightarrow> bool) \<Rightarrow> 'i list \<Rightarrow> 'w \<Rightarrow> 'w" where
  "gc_loop owner remove live [] w = w"
| "gc_loop owner remove live (i # is) w =
     (case owner i of
        None \<Rightarrow> gc_loop owner remove live is w
      | Some u \<Rightarrow>
          if live u w then gc_loop owner remove live is w
          else gc_loop owner remove live is (snd (remove i w)))"

locale stale_gc =
  fixes owner :: "'i \<Rightarrow> string option" and remove :: "'i \<Rightarrow> 'w \<Rightarrow> goerr option \<times> 'w"
    and live :: "string \<Rightarrow> 'w \<Rightarrow> bool" and F :: "'w \<Rightarrow> string \<Rightarrow> string option"
    and files :: "'i \<Rightarrow> string set" and good :: "'i \<Rightarrow> bool"
  assumes remove_frame: "good i \<Longrightarrow> remove i w = (r, w') \<Longrightarrow> q \<notin> files i \<Longrightarrow> F w' q = F w q"
    and remove_done: "good i \<Longrightarrow> remove i w = (None, w') \<Longrightarrow> q \<in> files i \<Longrightarrow> F w' q = None"
    and remove_keeps_none: "good i \<Longrightarrow> remove i w = (r, w') \<Longrightarrow> F w q = None \<Longrightarrow> F w' q = None"
    and live_stable: "good i \<Longrightarrow> remove i w = (r, w') \<Longrightarrow> good j \<Longrightarrow> owner j = Some u \<Longrightarrow> live u w' = live u w"
begin

definition stale :: "'w \<Rightarrow> 'i \<Rightarrow> bool" where
  "stale w i \<longleftrightarrow> (case owner i of None \<Rightarrow> False | Some u \<Rightarrow> \<not> live u w)"

lemma stale_stable: "good i \<Longrightarrow> good j \<Longrightarrow> stale (snd (remove i w)) j = stale w j"
  using live_stable [of i w "fst (remove i w)" "snd (remove i w)" j] by (auto simp: stale_def split: option.splits)

lemma gc_safe:
  assumes "\<forall>i \<in> set is. good i" and "\<forall>i \<in> set is. stale w i \<longrightarrow> q \<notin> files i"
  shows "F (gc_loop owner remove live is w) q = F w q"
  using assms
proof (induction "is" arbitrary: w)
  case (Cons i "is")
  let ?w1 = "snd (remove i w)"
  have st: "stale ?w1 j = stale w j" if "j \<in> set (i # is)" for j
    using Cons.prems(1) that by (intro stale_stable) auto
  show ?case
  proof (cases "stale w i")
    case True
    then have "gc_loop owner remove live (i # is) w = gc_loop owner remove live is ?w1"
      by (auto simp: stale_def split: option.splits)
    moreover have "F ?w1 q = F w q"
      using remove_frame [of i w "fst (remove i w)" ?w1 q] Cons.prems True by simp
    ultimately show ?thesis using Cons.IH [of ?w1] Cons.prems st by simp
  next
    case False
    then have "gc_loop owner remove live (i # is) w = gc_loop owner remove live is w"
      by (auto simp: stale_def split: option.splits)
    then show ?thesis using Cons by simp
  qed
qed simp

lemma gc_keeps_none:
  assumes "\<forall>i \<in> set is. good i" and "F w q = None"
  shows "F (gc_loop owner remove live is w) q = None"
  using assms
  by (induction "is" arbitrary: w) (auto simp: remove_keeps_none prod_eq_iff split: option.splits)

lemma gc_complete:
  assumes "\<forall>i \<in> set is. good i"
    and "\<And>i w. i \<in> set is \<Longrightarrow> fst (remove i w) = None \<or> (\<forall>q \<in> files i. F w q = None)"
    and "i \<in> set is" and "stale w i" and "q \<in> files i"
  shows "F (gc_loop owner remove live is w) q = None"
  using assms
proof (induction "is" arbitrary: w)
  case (Cons j "is")
  let ?w1 = "snd (remove j w)"
  have st: "stale ?w1 i = stale w i" if "i \<in> set (j # is)" for i
    using Cons.prems(1) that by (intro stale_stable) auto
  show ?case
  proof (cases "j = i")
    case True
    then have "gc_loop owner remove live (j # is) w = gc_loop owner remove live is ?w1"
      using Cons.prems(4) by (auto simp: stale_def split: option.splits)
    moreover have "F ?w1 q = None"
      using remove_done [of i w ?w1 q] remove_keeps_none [of i w "fst (remove i w)" ?w1 q] Cons.prems(1,5) Cons.prems(2) [of i w] True
      by (cases "fst (remove i w)") (auto simp: prod_eq_iff)
    ultimately show ?thesis using gc_keeps_none [of "is" ?w1 q] Cons.prems(1) by simp
  next
    case False
    then have "i \<in> set is" using Cons.prems(3) by simp
    then show ?thesis using Cons.IH [of w] Cons.IH [of ?w1] Cons.prems st by (auto split: option.splits)
  qed
qed simp

end

section \<open>The table of files\<close>

lemma mem_store: "file_store mem_os map_of (\<lambda>p. True)"
proof
  show "map_of w' = (\<lambda>q. if under p q then None else map_of w q)"
    if "os_RemoveAll mem_os p w = (None, w')" for p and w w' :: "string gomap"
  proof -
    have "w' = filter (\<lambda>(f, _). \<not> under p f) w" using that by (simp add: mem_os_def under_def)
    moreover have "map_of (filter (\<lambda>(f, _). \<not> under p f) w) q = (if under p q then None else map_of w q)" for q
      by (induction w) auto
    ultimately show ?thesis by (simp add: fun_eq_iff)
  qed
qed (auto simp: mem_os_def update_conv' delete_conv' fun_eq_iff split: option.splits if_splits)

interpretation mem: file_store mem_os map_of "\<lambda>p. True"
  by (rule mem_store)

end
