(* ===== verification/Metadata_Props.thy ===== *)
theory Metadata_Props
  imports Metadata File_Store
begin

text \<open>
  The generation lifecycle of the metadata files and what the collector removes.
\<close>

section \<open>Reading back what was written\<close>

definition int64 :: "int \<Rightarrow> bool" where
  "int64 i \<longleftrightarrow> - (2 ^ 63) \<le> i \<and> i < 2 ^ 63"

abbreviation (input) generation :: "DeviceMetadata \<Rightarrow> int" where
  "generation d \<equiv> om_Generation (dm_Metadata d)"

lemma int64_literal_Itoa: "int64 i \<Longrightarrow> int64_literal (Itoa i) = Some i"
  by (simp add: int64_def int64_literal_def Atoi_Itoa)

lemma num_ok_Itoa_int64: "int64 i \<Longrightarrow> num_ok (Itoa i)"
  by (simp add: int64_def num_ok_def Atoi_Itoa)

lemma json_ok_metadata: "int64 (generation d) \<Longrightarrow> json_ok (metadata_json d)"
  by (auto simp: metadata_json_def object_json_def request_json_def entry_json_def attribute_json_def
      num_ok_Itoa_int64 list_all_iff split: option.splits)

lemma attribute_json_inj: "attribute_json a = attribute_json b \<longleftrightarrow> a = b"
  by (auto simp: attribute_json_def split: option.splits)

lemma entry_json_inj: "entry_json e = entry_json e' \<longleftrightarrow> e = e'"
proof -
  have "map (\<lambda>(k, a). (k, attribute_json a)) xs = map (\<lambda>(k, a). (k, attribute_json a)) ys \<longleftrightarrow> xs = ys" for xs ys :: "string option gomap"
    by (rule inj_map_eq_map) (auto simp: inj_on_def attribute_json_inj)
  then show ?thesis by (cases e; cases e') (simp add: entry_json_def)
qed

lemma request_json_inj: "request_json r = request_json r' \<longleftrightarrow> r = r'"
proof -
  have "map entry_json xs = map entry_json ys \<longleftrightarrow> xs = ys" for xs ys
    by (rule inj_map_eq_map) (auto simp: inj_on_def entry_json_inj)
  then show ?thesis by (cases r; cases r') (simp add: request_json_def)
qed

lemma Itoa_inj: "int64 i \<Longrightarrow> int64 j \<Longrightarrow> Itoa i = Itoa j \<longleftrightarrow> i = j"
  using int64_literal_Itoa by (metis option.inject)

lemma metadata_json_inj:
  assumes "int64 (generation d)" "int64 (generation d')"
  shows "metadata_json d = metadata_json d' \<longleftrightarrow> d = d'"
proof -
  have "map request_json xs = map request_json ys \<longleftrightarrow> xs = ys" for xs ys
    by (rule inj_map_eq_map) (auto simp: inj_on_def request_json_inj)
  then show ?thesis
    using assms
    by (cases d; cases d'; cases "dm_Metadata d"; cases "dm_Metadata d'")
       (auto simp: metadata_json_def object_json_def Itoa_inj split: option.splits)
qed

lemma render_inj:
  assumes "int64 (generation d)" "int64 (generation d')"
  shows "render d = render d' \<longleftrightarrow> d = d'"
  using assms json_document_MarshalIndent [OF json_ok_metadata [of d]]
    json_document_MarshalIndent [OF json_ok_metadata [of d']] metadata_json_inj [of d d']
  unfolding render_def by (metis option.inject)

lemma fits_attribute: "fits False (TStruct [(''string'', TString)]) (attribute_json a)"
  by (auto simp: attribute_json_def field_name_def split: option.splits)

lemma fits_request:
  "fits False (TStruct [(''name'', TString), (''devices'', TSlice (TStruct [(''driver'', TString), (''pool'', TString),
     (''name'', TString), (''attributes'', TMap (TStruct [(''string'', TString)]))]))]) (request_json r)"
  using fits_attribute by (simp add: request_json_def entry_json_def list_all_iff field_name_def case_prod_beta)

lemma fits_metadata:
  assumes "int64 (generation d)"
  shows "fits False (TStruct metadata_fields) (metadata_json d)"
proof -
  have "fits False (TStruct object_fields) (object_json (dm_Metadata d))"
    using int64_literal_Itoa [OF assms] by (simp add: object_fields_def object_json_def field_name_def)
  then show ?thesis
    using fits_request
    by (cases "dm_PodClaimName d") (simp_all add: metadata_fields_def metadata_json_def field_name_def list_all_iff)
qed

lemma decoded_generation_json:
  assumes "int64 (generation d)"
  shows "decoded_generation (metadata_json d) = generation d"
proof -
  have "field_values (map fst metadata_fields) ''metadata'' (metadata_json d) = [object_json (dm_Metadata d)]"
    by (cases "dm_PodClaimName d")
       (simp_all add: field_values_def metadata_fields_def metadata_json_def object_json_def field_name_def)
  moreover have "field_values (map fst object_fields) ''generation'' (object_json (dm_Metadata d)) = [JNum (Itoa (generation d))]"
    by (simp add: field_values_def object_fields_def object_json_def field_name_def)
  ultimately show ?thesis using int64_literal_Itoa [OF assms] by (simp add: decoded_generation_def)
qed

lemma unmarshal_render: "int64 (generation d) \<Longrightarrow> unmarshal_generation (render d) = Some (generation d)"
  using json_document_MarshalIndent [OF json_ok_metadata] fits_metadata decoded_generation_json
  by (simp add: unmarshal_generation_def render_def)

section \<open>The lifecycle\<close>

definition same_content :: "DeviceMetadata \<Rightarrow> DeviceMetadata \<Rightarrow> bool" where
  "same_content d d' \<longleftrightarrow> set_generation 0 d = set_generation 0 d'"

lemma same_content_set: "same_content d d' \<longleftrightarrow> set_generation (generation d') d = d'"
  by (cases d; cases d'; cases "dm_Metadata d"; cases "dm_Metadata d'")
     (auto simp: same_content_def set_generation_def)

lemma resolve_generation_render:
  assumes "1 \<le> generation prev" and "generation prev < 2 ^ 63 - 1"
  shows "resolve_generation (Inr (render prev)) meta
       = set_generation (generation prev + (if same_content meta prev then 0 else 1)) meta"
proof -
  have i: "int64 (generation prev)" using assms by (simp add: int64_def)
  have "int64 (generation (set_generation (generation prev) meta))" using i by (simp add: set_generation_def)
  then have "render (set_generation (generation prev) meta) = render prev \<longleftrightarrow> same_content meta prev"
    using render_inj [OF _ i] same_content_set by blast
  moreover have "wrap64 (generation prev + 1) = generation prev + 1" using assms by (intro wrap64_id) auto
  ultimately show ?thesis
    using assms(1) unmarshal_render [OF i] by (auto simp: resolve_generation_def set_generation_def Let_def)
qed

lemma resolve_generation_again:
  assumes "1 \<le> generation (resolve_generation r meta)" "generation (resolve_generation r meta) < 2 ^ 63 - 1"
  shows "resolve_generation (Inr (render (resolve_generation r meta))) meta = resolve_generation r meta"
proof -
  let ?m = "resolve_generation r meta"
  have "same_content meta ?m"
    by (auto simp: resolve_generation_def same_content_def set_generation_def Let_def split: sum.splits option.splits)
  then show ?thesis using resolve_generation_render [OF assms] same_content_set by simp
qed

lemma resolve_generation_bounds:
  assumes "generation meta = 1" and "\<And>raw g. r = Inr raw \<Longrightarrow> unmarshal_generation raw = Some g \<Longrightarrow> g < 2 ^ 62"
  shows "1 \<le> generation (resolve_generation r meta)" "generation (resolve_generation r meta) < 2 ^ 63 - 1"
proof -
  have "1 \<le> generation (resolve_generation r meta) \<and> generation (resolve_generation r meta) < 2 ^ 63 - 1"
  proof (cases "\<exists>raw g. r = Inr raw \<and> unmarshal_generation raw = Some g \<and> 1 \<le> g")
    case True
    then obtain raw g where g: "r = Inr raw" "unmarshal_generation raw = Some g" "1 \<le> g" by blast
    moreover have "g < 2 ^ 62" using assms(2) g by blast
    moreover from this have "wrap64 (g + 1) = g + 1" using g(3) by (intro wrap64_id) auto
    ultimately show ?thesis by (auto simp: resolve_generation_def set_generation_def Let_def)
  next
    case False
    then have "resolve_generation r meta = meta"
      by (auto simp: resolve_generation_def split: sum.splits option.splits)
    then show ?thesis using assms(1) by simp
  qed
  then show "1 \<le> generation (resolve_generation r meta)" "generation (resolve_generation r meta) < 2 ^ 63 - 1"
    by auto
qed

section \<open>The files of a claim\<close>

text \<open>The parameters of a claim whose names are plain path components.\<close>

definition plain_params :: "ClaimParams \<Rightarrow> string list \<Rightarrow> bool" where
  "plain_params p ds \<longleftrightarrow> cp_PluginDataDir p = path_of ds \<and> ds \<noteq> [] \<and> list_all plain ds \<and> plain (cp_ClaimUID p)
     \<and> list_all plain (map fst (cp_RequestDevices p)) \<and> distinct (map fst (cp_RequestDevices p))"

definition request_devices :: "ClaimParams \<Rightarrow> string \<Rightarrow> DeviceInfo list" where
  "request_devices p r = (case map_of (cp_RequestDevices p) r of None \<Rightarrow> [] | Some ds \<Rightarrow> ds)"

lemma plain_metadata_consts [simp]: "plain metadataSubDir" "plain metadataFileName"
  by (simp_all add: plain_def metadataSubDir_def metadataFileName_def)

lemma metadata_host_path_of:
  assumes "plain_params p ds" "plain r"
  shows "metadata_host_path p r = path_of (ds @ [metadataSubDir, cp_ClaimUID p, r, metadataFileName])"
  using assms by (simp add: plain_params_def metadata_host_path_def metadata_host_dir_def Join_path_of list_all_iff)

lemma metadata_host_path_inj:
  assumes "plain_params p ds" "plain r" "plain r'"
  shows "metadata_host_path p r = metadata_host_path p r' \<longleftrightarrow> r = r'"
proof
  assume e: "metadata_host_path p r = metadata_host_path p r'"
  have "slash \<notin> set c" if "c \<in> set (ds @ [metadataSubDir, cp_ClaimUID p, x, metadataFileName])" "plain x" for c x
    using that assms(1) plain_metadata_consts by (auto simp: plain_params_def plain_def list_all_iff)
  then have "ds @ [metadataSubDir, cp_ClaimUID p, r, metadataFileName] = ds @ [metadataSubDir, cp_ClaimUID p, r', metadataFileName]"
    using e assms metadata_host_path_of [OF assms(1)] by (intro path_of_inj) auto
  then show "r = r'" by simp
qed simp

context file_store
begin

definition content :: "'w \<Rightarrow> string \<Rightarrow> goerr + string" where
  "content w p = (case F w p of None \<Rightarrow> Inl BadPattern | Some raw \<Rightarrow> Inr raw)"

definition written :: "ClaimParams \<Rightarrow> 'w \<Rightarrow> string \<Rightarrow> string option" where
  "written p w r = (case request_devices p r of [] \<Rightarrow> None
     | d # _ \<Rightarrow> Some (render (resolve_generation (content w (metadata_host_path p r)) (new_metadata p r d))))"

lemma resolve_content:
  assumes "reg q" and "\<And>d. F w q = Some d \<Longrightarrow> os_ReadFile os q w = Inr d"
  shows "resolve_generation (os_ReadFile os q w) m = resolve_generation (content w q) m"
  using assms file_read [of q w]
  by (cases "F w q"; cases "os_ReadFile os q w") (auto simp: content_def resolve_generation_def)

lemma generate_request_files:
  assumes "reg (metadata_host_path p r)" "reg (metadata_host_dir p r)"
    and "\<And>d. F w (metadata_host_path p r) = Some d \<Longrightarrow> os_ReadFile os (metadata_host_path p r) w = Inr d"
    and "generate_request os p r (request_devices p r) w = (Inr m, w')"
  shows "F w' = (case written p w r of None \<Rightarrow> F w | Some data \<Rightarrow> (F w)(metadata_host_path p r \<mapsto> data))"
proof (cases "request_devices p r")
  case Nil
  then show ?thesis using assms(4) by (simp add: generate_request_def written_def)
next
  case (Cons d ds)
  then obtain w1 where "os_MkdirAll os (metadata_host_dir p r) metadataDirMode w = (None, w1)"
    and "os_WriteFile os (metadata_host_path p r) (render (resolve_generation (content w (metadata_host_path p r)) (new_metadata p r d)))
           metadataFileMode w1 = (None, w')"
    using assms(4) resolve_content [OF assms(1,3)]
    by (auto simp: generate_request_def Let_def split: prod.splits option.splits)
  then show ?thesis
    using Cons file_mkdir [OF assms(2)] file_write [OF assms(1)] by (simp add: written_def)
qed

lemma generate_requests_files:
  assumes "plain_params p ds" and "\<And>r. plain r \<Longrightarrow> reg (metadata_host_path p r) \<and> reg (metadata_host_dir p r)"
    and "\<And>w q d. reg q \<Longrightarrow> F w q = Some d \<Longrightarrow> os_ReadFile os q w = Inr d"
    and "distinct names" and "list_all plain names"
    and "generate_requests os p names w = (Inr ms, w')"
  shows "(\<forall>r \<in> set names. F w' (metadata_host_path p r)
            = (case written p w r of None \<Rightarrow> F w (metadata_host_path p r) | Some data \<Rightarrow> Some data))
       \<and> (\<forall>q. q \<notin> metadata_host_path p ` set names \<longrightarrow> F w' q = F w q)"
  using assms(4-6)
proof (induction names arbitrary: w ms)
  case (Cons r names)
  obtain m w1 ms1 where g: "generate_request os p r (request_devices p r) w = (Inr m, w1)"
    and gs: "generate_requests os p names w1 = (Inr ms1, w')"
    using Cons.prems(3) by (auto simp: request_devices_def split: prod.splits sum.splits)
  have pr: "plain r" "list_all plain names" "r \<notin> set names" "distinct names" using Cons.prems(1,2) by auto
  have F1: "F w1 = (case written p w r of None \<Rightarrow> F w | Some data \<Rightarrow> (F w)(metadata_host_path p r \<mapsto> data))"
    using generate_request_files [OF _ _ _ g] assms(2,3) pr(1) by blast
  have other: "metadata_host_path p r' \<noteq> metadata_host_path p r" if "r' \<in> set names" for r'
    using that metadata_host_path_inj [OF assms(1), of r' r] pr by (auto simp: list_all_iff)
  then have "written p w1 r' = written p w r'" if "r' \<in> set names" for r'
  proof -
    have "F w1 (metadata_host_path p r') = F w (metadata_host_path p r')"
      using F1 other [OF that] by (simp split: option.splits)
    then show ?thesis by (cases "request_devices p r'") (simp_all add: written_def content_def)
  qed
  moreover note Cons.IH [OF pr(4,2) gs]
  moreover have "metadata_host_path p r \<notin> metadata_host_path p ` set names" using other by (metis imageE)
  ultimately show ?case using F1 other by (auto split: option.splits)
qed simp

end

section \<open>Properties\<close>

text \<open>
  C25. The KEP-5304 generation lifecycle: over a file this driver wrote before, a rewrite keeps
  the generation exactly when nothing else in the file changes, and then the file stays
  byte for byte the same; otherwise the generation goes up by one. So a consumer that caches
  by generation sees every change of content.
\<close>

theorem generation_lifecycle:
  fixes prev meta :: DeviceMetadata
  assumes "1 \<le> generation prev" and "generation prev < 2 ^ 63 - 1"
  defines "new \<equiv> resolve_generation (Inr (render prev)) meta"
  shows "same_content new meta
    \<and> generation new = generation prev + (if same_content meta prev then 0 else 1)
    \<and> (render new = render prev \<longleftrightarrow> generation new = generation prev)"
proof -
  have new: "new = set_generation (generation prev + (if same_content meta prev then 0 else 1)) meta"
    unfolding new_def by (rule resolve_generation_render [OF assms(1,2)])
  then have s: "same_content new meta" by (simp add: same_content_def set_generation_def)
  have g: "generation new = generation prev + (if same_content meta prev then 0 else 1)"
    unfolding new by (simp add: set_generation_def)
  have "int64 (generation prev)" "int64 (generation new)" using assms(1,2) g by (auto simp: int64_def)
  then have "render new = render prev \<longleftrightarrow> new = prev" by (simp add: render_inj)
  moreover have "same_content meta prev \<Longrightarrow> new = prev" using new same_content_set by simp
  ultimately have "render new = render prev \<longleftrightarrow> generation new = generation prev"
    using g by (metis add_cancel_left_right zero_neq_one)
  with s g show ?thesis by simp
qed

definition dm_sample :: "int \<Rightarrow> string \<Rightarrow> DeviceMetadata" where
  "dm_sample g pool = \<lparr>dm_Kind = metadataKind, dm_APIVersion = metadataAPIVersion,
     dm_Metadata = \<lparr>om_Name = ''c'', om_Namespace = ''ns'', om_UID = ''u-1'', om_Generation = g\<rparr>, dm_PodClaimName = None,
     dm_Requests = [\<lparr>rd_Name = ''r'', rd_Devices = [\<lparr>de_Driver = ''d'', de_Pool = pool, de_Name = ''n'',
        de_Attributes = [(''mdevUUID'', Some ''u-1'')]\<rparr>]\<rparr>]\<rparr>"

theorem generation_lifecycle_witness:
  "generation (resolve_generation (Inr (render (dm_sample 7 ''p''))) (dm_sample 1 ''p'')) = 7
   \<and> generation (resolve_generation (Inr (render (dm_sample 7 ''p''))) (dm_sample 1 ''q'')) = 8"
proof -
  have "same_content (dm_sample 1 ''p'') (dm_sample 7 ''p'')" "\<not> same_content (dm_sample 1 ''q'') (dm_sample 7 ''p'')"
    "generation (dm_sample 7 ''p'') = 7"
    by (simp_all add: same_content_def set_generation_def dm_sample_def)
  then show ?thesis
    using generation_lifecycle [of "dm_sample 7 ''p''" "dm_sample 1 ''p''"]
      generation_lifecycle [of "dm_sample 7 ''p''" "dm_sample 1 ''q''"] by simp
qed

text \<open>
  C26. A kubelet retry or a driver restart that prepares the same claim again leaves every
  metadata file as it was, whatever order the requests are visited in: on any file system
  that reads back what was written, and as long as the generations found are far from the
  64-bit limit.
\<close>

theorem GenerateClaimMetadata_retry:
  assumes "file_store os F reg" and "plain_params p ds" and "perm_oracle o1" and "perm_oracle o2"
    and "\<And>r. plain r \<Longrightarrow> reg (metadata_host_path p r) \<and> reg (metadata_host_dir p r)"
    and "\<And>w q d. reg q \<Longrightarrow> F w q = Some d \<Longrightarrow> os_ReadFile os q w = Inr d"
    and "\<And>r raw g. F w (metadata_host_path p r) = Some raw \<Longrightarrow> unmarshal_generation raw = Some g \<Longrightarrow> g < 2 ^ 62"
    and "GenerateClaimMetadata os o1 p w = (Inr ms, w1)" and "GenerateClaimMetadata os o2 p w1 = (Inr ms', w2)"
  shows "F w2 = F w1"
proof -
  have fs: "(\<forall>r \<in> set names. F v' (metadata_host_path p r)
            = (case file_store.written F p v r of None \<Rightarrow> F v (metadata_host_path p r) | Some data \<Rightarrow> Some data))
       \<and> (\<forall>q. q \<notin> metadata_host_path p ` set names \<longrightarrow> F v' q = F v q)"
    if "distinct names" "list_all plain names" "generate_requests os p names v = (Inr xs, v')" for names v xs v'
    by (rule file_store.generate_requests_files [OF assms(1,2) _ _ that]) (use assms(5,6) in auto)
  let ?keys = "map fst (cp_RequestDevices p)"
  have keys: "distinct ?keys" "list_all plain ?keys" using assms(2) by (simp_all add: plain_params_def)
  have ord: "distinct (f ?keys)" "list_all plain (f ?keys)" "set (f ?keys) = set ?keys" if "perm_oracle f" for f
    using that keys by (auto simp: perm_oracle_distinct perm_oracle_set list_all_iff)
  have f1: "F w1 (metadata_host_path p r) = (case file_store.written F p w r of
        None \<Rightarrow> F w (metadata_host_path p r) | Some data \<Rightarrow> Some data)" if "r \<in> set ?keys" for r
    using fs [OF ord(1,2) [OF assms(3)] assms(8) [unfolded GenerateClaimMetadata_def]] that ord(3) [OF assms(3)] by blast
  have f2: "F w2 (metadata_host_path p r) = (case file_store.written F p w1 r of
        None \<Rightarrow> F w1 (metadata_host_path p r) | Some data \<Rightarrow> Some data)" if "r \<in> set ?keys" for r
    using fs [OF ord(1,2) [OF assms(4)] assms(9) [unfolded GenerateClaimMetadata_def]] that ord(3) [OF assms(4)] by blast
  have other: "F w2 q = F w1 q" if "q \<notin> metadata_host_path p ` set ?keys" for q
    using fs [OF ord(1,2) [OF assms(4)] assms(9) [unfolded GenerateClaimMetadata_def]] that ord(3) [OF assms(4)] by blast
  have "F w2 (metadata_host_path p r) = F w1 (metadata_host_path p r)" if r: "r \<in> set ?keys" for r
  proof (cases "request_devices p r")
    case Nil
    then show ?thesis using f2 [OF r] by (simp add: file_store.written_def [OF assms(1)])
  next
    case (Cons d xs)
    define m where "m = resolve_generation (file_store.content F w (metadata_host_path p r)) (new_metadata p r d)"
    have F1: "F w1 (metadata_host_path p r) = Some (render m)"
      using f1 [OF r] Cons by (simp add: file_store.written_def [OF assms(1)] m_def)
    have "1 \<le> generation m" "generation m < 2 ^ 63 - 1"
      unfolding m_def using assms(7)
      by (rule_tac [!] resolve_generation_bounds)
         (auto simp: new_metadata_def file_store.content_def [OF assms(1)] split: option.splits)
    then have "resolve_generation (Inr (render m)) (new_metadata p r d) = m"
      unfolding m_def by (rule resolve_generation_again)
    then have "file_store.written F p w1 r = Some (render m)"
      using Cons F1 by (simp add: file_store.written_def [OF assms(1)] file_store.content_def [OF assms(1)])
    then show ?thesis using f2 [OF r] F1 by simp
  qed
  then show ?thesis using other by (intro ext) (metis imageE)
qed

definition cp_sample :: ClaimParams where
  "cp_sample = \<lparr>cp_PluginDataDir = ''/p'', cp_ClaimName = ''c'', cp_ClaimNamespace = ''ns'', cp_ClaimUID = ''u-1'',
     cp_DriverName = ''d'', cp_MdevUUID = ''u-1'', cp_PodClaimName = [],
     cp_RequestDevices = [(''r'', [\<lparr>di_Driver = ''d'', di_Pool = ''p'', di_Name = ''n''\<rparr>])]\<rparr>"

theorem GenerateClaimMetadata_retry_witness:
  "map_of (snd (GenerateClaimMetadata mem_os rev cp_sample (snd (GenerateClaimMetadata mem_os id cp_sample []))))
   = map_of (snd (GenerateClaimMetadata mem_os id cp_sample []))"
proof -
  let ?r1 = "GenerateClaimMetadata mem_os id cp_sample []"
  let ?r2 = "GenerateClaimMetadata mem_os rev cp_sample (snd ?r1)"
  have "plain_params cp_sample [''p'']" by code_simp
  moreover have "perm_oracle (id :: string list \<Rightarrow> string list)" "perm_oracle (rev :: string list \<Rightarrow> string list)"
    by (simp_all add: perm_oracle_def)
  moreover have "\<not> isl (fst ?r1)" by code_simp
  then obtain ms1 where "?r1 = (Inr ms1, snd ?r1)" by (cases "fst ?r1") (auto simp: prod_eq_iff)
  moreover have "\<not> isl (fst ?r2)" by code_simp
  then obtain ms2 where "?r2 = (Inr ms2, snd ?r2)" by (cases "fst ?r2") (auto simp: prod_eq_iff)
  moreover have "os_ReadFile mem_os q w = Inr d" if "map_of w q = Some d" for q w d
    using that by (simp add: mem_os_def)
  ultimately show ?thesis
    by (intro GenerateClaimMetadata_retry [OF mem_store]) auto
qed

end
