(* ===== verification/Features.thy ===== *)
theory Features
  imports Go_Prelude
begin

text \<open>
  \<open>internal/features/features.go\<close>: the driver's feature gates. The registry sits on the
  gate of \<open>k8s.io/component-base/featuregate\<close>; the first section writes out what that
  library does for gates with one specification each and no dependencies, which is how
  \<open>Add\<close> registers them and all the driver uses. The order in which the library goes
  through its maps is a parameter.
\<close>

section \<open>The library's gate\<close>

datatype prerelease = PreAlpha | Alpha | Beta | GA | Deprecated

fun stage_text :: "prerelease \<Rightarrow> string" where
  "stage_text PreAlpha = ''PRE-ALPHA''"
| "stage_text Alpha = ''ALPHA''"
| "stage_text Beta = ''BETA''"
| "stage_text GA = []"
| "stage_text Deprecated = ''DEPRECATED''"

record FeatureSpec =
  fs_Default :: bool
  fs_LockToDefault :: bool
  fs_PreRelease :: prerelease

record featureGate =
  fg_known :: "FeatureSpec gomap"
  fg_enabled :: "bool gomap"
  fg_enabledRaw :: "bool gomap"

definition allAlphaGate :: string where "allAlphaGate = ''AllAlpha''"
definition allBetaGate :: string where "allBetaGate = ''AllBeta''"

definition NewFeatureGate :: featureGate where
  "NewFeatureGate = \<lparr>fg_known =
      [(allAlphaGate, \<lparr>fs_Default = False, fs_LockToDefault = False, fs_PreRelease = Alpha\<rparr>),
       (allBetaGate, \<lparr>fs_Default = False, fs_LockToDefault = False, fs_PreRelease = Beta\<rparr>)],
     fg_enabled = [], fg_enabledRaw = []\<rparr>"

fun add_specs :: "FeatureSpec gomap \<Rightarrow> FeatureSpec gomap \<Rightarrow> goerr + FeatureSpec gomap" where
  "add_specs [] known = Inr known"
| "add_specs ((name, spec) # specs) known =
     (case map_of known name of
        Some existing \<Rightarrow>
          if existing = spec then add_specs specs known
          else Inl (Errorf ''feature gate %q with different spec already exists: %v'' [FStr name])
      | None \<Rightarrow> add_specs specs (AList.update name spec known))"

definition Add :: "FeatureSpec gomap \<Rightarrow> featureGate \<Rightarrow> goerr + featureGate" where
  "Add specs f = (case add_specs specs (fg_known f) of Inl err \<Rightarrow> Inl err | Inr known \<Rightarrow> Inr (f\<lparr>fg_known := known\<rparr>))"

text \<open>\<open>strconv.ParseBool\<close>.\<close>

definition ParseBool :: "string \<Rightarrow> bool option" where
  "ParseBool s =
     (if s \<in> set [''1'', ''t'', ''T'', ''TRUE'', ''true'', ''True''] then Some True
      else if s \<in> set [''0'', ''f'', ''F'', ''FALSE'', ''false'', ''False''] then Some False
      else None)"

fun parse_gates :: "string list \<Rightarrow> bool gomap \<Rightarrow> goerr + bool gomap" where
  "parse_gates [] m = Inr m"
| "parse_gates (s # ss) m =
     (if s = [] then parse_gates ss m
      else (case Cut (CHR ''='') s of
              None \<Rightarrow> Inl (Errorf ''missing bool value for %s'' [FStr (TrimSpace s)])
            | Some (k, v) \<Rightarrow>
                (case ParseBool (TrimSpace v) of
                   None \<Rightarrow> Inl (Errorf ''invalid value of %s=%s, err: %v'' [FStr (TrimSpace k), FStr (TrimSpace v)])
                 | Some b \<Rightarrow> parse_gates ss (AList.update (TrimSpace k) b m))))"

text \<open>The group gates set every gate of their stage that has no setting yet.\<close>

definition setUnset :: "prerelease \<Rightarrow> FeatureSpec gomap \<Rightarrow> bool \<Rightarrow> bool gomap \<Rightarrow> bool gomap" where
  "setUnset stage known b enabled =
     fold (\<lambda>(k, spec) en.
        if k = allAlphaGate \<or> k = allBetaGate then en
        else if fs_PreRelease spec = stage \<and> map_of en k = None then AList.update k b en
        else en) known enabled"

fun set_from_keys ::
  "FeatureSpec gomap \<Rightarrow> (string \<rightharpoonup> bool) \<Rightarrow> string list \<Rightarrow> bool gomap \<Rightarrow> goerr list \<Rightarrow> goerr list \<times> bool gomap" where
  "set_from_keys known m [] enabled errs = (errs, enabled)"
| "set_from_keys known m (k # ks) enabled errs =
     (case (m k, map_of known k) of
        (None, _) \<Rightarrow> set_from_keys known m ks enabled errs
      | (Some v, None) \<Rightarrow> (errs @ [Errorf ''unrecognized feature gate: %s'' [FStr k]], enabled)
      | (Some v, Some spec) \<Rightarrow>
          if fs_LockToDefault spec \<and> fs_Default spec \<noteq> v
          then set_from_keys known m ks enabled (errs @ [Errorf ''cannot set feature gate %v to %v, feature is locked to %v'' [FStr k]])
          else if k = allAlphaGate
          then set_from_keys known m ks (AList.update k v (setUnset Alpha known v enabled)) errs
          else if k = allBetaGate
          then set_from_keys known m ks (AList.update k v (setUnset Beta known v enabled)) errs
          else if fs_PreRelease spec = PreAlpha
          then set_from_keys known m ks enabled (errs @ [Errorf ''cannot set feature gate %v to %v, feature is PreAlpha at emulated version %s, min compatibility version %s'' [FStr k]])
          else set_from_keys known m ks (AList.update k v enabled) errs)"

text \<open>The first error stands for the aggregate of all; the settings are kept only when there is none.\<close>

definition SetFromMap :: "(string list \<Rightarrow> string list) \<Rightarrow> bool gomap \<Rightarrow> featureGate \<Rightarrow> goerr option \<times> featureGate" where
  "SetFromMap order m f =
     (let raw = fold (\<lambda>(k, v). AList.update k v) m (fg_enabledRaw f);
          f1 = f\<lparr>fg_enabledRaw := raw\<rparr>
      in case set_from_keys (fg_known f) (map_of raw) (order (map fst raw)) (fg_enabled f) [] of
           ([], enabled) \<Rightarrow> (None, f1\<lparr>fg_enabled := enabled\<rparr>)
         | (e # errs, enabled) \<Rightarrow> (Some e, f1))"

definition gate_Set :: "(string list \<Rightarrow> string list) \<Rightarrow> string \<Rightarrow> featureGate \<Rightarrow> goerr option \<times> featureGate" where
  "gate_Set order value f =
     (case parse_gates (Split (CHR '','') value) [] of Inl err \<Rightarrow> (Some err, f) | Inr m \<Rightarrow> SetFromMap order m f)"

text \<open>\<open>None\<close> is the panic on a gate that was never registered.\<close>

definition Enabled :: "featureGate \<Rightarrow> string \<Rightarrow> bool option" where
  "Enabled f key =
     (case map_of (fg_enabled f) key of
        Some v \<Rightarrow> Some v
      | None \<Rightarrow> map_option fs_Default (map_of (fg_known f) key))"

definition GetAll :: "featureGate \<Rightarrow> FeatureSpec gomap" where
  "GetAll f = filter (\<lambda>(k, spec). fs_PreRelease spec \<noteq> PreAlpha) (fg_known f)"

definition bool_text :: "bool \<Rightarrow> string" where
  "bool_text b = (if b then ''true'' else ''false'')"

definition HelpString :: "string \<Rightarrow> FeatureSpec \<Rightarrow> string" where
  "HelpString name spec =
     (if fs_PreRelease spec \<in> {GA, Deprecated, PreAlpha} then []
      else name @ ''=true|false ('' @ stage_text (fs_PreRelease spec) @ '' - default='' @ bool_text (fs_Default spec) @ '')'')"

definition gate_KnownFeatures :: "featureGate \<Rightarrow> string list" where
  "gate_KnownFeatures f = sort (filter (\<lambda>s. s \<noteq> []) (map (\<lambda>(k, spec). HelpString k spec) (fg_known f)))"

section \<open>The registry\<close>

definition ContainerWorkload :: string where "ContainerWorkload = ''ContainerWorkload''"
definition VirtualMachineWorkload :: string where "VirtualMachineWorkload = ''VirtualMachineWorkload''"

definition defaultFeatureGates :: "FeatureSpec gomap" where
  "defaultFeatureGates =
     [(ContainerWorkload, \<lparr>fs_Default = False, fs_LockToDefault = False, fs_PreRelease = Alpha\<rparr>),
      (VirtualMachineWorkload, \<lparr>fs_Default = True, fs_LockToDefault = False, fs_PreRelease = Beta\<rparr>)]"

text \<open>The warning sink is the list of the warnings it received; \<open>None\<close> is the panic on a malformed map.\<close>

record registry =
  reg_gate :: featureGate
  reg_warnings :: "goerr list"

definition newRegistry :: "FeatureSpec gomap \<Rightarrow> registry option" where
  "newRegistry specs =
     (case Add specs NewFeatureGate of Inl err \<Rightarrow> None | Inr gate \<Rightarrow> Some \<lparr>reg_gate = gate, reg_warnings = []\<rparr>)"

definition graduatedGates :: "registry \<Rightarrow> string list" where
  "graduatedGates r = map fst (filter (\<lambda>(name, spec). fs_LockToDefault spec) (GetAll (reg_gate r)))"

definition pair_name :: "string \<Rightarrow> string" where
  "pair_name pair = (case Cut (CHR ''='') pair of None \<Rightarrow> TrimSpace pair | Some (k, v) \<Rightarrow> TrimSpace k)"

fun keep_pairs :: "string list \<Rightarrow> string list \<Rightarrow> string list \<times> goerr list" where
  "keep_pairs graduated [] = ([], [])"
| "keep_pairs graduated (pair # pairs) =
     (case keep_pairs graduated pairs of (kept, warnings) \<Rightarrow>
        if pair = [] then (kept, warnings)
        else if pair_name pair \<in> set graduated
        then (kept, Errorf ''feature gate %s is GA and always on, so the setting %s is ignored, remove it''
                [FStr (pair_name pair), FStr (TrimSpace pair)] # warnings)
        else (pair # kept, warnings))"

definition registry_set :: "(string list \<Rightarrow> string list) \<Rightarrow> string \<Rightarrow> registry \<Rightarrow> goerr option \<times> registry" where
  "registry_set order value r =
     (case keep_pairs (graduatedGates r) (Split (CHR '','') value) of
        (kept, warnings) \<Rightarrow>
          (case gate_Set order (Join_with '','' kept) (reg_gate r) of
             (err, gate) \<Rightarrow>
               (map_option (Wrapf ''parse --feature-gates: %w'' []) err,
                \<lparr>reg_gate = gate, reg_warnings = reg_warnings r @ warnings\<rparr>)))"

definition summary :: "registry \<Rightarrow> string" where
  "summary r = Join_with '' ''
     (map (\<lambda>name. name @ ''='' @ (case Enabled (reg_gate r) name of None \<Rightarrow> [] | Some b \<Rightarrow> bool_text b))
       (sort (map fst (GetAll (reg_gate r)))))"

definition knownFeatures :: "registry \<Rightarrow> string list" where
  "knownFeatures r = sort (gate_KnownFeatures (reg_gate r)
     @ map (\<lambda>(name, spec). name @ ''=true|false (GA - default='' @ bool_text (fs_Default spec) @ '')'')
         (filter (\<lambda>(name, spec). fs_PreRelease spec = GA \<and> \<not> fs_LockToDefault spec) (GetAll (reg_gate r))))"

end
