(* ===== verification/Features_Props.thy ===== *)
theory Features_Props
  imports Features
begin

text \<open>What a \<open>--feature-gates\<close> value means, and that the registry resolves it so.\<close>

section \<open>The meaning of a value\<close>

definition pair_value :: "string \<Rightarrow> bool option" where
  "pair_value pair = (case Cut (CHR ''='') pair of None \<Rightarrow> None | Some (k, v) \<Rightarrow> ParseBool (TrimSpace v))"

definition settings :: "string \<Rightarrow> string list" where
  "settings value = filter (\<lambda>p. p \<noteq> []) (Split (CHR '','') value)"

text \<open>The last setting of a name.\<close>

definition setting :: "string \<Rightarrow> string \<Rightarrow> bool option" where
  "setting value name = map_of (rev (map (\<lambda>p. (pair_name p, the (pair_value p))) (settings value))) name"

definition locked :: "FeatureSpec gomap \<Rightarrow> string \<Rightarrow> bool" where
  "locked specs name = (case map_of specs name of None \<Rightarrow> False | Some spec \<Rightarrow> fs_LockToDefault spec)"

definition group_gate :: "string \<Rightarrow> bool" where
  "group_gate name \<longleftrightarrow> name = allAlphaGate \<or> name = allBetaGate"

text \<open>A setting of the gate itself, else one of its stage's group gate, else the default.\<close>

definition group_setting :: "prerelease \<Rightarrow> string \<Rightarrow> bool option" where
  "group_setting stage value =
     (if stage = Alpha then setting value allAlphaGate else if stage = Beta then setting value allBetaGate else None)"

definition resolved :: "string \<Rightarrow> string \<Rightarrow> FeatureSpec \<Rightarrow> bool" where
  "resolved value name spec =
     (case (if fs_LockToDefault spec then None else setting value name) of
        Some b \<Rightarrow> b
      | None \<Rightarrow> (case group_setting (fs_PreRelease spec) value of Some b \<Rightarrow> b | None \<Rightarrow> fs_Default spec))"

definition gate_specs :: "FeatureSpec gomap \<Rightarrow> bool" where
  "gate_specs specs \<longleftrightarrow> distinct (map fst specs)
     \<and> list_all (\<lambda>(name, spec). \<not> group_gate name \<and> fs_PreRelease spec \<noteq> PreAlpha) specs"

section \<open>Parsing\<close>

lemma Split_Join_with:
  "xs \<noteq> [] \<Longrightarrow> \<forall>x \<in> set xs. c \<notin> set x \<Longrightarrow> Split c (Join_with [c] xs) = xs"
  by (induction xs rule: induct_list012) (auto simp: Split_no_sep Split_append)

lemma Split_sep: "x \<in> set (Split c s) \<Longrightarrow> c \<notin> set x"
proof (induction s arbitrary: x)
  case (Cons y ys)
  then show ?case by (cases "Split c ys") (auto split: if_splits)
qed simp

lemma keep_pairs_filter:
  "fst (keep_pairs graduated ps) = filter (\<lambda>p. pair_name p \<notin> set graduated) (filter (\<lambda>p. p \<noteq> []) ps)"
  by (induction ps) (auto split: prod.splits)

lemma kept_split:
  assumes "\<forall>p \<in> set kept. p \<noteq> [] \<and> CHR '','' \<notin> set p"
  shows "parse_gates (Split (CHR '','') (Join_with '','' kept)) m = parse_gates kept m"
proof (cases "kept = []")
  case False
  then show ?thesis using Split_Join_with [of kept "CHR '',''"] assms by simp
qed simp

definition put_pair :: "string \<Rightarrow> bool gomap \<Rightarrow> bool gomap" where
  "put_pair p = AList.update (pair_name p) (the (pair_value p))"

lemma parse_gates_result:
  assumes "\<forall>p \<in> set ps. p \<noteq> []"
  shows "if \<forall>p \<in> set ps. pair_value p \<noteq> None then parse_gates ps m = Inr (fold put_pair ps m) else isl (parse_gates ps m)"
  using assms
proof (induction ps arbitrary: m)
  case (Cons p ps)
  show ?case
  proof (cases "Cut (CHR ''='') p")
    case None
    then show ?thesis using Cons.prems by (auto simp: pair_value_def)
  next
    case (Some kv)
    obtain k v where kv: "kv = (k, v)" by (cases kv)
    have pv: "pair_value p = ParseBool (TrimSpace v)" "pair_name p = TrimSpace k"
      using Some kv by (simp_all add: pair_value_def pair_name_def)
    show ?thesis
      using Cons.IH [of "AList.update (TrimSpace k) b m" for b] Cons.prems Some kv pv
      by (cases "ParseBool (TrimSpace v)") (auto simp: put_pair_def [of p])
  qed
qed simp

lemma fold_put_pair:
  "map_of (fold put_pair ps m) = map_of m ++ map_of (rev (map (\<lambda>p. (pair_name p, the (pair_value p))) ps))"
  by (induction ps arbitrary: m) (auto simp: put_pair_def update_conv')

lemma fold_put_pair_distinct: "distinct (map fst m) \<Longrightarrow> distinct (map fst (fold put_pair ps m))"
  by (induction ps arbitrary: m) (auto simp: put_pair_def distinct_update)

section \<open>Setting\<close>

lemma setUnset_lookup:
  assumes "distinct (map fst known)"
  shows "map_of (setUnset stage known b en) k =
    (case map_of en k of Some x \<Rightarrow> Some x
     | None \<Rightarrow> (case map_of known k of None \<Rightarrow> None
               | Some spec \<Rightarrow> if \<not> group_gate k \<and> fs_PreRelease spec = stage then Some b else None))"
  using assms
proof (induction known arbitrary: en)
  case (Cons ks known)
  obtain k0 s0 where ks: "ks = (k0, s0)" by (cases ks)
  have k0: "map_of known k0 = None" using Cons.prems ks by (simp add: map_of_eq_None_iff)
  define en1 where "en1 = (if \<not> group_gate k0 \<and> fs_PreRelease s0 = stage \<and> map_of en k0 = None then AList.update k0 b en else en)"
  have "setUnset stage (ks # known) b en = setUnset stage known b en1"
    by (simp add: setUnset_def ks en1_def group_gate_def)
  moreover have "map_of en1 k = (if k = k0 \<and> map_of en k = None \<and> \<not> group_gate k \<and> fs_PreRelease s0 = stage then Some b else map_of en k)"
    by (auto simp: en1_def update_conv')
  ultimately show ?case
    using Cons.IH [of en1] Cons.prems k0 by (cases "k = k0") (auto simp: ks split: option.splits)
qed (simp add: setUnset_def split: option.split)

definition by_group :: "FeatureSpec gomap \<Rightarrow> (string \<rightharpoonup> bool) \<Rightarrow> string set \<Rightarrow> string \<Rightarrow> bool option" where
  "by_group known m ks k = (case map_of known k of None \<Rightarrow> None | Some spec \<Rightarrow>
     if group_gate k then None
     else if fs_PreRelease spec = Alpha \<and> allAlphaGate \<in> ks then m allAlphaGate
     else if fs_PreRelease spec = Beta \<and> allBetaGate \<in> ks then m allBetaGate else None)"

lemma group_gates_differ: "allAlphaGate \<noteq> allBetaGate" "group_gate allAlphaGate" "group_gate allBetaGate"
  by (simp_all add: group_gate_def allAlphaGate_def allBetaGate_def)

text \<open>Whatever the order of the keys.\<close>

lemma set_from_keys_ok:
  assumes "distinct (map fst known)" and "distinct ks" and "set ks \<subseteq> dom m"
    and "\<And>k. k \<in> set ks \<Longrightarrow> \<exists>spec. map_of known k = Some spec \<and> \<not> fs_LockToDefault spec \<and> (fs_PreRelease spec = PreAlpha \<longrightarrow> group_gate k)"
  shows "fst (set_from_keys known m ks en errs) = errs
    \<and> map_of (snd (set_from_keys known m ks en errs)) k
       = (if k \<in> set ks then m k else case map_of en k of Some x \<Rightarrow> Some x | None \<Rightarrow> by_group known m (set ks) k)"
  using assms
proof (induction ks arbitrary: en)
  case (Cons k0 ks)
  obtain v spec where v: "m k0 = Some v" "map_of known k0 = Some spec" "\<not> fs_LockToDefault spec"
      "fs_PreRelease spec = PreAlpha \<longrightarrow> group_gate k0"
    using Cons.prems(3) Cons.prems(4) [of k0] by auto
  define en1 where "en1 = (if k0 = allAlphaGate then AList.update k0 v (setUnset Alpha known v en)
      else if k0 = allBetaGate then AList.update k0 v (setUnset Beta known v en) else AList.update k0 v en)"
  have s: "set_from_keys known m (k0 # ks) en errs = set_from_keys known m ks en1 errs"
    using v by (auto simp: en1_def group_gate_def)
  have IH: "fst (set_from_keys known m ks en1 errs) = errs
      \<and> map_of (snd (set_from_keys known m ks en1 errs)) k
       = (if k \<in> set ks then m k else case map_of en1 k of Some x \<Rightarrow> Some x | None \<Rightarrow> by_group known m (set ks) k)"
    using Cons.prems by (intro Cons.IH) auto
  have "map_of en1 k = (if k = k0 then Some v else case map_of en k of Some x \<Rightarrow> Some x
      | None \<Rightarrow> (case map_of known k of None \<Rightarrow> None | Some spec \<Rightarrow>
          if \<not> group_gate k \<and> (fs_PreRelease spec = Alpha \<and> k0 = allAlphaGate \<or> fs_PreRelease spec = Beta \<and> k0 = allBetaGate) then Some v else None))"
    using group_gates_differ by (auto simp: en1_def update_conv' setUnset_lookup [OF Cons.prems(1)] split: option.splits)
  then have e1: "map_of en1 k = (if k = k0 then Some v else case map_of en k of Some x \<Rightarrow> Some x | None \<Rightarrow> by_group known m {k0} k)"
    using v(1) by (auto simp: by_group_def split: option.splits)
  have n: "k0 \<notin> set ks" using Cons.prems(2) by simp
  have g: "by_group known m (set (k0 # ks)) k = (case by_group known m {k0} k of Some x \<Rightarrow> Some x | None \<Rightarrow> by_group known m (set ks) k)"
    using Cons.prems(3) n group_gates_differ(1) by (auto simp: by_group_def split: option.splits)
  show ?case
    unfolding s using IH e1 v(1) g
    by (cases "k = k0"; cases "k \<in> set ks"; cases "map_of en k"; cases "by_group known m {k0} k") (simp_all add: n)
qed (simp add: by_group_def split: option.split)

lemma set_from_keys_unknown:
  "k \<in> set ks \<Longrightarrow> k \<in> dom m \<Longrightarrow> map_of known k = None \<Longrightarrow> fst (set_from_keys known m ks en errs) \<noteq> []"
proof (induction ks arbitrary: en errs)
  case (Cons k0 ks)
  have mono: "errs' \<noteq> [] \<Longrightarrow> fst (set_from_keys known m ks en' errs') \<noteq> []" for en' errs' ks
    by (induction ks arbitrary: en' errs') (auto split: option.splits)
  show ?case using Cons mono by (cases "k = k0") (auto split: option.splits)
qed simp

section \<open>A fresh registry\<close>

lemma add_specs_new: "distinct (map fst (known @ specs)) \<Longrightarrow> add_specs specs known = Inr (known @ specs)"
proof (induction specs arbitrary: known)
  case (Cons p specs)
  obtain n s where p: "p = (n, s)" by (cases p)
  have "n \<notin> fst ` set known" using Cons.prems p by auto
  then have "map_of known n = None" "AList.update n s known = known @ [(n, s)]" by (auto simp: map_of_eq_None_iff update_new)
  then show ?case using Cons p by simp
qed simp

definition all_specs :: "FeatureSpec gomap \<Rightarrow> FeatureSpec gomap" where
  "all_specs specs = fg_known NewFeatureGate @ specs"

lemma all_specs_lookup:
  assumes "gate_specs specs"
  shows "map_of (all_specs specs) k = (if group_gate k then map_of (fg_known NewFeatureGate) k else map_of specs k)"
    and "distinct (map fst (all_specs specs))"
proof -
  have "k \<notin> dom (map_of specs)" if "group_gate k" for k
    using assms that by (fastforce simp: gate_specs_def list_all_iff dest: map_of_SomeD)
  then have g: "map_of specs k = None" if "group_gate k" for k using that by blast
  then show "map_of (all_specs specs) k = (if group_gate k then map_of (fg_known NewFeatureGate) k else map_of specs k)"
    by (auto simp: all_specs_def map_add_def NewFeatureGate_def group_gate_def split: option.split)
  show "distinct (map fst (all_specs specs))"
    using assms g group_gates_differ by (auto simp: all_specs_def NewFeatureGate_def gate_specs_def map_of_eq_None_iff)
qed

lemma newRegistry_fresh:
  assumes "gate_specs specs"
  shows "newRegistry specs = Some \<lparr>reg_gate = \<lparr>fg_known = all_specs specs, fg_enabled = [], fg_enabledRaw = []\<rparr>, reg_warnings = []\<rparr>"
proof -
  have "add_specs specs (fg_known NewFeatureGate) = Inr (all_specs specs)"
    using add_specs_new all_specs_lookup(2) [OF assms] by (simp add: all_specs_def)
  then show ?thesis by (simp add: newRegistry_def Add_def) (simp add: NewFeatureGate_def)
qed

lemma graduated_locked:
  assumes "gate_specs specs" and "newRegistry specs = Some r"
  shows "name \<in> set (graduatedGates r) \<longleftrightarrow> locked specs name"
proof -
  have r: "fg_known (reg_gate r) = all_specs specs" using assms(2) [unfolded newRegistry_fresh [OF assms(1)]] by auto
  have "name \<in> set (graduatedGates r) \<longleftrightarrow> (\<exists>spec. (name, spec) \<in> set (all_specs specs) \<and> fs_PreRelease spec \<noteq> PreAlpha \<and> fs_LockToDefault spec)"
    by (auto simp: graduatedGates_def GetAll_def r image_iff)
  also have "\<dots> \<longleftrightarrow> (\<exists>spec. map_of specs name = Some spec \<and> fs_LockToDefault spec)"
    using assms(1) by (auto simp: all_specs_def NewFeatureGate_def gate_specs_def list_all_iff)
  finally show ?thesis by (auto simp: locked_def split: option.split)
qed

definition kept_settings :: "FeatureSpec gomap \<Rightarrow> string \<Rightarrow> string list" where
  "kept_settings specs value = filter (\<lambda>p. \<not> locked specs (pair_name p)) (settings value)"

lemma map_of_rev_filter_key:
  "map_of (rev (map (\<lambda>p. (f p, g p)) (filter (\<lambda>p. P (f p)) ps))) k = (if P k then map_of (rev (map (\<lambda>p. (f p, g p)) ps)) k else None)"
  by (induction ps) (auto simp: map_add_def split: option.split)

lemma registry_set_cases:
  assumes "gate_specs specs" and "newRegistry specs = Some r"
  obtains (unparsed) "\<not> (\<forall>p \<in> set (kept_settings specs value). pair_value p \<noteq> None)"
      "fst (registry_set order value r) \<noteq> None" "fg_enabled (reg_gate (snd (registry_set order value r))) = []"
  | (parsed) m where "\<forall>p \<in> set (kept_settings specs value). pair_value p \<noteq> None"
      "distinct (map fst m)" "map_of m = (\<lambda>name. if locked specs name then None else setting value name)"
      "dom (map_of m) = pair_name ` set (kept_settings specs value)"
      "(fst (registry_set order value r) = None) = (fst (set_from_keys (all_specs specs) (map_of m) (order (map fst m)) [] []) = [])"
      "fg_enabled (reg_gate (snd (registry_set order value r))) =
         (if fst (registry_set order value r) = None then snd (set_from_keys (all_specs specs) (map_of m) (order (map fst m)) [] []) else [])"
proof -
  let ?kept = "kept_settings specs value"
  have k: "fst (keep_pairs (graduatedGates r) (Split (CHR '','') value)) = ?kept"
    unfolding keep_pairs_filter kept_settings_def settings_def using graduated_locked [OF assms] by simp
  have ne: "\<forall>p \<in> set ?kept. p \<noteq> []" by (simp add: kept_settings_def settings_def)
  then have sp: "parse_gates (Split (CHR '','') (Join_with '','' ?kept)) [] = parse_gates ?kept []"
    by (intro kept_split) (auto simp: kept_settings_def settings_def dest: Split_sep)
  have r: "reg_gate r = \<lparr>fg_known = all_specs specs, fg_enabled = [], fg_enabledRaw = []\<rparr>"
    using assms(2) [unfolded newRegistry_fresh [OF assms(1)]] by auto
  have res: "fst (registry_set order value r) = map_option (Wrapf ''parse --feature-gates: %w'' []) (fst (gate_Set order (Join_with '','' ?kept) (reg_gate r)))"
    "reg_gate (snd (registry_set order value r)) = snd (gate_Set order (Join_with '','' ?kept) (reg_gate r))"
    by (simp_all add: registry_set_def split_beta k)
  note pg = parse_gates_result [OF ne, of "[]"]
  show ?thesis
  proof (cases "\<forall>p \<in> set ?kept. pair_value p \<noteq> None")
    case False
    then have "isl (parse_gates ?kept [])" using pg by meson
    then obtain e where "parse_gates ?kept [] = Inl e" by (auto simp: isl_def)
    then show ?thesis using unparsed False res sp r by (simp add: gate_Set_def)
  next
    case True
    let ?m = "fold put_pair ?kept []"
    have d: "distinct (map fst ?m)" by (intro fold_put_pair_distinct) simp
    have "fold (\<lambda>(k, v). AList.update k v) ?m [] = ?m" using fold_update_copy [of "[]" ?m] d by simp
    moreover have "parse_gates ?kept [] = Inr ?m" using pg True by simp
    ultimately have gs: "gate_Set order (Join_with '','' ?kept) (reg_gate r) =
       (case set_from_keys (all_specs specs) (map_of ?m) (order (map fst ?m)) [] [] of
          ([], enabled) \<Rightarrow> (None, \<lparr>fg_known = all_specs specs, fg_enabled = enabled, fg_enabledRaw = ?m\<rparr>)
        | (e # errs, enabled) \<Rightarrow> (Some e, \<lparr>fg_known = all_specs specs, fg_enabled = [], fg_enabledRaw = ?m\<rparr>))"
      using sp r by (simp add: gate_Set_def SetFromMap_def Let_def split: prod.split list.split)
    have "map_of ?m = (\<lambda>name. if locked specs name then None else setting value name)"
      unfolding fold_put_pair kept_settings_def setting_def
      using map_of_rev_filter_key [where P = "\<lambda>n. \<not> locked specs n" and f = pair_name and g = "\<lambda>p. the (pair_value p)"]
      by (simp add: fun_eq_iff)
    moreover have "dom (map_of ?m) = pair_name ` set ?kept"
      by (simp add: fold_put_pair dom_map_of_conv_image_fst image_image)
    ultimately show ?thesis
      using parsed [OF True d] res gs
      by (cases "fst (set_from_keys (all_specs specs) (map_of ?m) (order (map fst ?m)) [] [])") (auto split: prod.splits)
  qed
qed

section \<open>Properties\<close>

definition gate_known :: "FeatureSpec gomap \<Rightarrow> string \<Rightarrow> bool" where
  "gate_known specs name \<longleftrightarrow> group_gate name \<or> map_of specs name \<noteq> None"

lemma all_specs_known: "gate_specs specs \<Longrightarrow> map_of (all_specs specs) name \<noteq> None \<longleftrightarrow> gate_known specs name"
  by (auto simp: all_specs_lookup(1) gate_known_def NewFeatureGate_def group_gate_def)

lemma all_specs_settable:
  assumes "gate_specs specs" "gate_known specs name" "\<not> locked specs name"
  shows "\<exists>spec. map_of (all_specs specs) name = Some spec \<and> \<not> fs_LockToDefault spec \<and> (fs_PreRelease spec = PreAlpha \<longrightarrow> group_gate name)"
proof (cases "group_gate name")
  case True
  then show ?thesis using assms(1) by (auto simp: all_specs_lookup(1) NewFeatureGate_def group_gate_def)
next
  case False
  then show ?thesis
    using assms by (auto simp: all_specs_lookup(1) gate_known_def locked_def gate_specs_def list_all_iff split: option.splits dest!: map_of_SomeD)
qed

text \<open>
  C27. What a \<open>--feature-gates\<close> value does: it is accepted exactly when every setting names a
  known gate with a boolean, settings of locked gates aside, which are ignored whatever they
  say. Then every gate is at its own last setting, else at that of the group gate of its
  stage, else at its default, in whatever order the library goes through the settings. A
  rejected value leaves every gate at its default.
\<close>

theorem registry_set_resolves:
  assumes "gate_specs specs" and "newRegistry specs = Some r" and "perm_oracle order"
    and "registry_set order value r = (err, r')"
  shows "(err = None \<longleftrightarrow> (\<forall>p \<in> set (settings value). locked specs (pair_name p) \<or> pair_value p \<noteq> None \<and> gate_known specs (pair_name p)))
    \<and> (\<forall>name spec. map_of specs name = Some spec \<longrightarrow>
        Enabled (reg_gate r') name = Some (if err = None then resolved value name spec else fs_Default spec))"
proof -
  have kn: "fg_known (reg_gate r') = all_specs specs"
    using assms(4) assms(2) [unfolded newRegistry_fresh [OF assms(1)]]
    by (auto simp: registry_set_def gate_Set_def SetFromMap_def Let_def split: prod.splits sum.splits list.splits)
  have look: "map_of (all_specs specs) name = Some spec \<and> \<not> group_gate name" if "map_of specs name = Some spec" for name spec
    using that assms(1) by (auto simp: all_specs_lookup(1) gate_specs_def list_all_iff dest!: map_of_SomeD)
  have e: "err = fst (registry_set order value r)" "r' = snd (registry_set order value r)" using assms(4) by simp_all
  show ?thesis
  proof (cases rule: registry_set_cases [OF assms(1,2), of "value" order, case_names unparsed parsed])
    case unparsed
    then show ?thesis using look kn e by (auto simp: kept_settings_def Enabled_def)
  next
    case (parsed m)
    let ?ks = "order (map fst m)"
    have ks: "set ?ks = pair_name ` set (kept_settings specs value)" "distinct ?ks"
      using assms(3) parsed(2,4) by (simp_all add: perm_oracle_set perm_oracle_distinct dom_map_of_conv_image_fst)
    show ?thesis
    proof (cases "\<forall>p \<in> set (kept_settings specs value). gate_known specs (pair_name p)")
      case False
      then obtain k where "k \<in> set ?ks" "map_of (all_specs specs) k = None"
        using ks(1) all_specs_known [OF assms(1)] by blast
      then have "err \<noteq> None" using set_from_keys_unknown [of k ?ks "map_of m"] parsed(4,5) ks(1) e by auto
      moreover have "\<not> (\<forall>p \<in> set (settings value). locked specs (pair_name p) \<or> pair_value p \<noteq> None \<and> gate_known specs (pair_name p))"
        using False by (auto simp: kept_settings_def)
      moreover have "fg_enabled (reg_gate r') = []" using parsed(6) e calculation by auto
      ultimately show ?thesis using look kn by (auto simp: Enabled_def)
    next
      case True
      have settable: "\<exists>spec. map_of (all_specs specs) k = Some spec \<and> \<not> fs_LockToDefault spec \<and> (fs_PreRelease spec = PreAlpha \<longrightarrow> group_gate k)"
        if "k \<in> set ?ks" for k
        using that ks(1) True by (intro all_specs_settable [OF assms(1)]) (auto simp: kept_settings_def)
      note so = set_from_keys_ok [OF all_specs_lookup(2) [OF assms(1)] ks(2) _ settable, of "map_of m" "[]" "[]"]
      have dm: "set ?ks = dom (map_of m)" using ks(1) parsed(4) by simp
      have en0: "err = None" using so dm parsed(5) e by simp
      have en: "map_of (fg_enabled (reg_gate r')) k = (if k \<in> dom (map_of m) then map_of m k else by_group (all_specs specs) (map_of m) (dom (map_of m)) k)" for k
        using so [of k] dm parsed(6) e en0 by simp
      have "Enabled (reg_gate r') name = Some (resolved value name spec)" if s: "map_of specs name = Some spec" for name spec
      proof -
        have lg: "\<not> locked specs allAlphaGate" "\<not> locked specs allBetaGate"
          using assms(1) group_gates_differ look by (auto simp: locked_def split: option.split)
        have "fs_LockToDefault spec = locked specs name" using s by (simp add: locked_def)
        then show ?thesis
          using look [OF s] kn lg en [of name]
          by (auto simp: Enabled_def resolved_def by_group_def group_setting_def parsed(3) domIff split: option.splits)
      qed
      then show ?thesis using True parsed(1) en0 by (auto simp: kept_settings_def)
    qed
  qed
qed

text \<open>A locked gate next to the driver's own; its setting is nonsense and ignored.\<close>

definition specs_sample :: "FeatureSpec gomap" where
  "specs_sample = defaultFeatureGates @ [(''Graduated'', \<lparr>fs_Default = True, fs_LockToDefault = True, fs_PreRelease = GA\<rparr>)]"

theorem registry_set_resolves_witness:
  "\<exists>r r'. newRegistry specs_sample = Some r
     \<and> registry_set rev ''AllAlpha=true, VirtualMachineWorkload =f,Graduated=no'' r = (None, r')
     \<and> Enabled (reg_gate r') ContainerWorkload = Some True \<and> Enabled (reg_gate r') VirtualMachineWorkload = Some False
     \<and> Enabled (reg_gate r') ''Graduated'' = Some True"
proof -
  let ?v = "''AllAlpha=true, VirtualMachineWorkload =f,Graduated=no''"
  have g: "gate_specs specs_sample" by code_simp
  obtain r where r: "newRegistry specs_sample = Some r" using newRegistry_fresh [OF g] by blast
  obtain err r' where s: "registry_set rev ?v r = (err, r')" by (metis prod.exhaust)
  have o: "perm_oracle (rev :: string list \<Rightarrow> string list)" by (simp add: perm_oracle_def)
  note t = registry_set_resolves [OF g r o s]
  have "list_all (\<lambda>p. locked specs_sample (pair_name p) \<or> pair_value p \<noteq> None \<and> gate_known specs_sample (pair_name p)) (settings ?v)"
    by code_simp
  then have e: "err = None" using t by (auto simp: list_all_iff)
  have en: "Enabled (reg_gate r') name = Some b"
    if c: "case map_of specs_sample name of None \<Rightarrow> False | Some spec \<Rightarrow> resolved ?v name spec = b" for name b
  proof (cases "map_of specs_sample name")
    case None
    then show ?thesis using c by simp
  next
    case (Some spec)
    then show ?thesis using c t e by simp
  qed
  have "Enabled (reg_gate r') ContainerWorkload = Some True" by (rule en) code_simp
  moreover have "Enabled (reg_gate r') VirtualMachineWorkload = Some False" by (rule en) code_simp
  moreover have "Enabled (reg_gate r') ''Graduated'' = Some True" by (rule en) code_simp
  ultimately show ?thesis using r s e by simp
qed

text \<open>
  The help text lists, besides the group gates, exactly the gates in alpha or beta and the
  unlocked ones in GA. A deprecated gate is settable and not listed.
\<close>

definition help_entry :: "string \<Rightarrow> FeatureSpec \<Rightarrow> string" where
  "help_entry name spec = name @ ''=true|false ('' @ (if fs_PreRelease spec = GA then ''GA'' else stage_text (fs_PreRelease spec))
     @ '' - default='' @ bool_text (fs_Default spec) @ '')''"

definition listed_gate :: "FeatureSpec \<Rightarrow> bool" where
  "listed_gate spec \<longleftrightarrow> fs_PreRelease spec \<in> {Alpha, Beta} \<or> fs_PreRelease spec = GA \<and> \<not> fs_LockToDefault spec"

lemma HelpString_entry: "HelpString name spec = (if fs_PreRelease spec \<in> {Alpha, Beta} then help_entry name spec else [])"
  by (cases "fs_PreRelease spec") (simp_all add: HelpString_def help_entry_def)

lemma knownFeatures_inventory:
  assumes "gate_specs specs" and "newRegistry specs = Some r"
  shows "set (knownFeatures r) = (\<lambda>(name, spec). help_entry name spec) ` {p \<in> set (all_specs specs). listed_gate (snd p)}"
proof -
  have r: "fg_known (reg_gate r) = all_specs specs" using assms(2) [unfolded newRegistry_fresh [OF assms(1)]] by auto
  have ne: "help_entry n sp \<noteq> []" for n sp by (simp add: help_entry_def)
  let ?e = "\<lambda>(name, spec). help_entry name spec"
  have "set (gate_KnownFeatures (reg_gate r)) = {s \<in> (\<lambda>(k, spec). HelpString k spec) ` set (all_specs specs). s \<noteq> []}"
    by (simp add: gate_KnownFeatures_def r)
  also have "\<dots> = ?e ` {p \<in> set (all_specs specs). fs_PreRelease (snd p) \<in> {Alpha, Beta}}"
    unfolding HelpString_entry using ne by (auto simp: image_iff split: if_splits) force+
  finally have lib: "set (gate_KnownFeatures (reg_gate r)) = \<dots>" .
  have "?e (name, spec) = name @ ''=true|false (GA - default='' @ bool_text (fs_Default spec) @ '')''"
    if "fs_PreRelease spec = GA" for name spec using that by (simp add: help_entry_def)
  then have "set (knownFeatures r) = set (gate_KnownFeatures (reg_gate r))
      \<union> ?e ` {p \<in> set (all_specs specs). fs_PreRelease (snd p) = GA \<and> \<not> fs_LockToDefault (snd p)}"
    by (auto simp: knownFeatures_def GetAll_def r image_iff split_beta)
  also have "\<dots> = ?e ` {p \<in> set (all_specs specs). listed_gate (snd p)}"
    unfolding lib image_Un [symmetric] by (rule arg_cong [where f = "image ?e"]) (auto simp: listed_gate_def)
  finally show ?thesis .
qed

lemma deprecated_gate_hidden:
  "\<exists>r r'. newRegistry [(''Old'', \<lparr>fs_Default = False, fs_LockToDefault = False, fs_PreRelease = Deprecated\<rparr>)] = Some r
     \<and> registry_set (\<lambda>ks. ks) ''Old=true'' r = (None, r') \<and> Enabled (reg_gate r') ''Old'' = Some True
     \<and> list_all (\<lambda>s. \<not> HasPrefix s ''Old'') (knownFeatures r)"
proof -
  let ?x = "newRegistry [(''Old'', \<lparr>fs_Default = False, fs_LockToDefault = False, fs_PreRelease = Deprecated\<rparr>)]"
  have "case ?x of None \<Rightarrow> False | Some r \<Rightarrow> fst (registry_set (\<lambda>ks. ks) ''Old=true'' r) = None
      \<and> Enabled (reg_gate (snd (registry_set (\<lambda>ks. ks) ''Old=true'' r))) ''Old'' = Some True \<and> list_all (\<lambda>s. \<not> HasPrefix s ''Old'') (knownFeatures r)"
    by code_simp
  then show ?thesis by (auto simp: prod_eq_iff split: option.splits)
qed

end
