(* ===== verification/Cdi.thy ===== *)
theory Cdi
  imports Mdev Json_Props
begin

text \<open>
  \<open>internal/cdi/cdi.go\<close>: the Container Device Interface spec of a prepared claim. The types
  of \<open>specs-go\<close> appear with the fields the driver sets; the spec-level \<open>containerEdits\<close>
  is a struct value, so \<open>omitempty\<close> does not drop it and it prints as an empty object.
\<close>

definition cdiVersion :: string where "cdiVersion = ''0.5.0''"
definition cdiVendor :: string where "cdiVendor = ''ibm.com''"
definition cdiClass :: string where "cdiClass = ''vfio-ap-passthrough''"
definition cdiKind :: string where "cdiKind = cdiVendor @ ''/'' @ cdiClass"
definition cdiSpecFileMode :: nat where "cdiSpecFileMode = 0x1A4"
definition cdiDirMode :: nat where "cdiDirMode = 0x1E8"

record CdiMount =
  cm_HostPath :: string
  cm_ContainerPath :: string
  cm_Options :: "string list"

definition VFIOGroupFromMdev :: "'w os \<Rightarrow> string \<Rightarrow> 'w \<Rightarrow> goerr + int" where
  "VFIOGroupFromMdev os uuid w =
     (let link = Join [VFIOAPMatrixPath, uuid, ''iommu_group''] in
      case os_Readlink os link w of
        Inl err \<Rightarrow> Inl (Wrapf ''readlink %s: %w'' [FStr link] err)
      | Inr target \<Rightarrow> Atoi (Base target))"

definition node_json :: "string \<Rightarrow> json" where
  "node_json path = JObj [(''path'', JStr path), (''hostPath'', JStr path)]"

definition mount_json :: "CdiMount \<Rightarrow> json" where
  "mount_json m = JObj ([(''hostPath'', JStr (cm_HostPath m)), (''containerPath'', JStr (cm_ContainerPath m))]
     @ (if cm_Options m = [] then [] else [(''options'', JArr (map JStr (cm_Options m)))]))"

definition spec_json :: "string \<Rightarrow> int \<Rightarrow> CdiMount list \<Rightarrow> json" where
  "spec_json claimUID grp mounts =
     (let devPath = ''/dev/vfio/'' @ Itoa grp in
      JObj [(''cdiVersion'', JStr cdiVersion), (''kind'', JStr cdiKind),
            (''devices'', JArr [JObj [(''name'', JStr claimUID),
               (''containerEdits'', JObj ([(''deviceNodes'', JArr [node_json devPath, node_json ''/dev/vfio/vfio''])]
                  @ (if mounts = [] then [] else [(''mounts'', JArr (map mount_json mounts))])))]]),
            (''containerEdits'', JObj [])])"

definition cdi_file_path :: "string \<Rightarrow> string \<Rightarrow> string" where
  "cdi_file_path cdiRoot claimUID = Join [cdiRoot, cdiVendor @ ''-'' @ cdiClass @ ''-'' @ claimUID @ ''.json'']"

definition GenerateClaimSpec :: "'w os \<Rightarrow> string \<Rightarrow> string \<Rightarrow> CdiMount list \<Rightarrow> 'w \<Rightarrow> (goerr + string) \<times> 'w" where
  "GenerateClaimSpec os cdiRoot claimUID mounts w =
     (case VFIOGroupFromMdev os claimUID w of
        Inl err \<Rightarrow> (Inl (Wrapf ''discover VFIO group for mdev %s: %w'' [FStr claimUID] err), w)
      | Inr grp \<Rightarrow>
          (let data = MarshalIndent (spec_json claimUID grp mounts);
               filePath = cdi_file_path cdiRoot claimUID
           in case os_MkdirAll os cdiRoot cdiDirMode w of
                (Some err, w1) \<Rightarrow> (Inl (Wrapf ''create CDI directory %s: %w'' [FStr cdiRoot] err), w1)
              | (None, w1) \<Rightarrow>
                  (case os_WriteFile os filePath data cdiSpecFileMode w1 of
                     (Some err, w2) \<Rightarrow> (Inl (Wrapf ''write CDI spec %s: %w'' [FStr filePath] err), w2)
                   | (None, w2) \<Rightarrow> (Inr (cdiKind @ ''='' @ claimUID), w2))))"

definition DeleteClaimSpec :: "'w os \<Rightarrow> string \<Rightarrow> string \<Rightarrow> 'w \<Rightarrow> goerr option \<times> 'w" where
  "DeleteClaimSpec os cdiRoot claimUID w =
     (let filePath = cdi_file_path cdiRoot claimUID in
      case os_Remove os filePath w of
        (Some err, w1) \<Rightarrow>
          if os_IsNotExist err then (None, w1)
          else (Some (Wrapf ''remove CDI spec %s: %w'' [FStr filePath] err), w1)
      | (None, w1) \<Rightarrow> (None, w1))"

definition cdi_prefix :: string where
  "cdi_prefix = cdiVendor @ ''-'' @ cdiClass @ ''-''"

definition spec_claim_uid :: "string \<Rightarrow> string" where
  "spec_claim_uid p = TrimSuffix (TrimPrefix (Base p) cdi_prefix) ''.json''"

text \<open>The loop of the collector: what fails to be removed is logged and skipped.\<close>

fun gc_spec_files :: "'w os \<Rightarrow> (string \<Rightarrow> 'w \<Rightarrow> bool) \<Rightarrow> string list \<Rightarrow> 'w \<Rightarrow> 'w" where
  "gc_spec_files os live [] w = w"
| "gc_spec_files os live (p # ps) w =
     (let claimUID = spec_claim_uid p in
      if claimUID = [] \<or> live claimUID w then gc_spec_files os live ps w
      else gc_spec_files os live ps (snd (os_Remove os p w)))"

definition GCStaleClaimSpecs :: "'w os \<Rightarrow> string \<Rightarrow> (string \<Rightarrow> 'w \<Rightarrow> bool) \<Rightarrow> 'w \<Rightarrow> goerr option \<times> 'w" where
  "GCStaleClaimSpecs os cdiRoot live w =
     (case os_Glob os (Join [cdiRoot, cdi_prefix @ ''*.json'']) w of
        Inl err \<Rightarrow> (Some (Wrapf ''glob CDI specs under %s: %w'' [FStr cdiRoot] err), w)
      | Inr matches \<Rightarrow> (None, gc_spec_files os live matches w))"

end
