(* ===== verification/Cryptoconfig.thy ===== *)
theory Cryptoconfig
  imports Json_Props Resource_Api
begin

text \<open>
  \<open>internal/cryptoconfig\<close>: the opaque device configuration of a claim, its strict decoding,
  the resolution of class and claim layers, and the classification of the control-domain
  mode.
\<close>

section \<open>cryptoconfig.go\<close>

definition Kind :: string where "Kind = ''CryptoConfig''"
definition Group :: string where "Group = ''cex.ibm.com''"
definition Version :: string where "Version = ''v1alpha1''"
definition APIVersion :: string where "APIVersion = Group @ ''/'' @ Version"

definition ControlDomainModeUsageOnly :: string where "ControlDomainModeUsageOnly = ''usage-only''"
definition ControlDomainModeUsageAndControl :: string where
  "ControlDomainModeUsageAndControl = ''usage-and-control''"
definition ControlDomainModeAllControlDomains :: string where
  "ControlDomainModeAllControlDomains = ''all-control-domains''"

definition DefaultControlDomainMode :: string where
  "DefaultControlDomainMode = ControlDomainModeUsageAndControl"

record CryptoConfig =
  cc_Kind :: string
  cc_APIVersion :: string
  cc_ControlDomainMode :: string

definition Defaults :: CryptoConfig where
  "Defaults = \<lparr>cc_Kind = Kind, cc_APIVersion = APIVersion, cc_ControlDomainMode = DefaultControlDomainMode\<rparr>"

text \<open>The JSON names of the struct's fields.\<close>

definition cc_fields :: "string list" where
  "cc_fields = [''kind'', ''apiVersion'', ''controlDomainMode'']"

definition cc_type :: gotype where
  "cc_type = TStruct (map (\<lambda>f. (f, TString)) cc_fields)"

text \<open>
  \<open>Decoder.More\<close>: whether the next byte that is not space exists and closes nothing.
\<close>

definition dec_More :: "string \<Rightarrow> bool" where
  "dec_More rest = (case skip_ws rest of [] \<Rightarrow> False | c # r \<Rightarrow> c \<noteq> CHR '']'' \<and> c \<noteq> CHR 0x7D)"

definition Parse :: "string \<Rightarrow> goerr + CryptoConfig" where
  "Parse raw =
     (case json_stream raw of
        None \<Rightarrow> Inl (Wrapf ''decode CryptoConfig: %w'' [] (JSONError ''syntax error''))
      | Some (v, rest) \<Rightarrow>
          if \<not> fits True cc_type v
          then Inl (Wrapf ''decode CryptoConfig: %w'' [] (JSONError ''unknown field or wrong type''))
          else
            (let cc = \<lparr>cc_Kind = string_field cc_fields ''kind'' v,
                       cc_APIVersion = string_field cc_fields ''apiVersion'' v,
                       cc_ControlDomainMode = string_field cc_fields ''controlDomainMode'' v\<rparr>
             in if dec_More rest then Inl (Errorf ''decode CryptoConfig: unexpected trailing data'' [])
                else if cc_Kind cc \<noteq> Kind
                then Inl (Errorf ''unexpected kind %q, want %q'' [FStr (cc_Kind cc), FStr Kind])
                else if cc_APIVersion cc \<noteq> APIVersion
                then Inl (Errorf ''unsupported apiVersion %q, want %q'' [FStr (cc_APIVersion cc), FStr APIVersion])
                else Inr cc))"

definition merge :: "CryptoConfig \<Rightarrow> CryptoConfig \<Rightarrow> CryptoConfig" where
  "merge c o1 = (if cc_ControlDomainMode o1 \<noteq> [] then c\<lparr>cc_ControlDomainMode := cc_ControlDomainMode o1\<rparr> else c)"

fun resolve_loop :: "string \<Rightarrow> int \<Rightarrow> DeviceAllocationConfiguration list \<Rightarrow> CryptoConfig \<Rightarrow> goerr + CryptoConfig" where
  "resolve_loop driverName i [] effective = Inr effective"
| "resolve_loop driverName i (c # cs) effective =
     (case cfg_Opaque c of
        None \<Rightarrow> resolve_loop driverName (i + 1) cs effective
      | Some op \<Rightarrow>
          if opq_Driver op \<noteq> driverName then resolve_loop driverName (i + 1) cs effective
          else (case Parse (opq_Parameters op) of
                  Inl err \<Rightarrow> Inl (Wrapf ''config[%d]: %w'' [FInt i] err)
                | Inr parsed \<Rightarrow> resolve_loop driverName (i + 1) cs (merge effective parsed)))"

definition Resolve :: "string \<Rightarrow> DeviceAllocationConfiguration list \<Rightarrow> goerr + CryptoConfig" where
  "Resolve driverName configs = resolve_loop driverName 0 configs Defaults"

section \<open>controldomain.go\<close>

definition customMaskPattern :: "string \<Rightarrow> bool" where
  "customMaskPattern mode \<longleftrightarrow> HasPrefix mode ''0x'' \<and> length mode = 66 \<and> list_all is_hex (drop 2 mode)"

datatype ControlDomainModeState =
  ControlDomainModeUnknown | ControlDomainModeEnabled | ControlDomainModeNotEnabled

definition ClassifyControlDomainMode :: "string \<Rightarrow> ControlDomainModeState" where
  "ClassifyControlDomainMode mode =
     (if mode = ControlDomainModeUsageOnly \<or> mode = ControlDomainModeUsageAndControl then ControlDomainModeEnabled
      else if mode = ControlDomainModeAllControlDomains then ControlDomainModeNotEnabled
      else if customMaskPattern mode then ControlDomainModeNotEnabled
      else ControlDomainModeUnknown)"

definition ValidateControlDomainMode :: "string \<Rightarrow> goerr option" where
  "ValidateControlDomainMode mode =
     (case ClassifyControlDomainMode mode of
        ControlDomainModeEnabled \<Rightarrow> None
      | ControlDomainModeNotEnabled \<Rightarrow>
          Some (Errorf ''controlDomainMode %q is a known mode that is not enabled: it grants control-domain access beyond this claim's allocation, which requires an admission-time namespace policy the cluster does not have yet. Enabled modes are %q and %q''
                  [FStr mode, FStr ControlDomainModeUsageOnly, FStr ControlDomainModeUsageAndControl])
      | ControlDomainModeUnknown \<Rightarrow>
          Some (Errorf ''unknown controlDomainMode %q: defined values are %q, %q, %q, or a 256-bit hex mask (0x followed by 64 hex digits)''
                  [FStr mode, FStr ControlDomainModeUsageOnly, FStr ControlDomainModeUsageAndControl,
                   FStr ControlDomainModeAllControlDomains]))"

section \<open>Lemmas\<close>

lemmas mode_defs = ControlDomainModeUsageOnly_def ControlDomainModeUsageAndControl_def
  ControlDomainModeAllControlDomains_def DefaultControlDomainMode_def

text \<open>The layers of a configuration list that concern the driver, in order.\<close>

definition layers :: "string \<Rightarrow> DeviceAllocationConfiguration list \<Rightarrow> string list" where
  "layers driverName configs =
     List.map_filter (\<lambda>c. case cfg_Opaque c of
        Some op \<Rightarrow> if opq_Driver op = driverName then Some (opq_Parameters op) else None
      | None \<Rightarrow> None) configs"

definition mode_of :: "string \<Rightarrow> string" where
  "mode_of raw = (case Parse raw of Inl err \<Rightarrow> [] | Inr cc \<Rightarrow> cc_ControlDomainMode cc)"

text \<open>The last layer that sets a mode wins; the built-in default stands below them all.\<close>

definition effective_mode :: "string list \<Rightarrow> string" where
  "effective_mode raws = last (DefaultControlDomainMode # filter (\<lambda>m. m \<noteq> []) (map mode_of raws))"

lemma layers_Cons:
  "layers d (c # cs) = (case cfg_Opaque c of
      Some op \<Rightarrow> (if opq_Driver op = d then opq_Parameters op # layers d cs else layers d cs)
    | None \<Rightarrow> layers d cs)"
  by (simp add: layers_def List.map_filter_simps split: option.splits)

lemma resolve_loop_layers:
  "if list_all (\<lambda>raw. \<exists>cc. Parse raw = Inr cc) (layers d cs)
   then resolve_loop d i cs eff = Inr (eff\<lparr>cc_ControlDomainMode :=
          last (cc_ControlDomainMode eff # filter (\<lambda>m. m \<noteq> []) (map mode_of (layers d cs)))\<rparr>)
   else (\<exists>err. resolve_loop d i cs eff = Inl err)"
proof (induction cs arbitrary: i eff)
  case Nil
  then show ?case by (simp add: layers_def List.map_filter_simps)
next
  case (Cons c cs)
  show ?case
  proof (cases "\<exists>op. cfg_Opaque c = Some op \<and> opq_Driver op = d")
    case False
    then show ?thesis using Cons.IH [of "i + 1" eff] by (auto simp: layers_Cons split: option.splits if_splits)
  next
    case True
    then obtain op where op: "cfg_Opaque c = Some op" "opq_Driver op = d" by blast
    show ?thesis
    proof (cases "Parse (opq_Parameters op)")
      case (Inl err)
      then show ?thesis using op by (simp add: layers_Cons)
    next
      case (Inr cc)
      then have "mode_of (opq_Parameters op) = cc_ControlDomainMode cc" by (simp add: mode_of_def)
      then show ?thesis
        using Cons.IH [of "i + 1" "merge eff cc"] op Inr
        by (cases "cc_ControlDomainMode cc = []"; cases "list_all (\<lambda>raw. \<exists>cc. Parse raw = Inr cc) (layers d cs)")
           (simp_all add: layers_Cons merge_def)
    qed
  qed
qed

lemma dec_More_hd: "\<not> dec_More r \<longleftrightarrow> skip_ws r = [] \<or> hd (skip_ws r) = CHR '']'' \<or> hd (skip_ws r) = CHR 0x7D"
  by (cases "skip_ws r") (auto simp: dec_More_def)

lemma Parse_Inr:
  assumes "Parse raw = Inr cc"
  shows "\<exists>ms rest. json_stream raw = Some (JObj ms, rest) \<and> \<not> dec_More rest
     \<and> list_all (\<lambda>m. field_name cc_fields (fst m) \<noteq> None \<and> (snd m = JNull \<or> (\<exists>s. snd m = JStr s))) ms
     \<and> cc_Kind cc = Kind \<and> cc_APIVersion cc = APIVersion
     \<and> cc_ControlDomainMode cc = string_field cc_fields ''controlDomainMode'' (JObj ms)"
proof -
  obtain v rest where v: "json_stream raw = Some (v, rest)" "fits True cc_type v" "\<not> dec_More rest"
    and cc: "cc = \<lparr>cc_Kind = string_field cc_fields ''kind'' v, cc_APIVersion = string_field cc_fields ''apiVersion'' v,
       cc_ControlDomainMode = string_field cc_fields ''controlDomainMode'' v\<rparr>"
    and k: "cc_Kind cc = Kind" "cc_APIVersion cc = APIVersion"
    using assms by (auto simp: Parse_def Let_def split: option.splits if_splits)
  obtain ms where ms: "v = JObj ms"
    using v(2) k(1) cc by (cases v) (auto simp: cc_type_def string_field_def field_values_def Kind_def)
  have str: "fits True TString x \<longleftrightarrow> x = JNull \<or> (\<exists>s. x = JStr s)" for x by (cases x) auto
  have fields: "map fst (map (\<lambda>f. (f, TString)) cc_fields) = cc_fields"
    "\<And>f t. map_of (map (\<lambda>f. (f, TString)) cc_fields) f = Some t \<Longrightarrow> t = TString"
    by (auto simp: comp_def dest!: map_of_SomeD)
  have "field_name cc_fields (fst m) \<noteq> None \<and> (snd m = JNull \<or> (\<exists>s. snd m = JStr s))" if "m \<in> set ms" for m
  proof -
    have "case field_name cc_fields (fst m) of None \<Rightarrow> False
        | Some f \<Rightarrow> (case map_of (map (\<lambda>f. (f, TString)) cc_fields) f of None \<Rightarrow> False | Some t \<Rightarrow> fits True t (snd m))"
      using v(2) that unfolding ms cc_type_def fits.simps fields not_True_eq_False list_all_iff by blast
    then show ?thesis by (auto simp: str split: option.splits dest!: fields(2))
  qed
  then have "list_all (\<lambda>m. field_name cc_fields (fst m) \<noteq> None \<and> (snd m = JNull \<or> (\<exists>s. snd m = JStr s))) ms"
    by (simp add: list_all_iff)
  then show ?thesis using v(1,3) k cc ms by auto
qed

section \<open>Properties\<close>

text \<open>
  C29. Resolution: the driver's layers are the opaque configurations addressed to it, in array
  order. If every one of them parses, the result is the default configuration with the mode
  of the last layer that sets one (the claim's over the class's, because the API puts class
  entries first), else the default mode; if one does not parse, resolution fails, whichever
  layer it is.
\<close>

theorem Resolve_last_layer_wins:
  "if list_all (\<lambda>raw. \<exists>cc. Parse raw = Inr cc) (layers driverName configs)
   then Resolve driverName configs = Inr (Defaults\<lparr>cc_ControlDomainMode := effective_mode (layers driverName configs)\<rparr>)
   else (\<exists>err. Resolve driverName configs = Inl err)"
  using resolve_loop_layers [of driverName configs 0 Defaults]
  by (simp add: Resolve_def effective_mode_def Defaults_def cong: if_cong)

text \<open>
  C30. Strict parsing: whatever \<open>Parse\<close> accepts starts with one JSON object whose every key
  is, up to letter case, a field of the schema and whose every value is a string or null,
  names the right kind and API version, and is followed by nothing but space or a closing
  bracket.
\<close>

theorem Parse_strict:
  assumes "Parse raw = Inr cc"
  shows "\<exists>ms rest. json_stream raw = Some (JObj ms, rest)
     \<and> list_all (\<lambda>m. field_name cc_fields (fst m) \<noteq> None \<and> (snd m = JNull \<or> (\<exists>s. snd m = JStr s))) ms
     \<and> cc_Kind cc = ''CryptoConfig'' \<and> cc_APIVersion cc = ''cex.ibm.com/v1alpha1''
     \<and> (skip_ws rest = [] \<or> hd (skip_ws rest) = CHR '']'' \<or> hd (skip_ws rest) = CHR 0x7D)"
proof -
  have names: "Kind = ''CryptoConfig''" "APIVersion = ''cex.ibm.com/v1alpha1''" by code_simp+
  show ?thesis using Parse_Inr [OF assms] unfolding dec_More_hd names by blast
qed

definition raw_control :: string where
  "raw_control = MarshalIndent (JObj [(''kind'', JStr ''CryptoConfig''), (''apiVersion'', JStr ''cex.ibm.com/v1alpha1''),
     (''controlDomainMode'', JStr ''usage-only'')])"

theorem Parse_strict_witness:
  "\<exists>ms rest. json_stream raw_control = Some (JObj ms, rest)
     \<and> list_all (\<lambda>m. field_name cc_fields (fst m) \<noteq> None \<and> (snd m = JNull \<or> (\<exists>s. snd m = JStr s))) ms"
proof -
  have "Parse raw_control = Inr \<lparr>cc_Kind = ''CryptoConfig'', cc_APIVersion = ''cex.ibm.com/v1alpha1'',
     cc_ControlDomainMode = ''usage-only''\<rparr>" by code_simp
  from Parse_strict [OF this] show ?thesis by blast
qed

text \<open>
  The trailing-data check has a hole: a stray closing brace after the object hides
  whatever follows it, and the configuration is accepted.
\<close>

theorem Parse_accepts_trailing:
  "\<exists>cc. Parse (raw_control @ [CHR 0x7D] @ ''controlDomainMode: all'') = Inr cc
      \<and> cc_ControlDomainMode cc = ''usage-only''"
proof -
  have "Parse (raw_control @ [CHR 0x7D] @ ''controlDomainMode: all'') = Inr \<lparr>cc_Kind = ''CryptoConfig'',
     cc_APIVersion = ''cex.ibm.com/v1alpha1'', cc_ControlDomainMode = ''usage-only''\<rparr>" by code_simp
  then show ?thesis by simp
qed

text \<open>
  The modes the driver serves are exactly the two that stay within the claim's own
  allocation; the two wider ones, all control domains and a 256-bit mask, are recognised and
  refused, and every other spelling is unknown.
\<close>

theorem ControlDomainMode_verdicts:
  "(ValidateControlDomainMode mode = None \<longleftrightarrow> mode = ''usage-only'' \<or> mode = ''usage-and-control'')
   \<and> (ClassifyControlDomainMode mode = ControlDomainModeNotEnabled \<longleftrightarrow>
        mode = ''all-control-domains'' \<or> (\<exists>ds. mode = ''0x'' @ ds \<and> length ds = 64 \<and> list_all is_hex ds))
   \<and> (ClassifyControlDomainMode (effective_mode []) = ControlDomainModeEnabled)"
proof -
  have mask: "customMaskPattern mode \<longleftrightarrow> (\<exists>ds. mode = ''0x'' @ ds \<and> length ds = 64 \<and> list_all is_hex ds)"
    unfolding customMaskPattern_def HasPrefix_iff prefix_def by auto
  have "\<not> customMaskPattern ''usage-only''" "\<not> customMaskPattern ''usage-and-control''"
    by (simp_all add: customMaskPattern_def)
  then show ?thesis
    unfolding mask [symmetric]
    by (auto simp: ValidateControlDomainMode_def ClassifyControlDomainMode_def mode_defs effective_mode_def)
qed

end
