(* ===== verification/Devicestate.thy ===== *)
theory Devicestate
  imports Binding Cdi Cryptoconfig Features Metadata "HOL-Library.List_Lexorder"
begin

text \<open>
  \<open>internal/devicestate/state.go\<close>: the devices the node offers, change detection, and the
  two operations the kubelet calls, \<open>Prepare\<close> and \<open>Unprepare\<close>.

  Every method holds the state lock from its first statement to its return, so a method is
  one step of the model; \<open>Lock\<close> models the lock itself. A Go set \<open>map[K]bool\<close> is a list
  without repetitions, and every loop over a map or set takes its order from the
  environment.
\<close>

section \<open>The environment\<close>

text \<open>
  What a method uses besides its arguments: the operating system, the feature gate's
  \<open>Enabled\<close>, the hex form of SHA-256, and the order in which each \<open>range\<close> loop over a
  map visits the keys. The loops are named by what they visit.
\<close>

record 'w env =
  e_os :: "'w os"
  e_gate :: "string \<Rightarrow> bool"
  e_sha256 :: "string \<Rightarrow> string"
  e_order :: "string \<Rightarrow> string list \<Rightarrow> string list"
  e_qorder :: "APQN list \<Rightarrow> APQN list"

definition env_ok :: "'w env \<Rightarrow> bool" where
  "env_ok env \<longleftrightarrow> (\<forall>site. perm_oracle (e_order env site)) \<and> perm_oracle (e_qorder env)"

text \<open>
  The kubelet's per-call context: what \<open>ctx.Err()\<close> answers at each successive call, and
  whether the context ends while the method waits for the lock.
\<close>

record ctx =
  ctx_Err :: "nat \<Rightarrow> ctx_err option"
  ctx_ends_waiting :: "ctx_err option"

section \<open>Types\<close>

definition DeviceClassVM :: string where "DeviceClassVM = ''ap-queue.virtual-machine.ibm.com''"
definition DeviceClassContainer :: string where "DeviceClassContainer = ''ap-queue.container.ibm.com''"

text \<open>A pool is the list of its slices, a slice the list of its devices.\<close>

record DeviceState =
  driverResources :: "Device list list gomap"
  allocatable :: "Device gomap"
  updateCount :: int
  nodeName :: string
  previousHash :: string
  driverName :: string
  cdiRoot :: string
  pluginDataDir :: string

record PreparedDevice =
  pd_RequestNames :: "string list"
  pd_PoolName :: string
  pd_DeviceName :: string
  pd_CdiDeviceIds :: "string list"

definition New_state :: "string \<Rightarrow> string \<Rightarrow> string \<Rightarrow> string \<Rightarrow> DeviceState" where
  "New_state node drv cdi dataDir =
     \<lparr>driverResources = [], allocatable = [], updateCount = 0, nodeName = node, previousHash = [],
      driverName = drv, cdiRoot = cdi, pluginDataDir = dataDir\<rparr>"

definition lockCtx :: "ctx \<Rightarrow> goerr option" where
  "lockCtx ctx =
     (case ctx_Err ctx 0 of
        Some e \<Rightarrow> Some (Wrapf ''device state lock: %w'' [] (CtxError e))
      | None \<Rightarrow>
          (case ctx_ends_waiting ctx of
             None \<Rightarrow> None
           | Some e \<Rightarrow> Some (Wrapf ''device state lock: %w'' [] (CtxError e))))"

section \<open>Change detection\<close>

text \<open>The bytes the loop of \<open>computeDevicesHash\<close> writes into the hash.\<close>

definition attr_text :: "DeviceAttribute \<Rightarrow> string" where
  "attr_text attr = (case StringValue attr of None \<Rightarrow> [] | Some s \<Rightarrow> s)
     @ (case IntValue attr of None \<Rightarrow> [] | Some i \<Rightarrow> Itoa i)"

definition device_text :: "Device \<Rightarrow> string" where
  "device_text d = dev_Name d
     @ concat (map (\<lambda>k. k @ (case map_of (dev_Attributes d) k of None \<Rightarrow> [] | Some a \<Rightarrow> attr_text a))
         (sort (map fst (dev_Attributes d))))"

definition devices_text :: "Device list gomap \<Rightarrow> string" where
  "devices_text devicesByCard =
     concat (map (\<lambda>cardKey. cardKey
         @ concat (map device_text
             (sort_key dev_Name (case map_of devicesByCard cardKey of None \<Rightarrow> [] | Some ds \<Rightarrow> ds))))
       (sort (map fst devicesByCard)))"

definition computeDevicesHash :: "'w env \<Rightarrow> Device list gomap \<Rightarrow> string" where
  "computeDevicesHash env devicesByCard = e_sha256 env (devices_text devicesByCard)"

definition card_devices :: "Device list gomap \<Rightarrow> string \<Rightarrow> Device list" where
  "card_devices devicesByCard cardID = (case map_of devicesByCard cardID of None \<Rightarrow> [] | Some ds \<Rightarrow> ds)"

definition CompareAndUpdate :: "'w env \<Rightarrow> Device list gomap \<Rightarrow> DeviceState \<Rightarrow> bool \<times> DeviceState" where
  "CompareAndUpdate env devicesByCard s =
     (let newHash = computeDevicesHash env devicesByCard in
      if newHash = previousHash s then (False, s)
      else
        (let alloc = fold (\<lambda>cardID. fold (\<lambda>device. AList.update (dev_Name device) device)
                                      (card_devices devicesByCard cardID))
                       (e_order env ''allocatable'' (map fst devicesByCard)) [];
             pools = fold (\<lambda>cardID. AList.update (nodeName s @ ''-'' @ cardID) [card_devices devicesByCard cardID])
                       (e_order env ''pools'' (map fst devicesByCard)) []
         in (True, s\<lparr>allocatable := alloc, driverResources := pools,
                    updateCount := wrap64 (updateCount s + 1), previousHash := newHash\<rparr>)))"

definition UpdateCount :: "DeviceState \<Rightarrow> int" where
  "UpdateCount s = updateCount s"

definition DriverResources :: "DeviceState \<Rightarrow> Device list list gomap" where
  "DriverResources s = driverResources s"

section \<open>Reading a claim\<close>

definition StringAttribute :: "Device \<Rightarrow> string \<Rightarrow> string option" where
  "StringAttribute device name =
     (case map_of (dev_Attributes device) name of None \<Rightarrow> None | Some attr \<Rightarrow> StringValue attr)"

fun deviceClassForRequest :: "DeviceRequest list \<Rightarrow> string \<Rightarrow> string option" where
  "deviceClassForRequest [] requestName = None"
| "deviceClassForRequest (req # reqs) requestName =
     (if req_Name req = requestName \<and> req_Exactly req \<noteq> None then req_Exactly req
      else deviceClassForRequest reqs requestName)"

text \<open>The loop that finds the claim's binding mode; the pair is \<open>(hasVM, hasContainer)\<close>.\<close>

fun binding_mode ::
  "string \<Rightarrow> DeviceRequest list \<Rightarrow> DeviceRequestAllocationResult list \<Rightarrow> bool \<times> bool \<Rightarrow> goerr + bool \<times> bool" where
  "binding_mode driver reqs [] acc = Inr acc"
| "binding_mode driver reqs (result # results) (hasVM, hasContainer) =
     (if res_Driver result \<noteq> driver then binding_mode driver reqs results (hasVM, hasContainer)
      else (case deviceClassForRequest reqs (res_Request result) of
              None \<Rightarrow> Inl (Errorf ''no request %q with an exactly clause in claim spec'' [FStr (res_Request result)])
            | Some dcName \<Rightarrow>
                if dcName = DeviceClassVM then binding_mode driver reqs results (True, hasContainer)
                else if dcName = DeviceClassContainer then binding_mode driver reqs results (hasVM, True)
                else Inl (Errorf ''unknown DeviceClass %q for request %q'' [FStr dcName, FStr (res_Request result)])))"

text \<open>Adding a key to a set.\<close>

definition add_key :: "'a \<Rightarrow> 'a list \<Rightarrow> 'a list" where
  "add_key x xs = (if x \<in> set xs then xs else xs @ [x])"

fun collect_results ::
  "DeviceState \<Rightarrow> DeviceRequestAllocationResult list \<Rightarrow> string list \<times> string list \<times> APQN list
   \<Rightarrow> goerr + string list \<times> string list \<times> APQN list" where
  "collect_results s [] acc = Inr acc"
| "collect_results s (result # results) (adapters, domains, allocated) =
     (if res_Driver result \<noteq> driverName s then collect_results s results (adapters, domains, allocated)
      else (case map_of (allocatable s) (res_Device result) of
              None \<Rightarrow> Inl (Errorf ''requested device is not allocatable: %q'' [FStr (res_Device result)])
            | Some device \<Rightarrow>
                (case (StringAttribute device ''cex.ibm.com/apid'', StringAttribute device ''cex.ibm.com/apqi'') of
                   (Some apid, Some apqi) \<Rightarrow>
                     if apid = [] \<or> apqi = []
                     then Inl (Errorf ''device %q missing apid or apqi attributes'' [FStr (res_Device result)])
                     else collect_results s results
                            (add_key apid adapters, add_key apqi domains, add_key \<lparr>APID = apid, APQI = apqi\<rparr> allocated)
                 | _ \<Rightarrow> Inl (Errorf ''device %q missing apid or apqi attributes'' [FStr (res_Device result)]))))"

definition matrix_violation :: "nat \<Rightarrow> nat \<Rightarrow> nat \<Rightarrow> goerr" where
  "matrix_violation a d n =
     Errorf ''matrix constraint violation: %d adapters x %d domains = %d queues, but only %d were allocated, so the mdev cross-product would include unallocated queues - constrain all queues to the same domain (apqi) using matchAttribute in the ResourceClaimTemplate''
       [FInt (int a), FInt (int d), FInt (int (a * d)), FInt (int n)]"

definition collectAllocatedAPQNs ::
  "DeviceState \<Rightarrow> DeviceRequestAllocationResult list \<Rightarrow> goerr + string list \<times> string list \<times> APQN list" where
  "collectAllocatedAPQNs s results =
     (case collect_results s results ([], [], []) of
        Inl err \<Rightarrow> Inl err
      | Inr (adapters, domains, allocated) \<Rightarrow>
          if length adapters * length domains \<noteq> length allocated
          then Inl (matrix_violation (length adapters) (length domains) (length allocated))
          else Inr (adapters, domains, allocated))"

fun devices_from_results ::
  "DeviceState \<Rightarrow> string list \<Rightarrow> DeviceRequestAllocationResult list \<Rightarrow> goerr + PreparedDevice list" where
  "devices_from_results s ids [] = Inr []"
| "devices_from_results s ids (result # results) =
     (if res_Driver result \<noteq> driverName s then devices_from_results s ids results
      else if map_of (allocatable s) (res_Device result) = None
      then Inl (Errorf ''requested device is not allocatable: %q'' [FStr (res_Device result)])
      else (case devices_from_results s ids results of
              Inl err \<Rightarrow> Inl err
            | Inr ds \<Rightarrow> Inr (\<lparr>pd_RequestNames = [res_Request result], pd_PoolName = res_Pool result,
                             pd_DeviceName = res_Device result, pd_CdiDeviceIds = ids\<rparr> # ds)))"

definition devicesFromClaim :: "DeviceState \<Rightarrow> ResourceClaim \<Rightarrow> string list \<Rightarrow> goerr + PreparedDevice list" where
  "devicesFromClaim s claim cdiDeviceIDs =
     (case claim_Allocation claim of
        None \<Rightarrow> Inl (Errorf ''claim not yet allocated'' [])
      | Some a \<Rightarrow> devices_from_results s cdiDeviceIDs (alloc_Results a))"

fun group_results :: "string \<Rightarrow> DeviceRequestAllocationResult list \<Rightarrow> DeviceInfo list gomap \<Rightarrow> DeviceInfo list gomap" where
  "group_results driver [] m = m"
| "group_results driver (r # rs) m =
     (if res_Driver r \<noteq> driver then group_results driver rs m
      else group_results driver rs
             (AList.update (res_Request r)
                ((case map_of m (res_Request r) of None \<Rightarrow> [] | Some ds \<Rightarrow> ds)
                 @ [\<lparr>di_Driver = res_Driver r, di_Pool = res_Pool r, di_Name = res_Device r\<rparr>]) m))"

definition groupResultsByRequest :: "DeviceState \<Rightarrow> DeviceRequestAllocationResult list \<Rightarrow> DeviceInfo list gomap" where
  "groupResultsByRequest s results = group_results (driverName s) results []"

section \<open>Building the mediated device\<close>

definition mdevMatrixEquals :: "'w os \<Rightarrow> string \<Rightarrow> APQN list \<Rightarrow> 'w \<Rightarrow> goerr + bool" where
  "mdevMatrixEquals os uuid allocated w =
     (case ReadMatrix os uuid w of
        Inl err \<Rightarrow> Inl err
      | Inr queues \<Rightarrow>
          if length queues \<noteq> length allocated then Inr False
          else Inr (list_all (\<lambda>q. q \<in> set allocated) queues))"

definition destroyPartialMdev :: "'w os \<Rightarrow> string \<Rightarrow> 'w \<Rightarrow> 'w" where
  "destroyPartialMdev os claimUID w = snd (Destroy os claimUID w)"

fun rollback :: "'w os \<Rightarrow> APQN list \<Rightarrow> 'w \<Rightarrow> 'w" where
  "rollback os [] w = w"
| "rollback os (sq # sqs) w = rollback os sqs (snd (SwitchToZcrypt os (APID sq) (APQI sq) w))"

text \<open>
  The switching loop; \<open>k\<close> counts the calls of \<open>ctx.Err()\<close>, of which \<open>lockCtx\<close> made the
  first, and \<open>switched\<close> is \<open>switchedAPQNs\<close>.
\<close>

fun switch_loop :: "'w os \<Rightarrow> ctx \<Rightarrow> nat \<Rightarrow> APQN list \<Rightarrow> APQN list \<Rightarrow> 'w \<Rightarrow> goerr option \<times> 'w" where
  "switch_loop os ctx k [] switched w = (None, w)"
| "switch_loop os ctx k (q # qs) switched w =
     (case ctx_Err ctx k of
        Some e \<Rightarrow> (Some (Wrapf ''switching queues to vfio-ap: %w'' [] (CtxError e)), rollback os switched w)
      | None \<Rightarrow>
          (case SwitchToVFIOAP os (APID q) (APQI q) w of
             (Some err, w1) \<Rightarrow>
               (Some (Wrapf ''switch queue %s.%s to vfio-ap: %w'' [FStr (APID q), FStr (APQI q)] err),
                rollback os (switched @ [q]) w1)
           | (None, w1) \<Rightarrow> switch_loop os ctx (Suc k) qs (switched @ [q]) w1))"

definition switchQueuesToVFIOAP :: "'w env \<Rightarrow> ctx \<Rightarrow> APQN list \<Rightarrow> 'w \<Rightarrow> goerr option \<times> 'w" where
  "switchQueuesToVFIOAP env ctx allocated w = switch_loop (e_os env) ctx 1 (e_qorder env allocated) [] w"

text \<open>One assignment per key, stopping at the first error.\<close>

fun assign_each :: "(string \<Rightarrow> 'w \<Rightarrow> goerr option \<times> 'w) \<Rightarrow> string list \<Rightarrow> 'w \<Rightarrow> goerr option \<times> 'w" where
  "assign_each op [] w = (None, w)"
| "assign_each op (x # xs) w =
     (case op x w of (Some err, w1) \<Rightarrow> (Some err, w1) | (None, w1) \<Rightarrow> assign_each op xs w1)"

definition assignMdevMatrix :: "'w env \<Rightarrow> string \<Rightarrow> string list \<Rightarrow> string list \<Rightarrow> 'w \<Rightarrow> goerr option \<times> 'w" where
  "assignMdevMatrix env claimUID adapters domains w =
     (case assign_each (AssignAdapter (e_os env) claimUID) (e_order env ''adapters'' adapters) w of
        (Some err, w1) \<Rightarrow> (Some err, w1)
      | (None, w1) \<Rightarrow> assign_each (AssignDomain (e_os env) claimUID) (e_order env ''domains'' domains) w1)"

definition assignMdevControlDomains :: "'w env \<Rightarrow> string \<Rightarrow> string \<Rightarrow> string list \<Rightarrow> 'w \<Rightarrow> goerr option \<times> 'w" where
  "assignMdevControlDomains env claimUID mode domains w =
     (if mode = ControlDomainModeUsageOnly then (None, w)
      else assign_each (AssignControlDomain (e_os env) claimUID) (e_order env ''control'' domains) w)"

text \<open>The build proper, after the matrix of an existing device has been looked at.\<close>

definition build_mdev ::
  "'w env \<Rightarrow> ctx \<Rightarrow> string \<Rightarrow> string \<Rightarrow> string list \<times> string list \<times> APQN list \<Rightarrow> 'w \<Rightarrow> goerr option \<times> 'w" where
  "build_mdev env ctx claimUID controlDomainMode sets w =
     (case sets of (adapters, domains, allocated) \<Rightarrow>
        (case switchQueuesToVFIOAP env ctx allocated w of
           (Some err, w1) \<Rightarrow> (Some err, w1)
         | (None, w1) \<Rightarrow>
             (case Create (e_os env) claimUID w1 of
                (Some err, w2) \<Rightarrow> (Some (Wrapf ''create mdev for claim %s: %w'' [FStr claimUID] err), w2)
              | (None, w2) \<Rightarrow>
                  (case assignMdevMatrix env claimUID adapters domains w2 of
                     (Some err, w3) \<Rightarrow> (Some err, destroyPartialMdev (e_os env) claimUID w3)
                   | (None, w3) \<Rightarrow>
                       (case assignMdevControlDomains env claimUID controlDomainMode domains w3 of
                          (Some err, w4) \<Rightarrow> (Some err, destroyPartialMdev (e_os env) claimUID w4)
                        | (None, w4) \<Rightarrow> (None, w4))))))"

definition ensureMdevForClaim ::
  "'w env \<Rightarrow> ctx \<Rightarrow> DeviceState \<Rightarrow> DeviceRequestAllocationResult list \<Rightarrow> string \<Rightarrow> string \<Rightarrow> 'w \<Rightarrow> goerr option \<times> 'w" where
  "ensureMdevForClaim env ctx s results claimUID controlDomainMode w =
     (case collectAllocatedAPQNs s results of
        Inl err \<Rightarrow> (Some err, w)
      | Inr (adapters, domains, allocated) \<Rightarrow>
          if Exists (e_os env) claimUID w then
            (case mdevMatrixEquals (e_os env) claimUID allocated w of
               Inl err \<Rightarrow> (Some (Wrapf ''read matrix of existing mdev for claim %s: %w'' [FStr claimUID] err), w)
             | Inr complete \<Rightarrow>
                 if complete then (None, w)
                 else (case Destroy (e_os env) claimUID w of
                         (Some err, w1) \<Rightarrow> (Some (Wrapf ''destroy partial mdev for claim %s: %w'' [FStr claimUID] err), w1)
                       | (None, w1) \<Rightarrow> build_mdev env ctx claimUID controlDomainMode (adapters, domains, allocated) w1))
          else build_mdev env ctx claimUID controlDomainMode (adapters, domains, allocated) w)"

section \<open>Prepare\<close>

definition claim_params :: "DeviceState \<Rightarrow> ResourceClaim \<Rightarrow> DeviceRequestAllocationResult list \<Rightarrow> ClaimParams" where
  "claim_params s claim results =
     \<lparr>cp_PluginDataDir = pluginDataDir s, cp_ClaimName = claim_Name claim, cp_ClaimNamespace = claim_Namespace claim,
      cp_ClaimUID = claim_UID claim, cp_DriverName = driverName s, cp_MdevUUID = claim_UID claim,
      cp_PodClaimName = (case map_of (claim_Annotations claim) PodClaimNameAnnotation of None \<Rightarrow> [] | Some ann \<Rightarrow> ann),
      cp_RequestDevices = groupResultsByRequest s results\<rparr>"

definition cdi_mounts :: "Mount list \<Rightarrow> CdiMount list" where
  "cdi_mounts ms = map (\<lambda>m. \<lparr>cm_HostPath = mnt_HostPath m, cm_ContainerPath = mnt_ContainerPath m,
                             cm_Options = [''ro'', ''bind'']\<rparr>) ms"

text \<open>The checks that precede any effect, lines 224 to 277: the binding mode and the configuration.\<close>

definition prepare_checks :: "'w env \<Rightarrow> DeviceState \<Rightarrow> ResourceClaim \<Rightarrow> goerr + AllocationResult \<times> bool \<times> CryptoConfig" where
  "prepare_checks env s claim =
     (case claim_Allocation claim of
        None \<Rightarrow> Inl (Errorf ''claim not yet allocated'' [])
      | Some a \<Rightarrow>
          (case binding_mode (driverName s) (claim_Requests claim) (alloc_Results a) (False, False) of
             Inl err \<Rightarrow> Inl err
           | Inr (hasVM, hasContainer) \<Rightarrow>
               if hasVM \<and> hasContainer
               then Inl (Errorf ''claim %s mixes VM and container DeviceClasses, which is not supported'' [FStr (claim_UID claim)])
               else if hasContainer \<and> \<not> e_gate env ContainerWorkload
               then Inl (Errorf ''DeviceClass %q requires the ContainerWorkload feature gate, which is disabled: the container passthrough path is not implemented in this release'' [FStr DeviceClassContainer])
               else if hasVM \<and> \<not> e_gate env VirtualMachineWorkload
               then Inl (Errorf ''DeviceClass %q requires the VirtualMachineWorkload feature gate, which is disabled on this node'' [FStr DeviceClassVM])
               else (case Resolve (driverName s) (alloc_Config a) of
                       Inl err \<Rightarrow> Inl (Wrapf ''resolve device configuration for claim %s: %w'' [FStr (claim_UID claim)] err)
                     | Inr cfg \<Rightarrow> Inr (a, hasContainer, cfg))))"

definition Prepare ::
  "'w env \<Rightarrow> ctx \<Rightarrow> DeviceState \<Rightarrow> ResourceClaim \<Rightarrow> 'w \<Rightarrow> (goerr + PreparedDevice list) \<times> 'w" where
  "Prepare env ctx s claim w =
     (case lockCtx ctx of
        Some err \<Rightarrow> (Inl err, w)
      | None \<Rightarrow>
          (case prepare_checks env s claim of
             Inl err \<Rightarrow> (Inl err, w)
           | Inr (a, hasContainer, cfg) \<Rightarrow>
               if hasContainer then (devicesFromClaim s claim [], w)
               else
                 (let claimUID = claim_UID claim in
                  case ValidateControlDomainMode (cc_ControlDomainMode cfg) of
                    Some err \<Rightarrow> (Inl (Wrapf ''claim %s: %w'' [FStr claimUID] err), w)
                  | None \<Rightarrow>
                      (case ensureMdevForClaim env ctx s (alloc_Results a) claimUID (cc_ControlDomainMode cfg) w of
                         (Some err, w1) \<Rightarrow> (Inl err, w1)
                       | (None, w1) \<Rightarrow>
                           (case GenerateClaimMetadata (e_os env) (e_order env ''requests'')
                                   (claim_params s claim (alloc_Results a)) w1 of
                              (Inl err, w2) \<Rightarrow> (Inl (Wrapf ''generate KEP-5304 metadata for claim %s: %w'' [FStr claimUID] err), w2)
                            | (Inr metaMounts, w2) \<Rightarrow>
                                (case GenerateClaimSpec (e_os env) (cdiRoot s) claimUID (cdi_mounts metaMounts) w2 of
                                   (Inl err, w3) \<Rightarrow> (Inl (Wrapf ''generate CDI spec for claim %s: %w'' [FStr claimUID] err), w3)
                                 | (Inr cdiDeviceID, w3) \<Rightarrow> (devicesFromClaim s claim [cdiDeviceID], w3)))))))"

section \<open>Unprepare\<close>

definition Unprepare :: "'w env \<Rightarrow> ctx \<Rightarrow> DeviceState \<Rightarrow> string \<Rightarrow> 'w \<Rightarrow> goerr option \<times> 'w" where
  "Unprepare env ctx s claimUID w =
     (let os = e_os env in
      case lockCtx ctx of
        Some err \<Rightarrow> (Some err, w)
      | None \<Rightarrow>
          (let wasVM = (Exists os claimUID w \<or> ClaimMetadataExists os (pluginDataDir s) claimUID w) in
           case DeleteClaimSpec os (cdiRoot s) claimUID w of
             (Some err, w1) \<Rightarrow> (Some (Wrapf ''delete CDI spec for claim %s: %w'' [FStr claimUID] err), w1)
           | (None, w1) \<Rightarrow>
               (let w2 = snd (DeleteClaimMetadata os (pluginDataDir s) claimUID w1);
                    apqns = (if Exists os claimUID w2
                             then (case ReadMatrix os claimUID w2 of Inl err \<Rightarrow> [] | Inr qs \<Rightarrow> qs) else [])
                in case Destroy os claimUID w2 of
                     (Some err, w3) \<Rightarrow> (Some (Wrapf ''destroy mdev for claim %s: %w'' [FStr claimUID] err), w3)
                   | (None, w3) \<Rightarrow>
                       if apqns = [] then
                         (if \<not> wasVM then (None, w3) else (None, snd (DrainOrphanedVFIOAP os w3)))
                       else (None, rollback os apqns w3))))"

end
