(* ===== verification/Lock.thy ===== *)
theory Lock
  imports Devicestate
begin

text \<open>
  The state lock of \<open>devicestate\<close> (\<open>lock\<close>, \<open>unlock\<close>, \<open>lockCtx\<close>): a channel of capacity
  one, here the flag whether it is full. A goroutine is a number; its program counter says
  where in a locking call it is. \<open>l_ended\<close> is the context of its call, once that has ended.
  Goroutines interleave freely, a holder may never return, and the \<open>select\<close> picks either
  ready branch.
\<close>

datatype lock_pc = Outside | Blocked | Entered | Selecting | Holding | Failed ctx_err

record lock_state =
  l_full :: bool
  l_pc :: "nat \<Rightarrow> lock_pc"
  l_ended :: "nat \<Rightarrow> ctx_err option"

definition lock_init :: lock_state where
  "lock_init = \<lparr>l_full = False, l_pc = (\<lambda>_. Outside), l_ended = (\<lambda>_. None)\<rparr>"

abbreviation (input) goto :: "nat \<Rightarrow> lock_pc \<Rightarrow> lock_state \<Rightarrow> lock_state" where
  "goto t c s \<equiv> s\<lparr>l_pc := (l_pc s)(t := c)\<rparr>"

inductive lock_step :: "nat \<Rightarrow> lock_state \<Rightarrow> lock_state \<Rightarrow> bool" for t :: nat where
  lock: "l_pc s t = Outside \<Longrightarrow> lock_step t s (goto t Blocked s)"
| send: "l_pc s t = Blocked \<Longrightarrow> \<not> l_full s \<Longrightarrow> lock_step t s ((goto t Holding s)\<lparr>l_full := True\<rparr>)"
| lockCtx: "l_pc s t = Outside \<Longrightarrow> lock_step t s ((goto t Entered s)\<lparr>l_ended := (l_ended s)(t := e)\<rparr>)"
| expired: "l_pc s t = Entered \<Longrightarrow> l_ended s t = Some e \<Longrightarrow> lock_step t s (goto t (Failed e) s)"
| checked: "l_pc s t = Entered \<Longrightarrow> l_ended s t = None \<Longrightarrow> lock_step t s (goto t Selecting s)"
| acquire: "l_pc s t = Selecting \<Longrightarrow> \<not> l_full s \<Longrightarrow> lock_step t s ((goto t Holding s)\<lparr>l_full := True\<rparr>)"
| ctx_done: "l_pc s t = Selecting \<Longrightarrow> l_ended s t = Some e \<Longrightarrow> lock_step t s (goto t (Failed e) s)"
| unlock: "l_pc s t = Holding \<Longrightarrow> l_full s \<Longrightarrow> lock_step t s ((goto t Outside s)\<lparr>l_full := False\<rparr>)"
| report: "l_pc s t = Failed e \<Longrightarrow> lock_step t s (goto t Outside s)"
| deadline: "l_ended s t = None \<Longrightarrow> lock_step t s (s\<lparr>l_ended := (l_ended s)(t := Some e)\<rparr>)"

inductive_cases lock_stepE: "lock_step t s s'"

inductive lock_reachable :: "lock_state \<Rightarrow> bool" where
  init: "lock_reachable lock_init"
| more: "lock_reachable s \<Longrightarrow> lock_step t s s' \<Longrightarrow> lock_reachable s'"

section \<open>The invariant\<close>

definition lock_inv :: "lock_state \<Rightarrow> bool" where
  "lock_inv s \<longleftrightarrow> (\<forall>t u. l_pc s t = Holding \<longrightarrow> l_pc s u = Holding \<longrightarrow> t = u) \<and> l_full s = (\<exists>t. l_pc s t = Holding)"

lemma lock_inv_step:
  assumes "lock_step t s s'" and "lock_inv s"
  shows "lock_inv s'"
proof -
  have one: "\<And>t u. l_pc s t = Holding \<Longrightarrow> l_pc s u = Holding \<Longrightarrow> t = u" and full: "l_full s = (\<exists>t. l_pc s t = Holding)"
    using assms(2) by (auto simp: lock_inv_def)
  have still: "lock_inv v" if "l_full v = l_full s" "\<And>u. u \<noteq> t \<Longrightarrow> l_pc v u = l_pc s u" "l_pc s t \<noteq> Holding" "l_pc v t \<noteq> Holding" for v
  proof -
    have "(l_pc v u = Holding) = (l_pc s u = Holding)" for u using that(2) [of u] that(3,4) by (cases "u = t") auto
    then show ?thesis using assms(2) that(1) by (simp add: lock_inv_def)
  qed
  have taken: "lock_inv v" if "\<not> l_full s" "l_full v" "\<And>u. u \<noteq> t \<Longrightarrow> l_pc v u = l_pc s u" "l_pc v t = Holding" for v
  proof -
    have "l_pc v u = Holding \<longleftrightarrow> u = t" for u using full that(1) that(3) [of u] that(4) by (cases "u = t") auto
    then show ?thesis using that(2) by (simp add: lock_inv_def)
  qed
  show ?thesis using assms(1)
  proof (cases rule: lock_step.cases)
    case unlock
    have "l_pc s' u \<noteq> Holding" for u using one [of u t] unlock by (cases "u = t") auto
    then show ?thesis using unlock(1) by (simp add: lock_inv_def)
  next
    case deadline
    then show ?thesis using assms(2) by (simp add: lock_inv_def)
  qed (use still taken in auto)
qed

lemma lock_reachable_inv: "lock_reachable s \<Longrightarrow> lock_inv s"
proof (induction rule: lock_reachable.induct)
  case init
  show ?case by (simp add: lock_inv_def lock_init_def)
next
  case more
  then show ?case by (blast intro: lock_inv_step)
qed

section \<open>One call among the others\<close>

text \<open>
  Runs of all goroutines during one locking call of goroutine \<open>t\<close>, that is until it is
  outside again, in which \<open>P\<close> stays true.
\<close>

definition during_call :: "nat \<Rightarrow> (lock_state \<Rightarrow> bool) \<Rightarrow> lock_state \<Rightarrow> lock_state \<Rightarrow> bool" where
  "during_call t P s s' \<longleftrightarrow> (\<exists>u. lock_step u s s') \<and> l_pc s' t \<noteq> Outside \<and> P s'"

lemma others_keep: "lock_step u s s' \<Longrightarrow> u \<noteq> t \<Longrightarrow> l_pc s' t = l_pc s t \<and> l_ended s' t = l_ended s t"
  by (cases rule: lock_step.cases) auto

lemma rejected_step:
  assumes "lock_step t s s'" "l_pc s t \<in> {Entered, Failed e}" "l_ended s t = Some e" "l_pc s' t \<noteq> Outside"
  shows "l_pc s' t = Failed e \<and> l_ended s' t = Some e"
  using assms by (cases rule: lock_step.cases) auto

text \<open>A context that has ended when the call looks keeps the call out for good.\<close>

lemma rejected_run:
  assumes "(during_call t P)\<^sup>*\<^sup>* s s'" "l_pc s t = Entered" "l_ended s t = Some e"
  shows "l_pc s' t \<in> {Entered, Failed e} \<and> l_ended s' t = Some e"
  using assms(1)
proof (induction rule: rtranclp_induct)
  case (step v x)
  then obtain u where "lock_step u v x" "l_pc x t \<noteq> Outside" by (auto simp: during_call_def)
  then show ?case using step.IH rejected_step [of t v x e] others_keep [of u v x t] by (cases "u = t") auto
qed (use assms in simp)

text \<open>Behind a holder, a call whose context has ended can only leave.\<close>

lemma behind_holder_step:
  assumes "lock_step t s s'" "l_full s" "l_pc s t \<in> {Selecting, Failed e}" "l_ended s t = Some e" "l_pc s' t \<noteq> Outside"
  shows "l_pc s' t = Failed e \<and> l_ended s' t = Some e"
  using assms by (cases rule: lock_step.cases) auto

lemma behind_holder_run:
  assumes "(during_call t (\<lambda>s. l_pc s u = Holding))\<^sup>*\<^sup>* s s'" "lock_inv s" "l_pc s u = Holding"
    "l_pc s t = Selecting" "l_ended s t = Some e"
  shows "lock_inv s' \<and> l_pc s' u = Holding \<and> l_pc s' t \<in> {Selecting, Failed e} \<and> l_ended s' t = Some e"
  using assms(1)
proof (induction rule: rtranclp_induct)
  case (step v x)
  then obtain w where w: "lock_step w v x" "l_pc x t \<noteq> Outside" "l_pc x u = Holding" by (auto simp: during_call_def)
  have "l_full v" using step.IH by (auto simp: lock_inv_def)
  then show ?case
    using step.IH w behind_holder_step [of t v x e] others_keep [of w v x t] lock_inv_step by (cases "w = t") auto
qed (use assms in simp)

section \<open>Properties\<close>

text \<open>
  C36. The lock excludes and never traps. In every reachable state at most one goroutine holds
  the state, and releasing never blocks. A call whose context had ended when it looked for
  the first time never comes to hold the lock, whatever the other goroutines do: it stays
  where it is or fails with the context's error. A call whose context ends while it waits
  behind a holder that does not release can only leave with that error, and can do so at any
  time. (If the lock is free at that moment as well, \<open>select\<close> may also take it.) When
  nobody holds the lock, every waiting goroutine can take it.
\<close>

theorem lock_safe_and_live:
  assumes "lock_reachable s"
  shows "(\<forall>t u. l_pc s t = Holding \<longrightarrow> l_pc s u = Holding \<longrightarrow> t = u)
    \<and> (\<forall>t. l_pc s t = Holding \<longrightarrow> (\<exists>s'. lock_step t s s' \<and> l_pc s' t = Outside \<and> \<not> l_full s'))
    \<and> (\<forall>t e s'. l_pc s t = Entered \<longrightarrow> l_ended s t = Some e \<longrightarrow> (during_call t (\<lambda>_. True))\<^sup>*\<^sup>* s s'
         \<longrightarrow> l_pc s' t \<in> {Entered, Failed e})
    \<and> (\<forall>t u e s'. l_pc s u = Holding \<longrightarrow> l_pc s t = Selecting \<longrightarrow> l_ended s t = Some e
         \<longrightarrow> (during_call t (\<lambda>s. l_pc s u = Holding))\<^sup>*\<^sup>* s s'
         \<longrightarrow> l_pc s' t = Failed e \<or> l_pc s' t = Selecting \<and> (\<exists>v. lock_step t s' v \<and> l_pc v t = Failed e))
    \<and> ((\<forall>u. l_pc s u \<noteq> Holding) \<longrightarrow> (\<forall>t. l_pc s t \<in> {Blocked, Selecting} \<longrightarrow> (\<exists>s'. lock_step t s s' \<and> l_pc s' t = Holding)))"
proof -
  have inv: "lock_inv s" using assms by (rule lock_reachable_inv)
  have excl: "t = u" if "l_pc s t = Holding" "l_pc s u = Holding" for t u
    using inv that unfolding lock_inv_def by blast
  have rel: "\<exists>s'. lock_step t s s' \<and> l_pc s' t = Outside \<and> \<not> l_full s'" if "l_pc s t = Holding" for t
    using lock_step.unlock [OF that] inv that unfolding lock_inv_def by (intro exI [of _ "(goto t Outside s)\<lparr>l_full := False\<rparr>"]) auto
  have leave: "\<exists>v. lock_step t s' v \<and> l_pc v t = Failed e" if "l_pc s' t = Selecting" "l_ended s' t = Some e" for s' t e
    using lock_step.ctx_done [OF that] by (intro exI conjI) auto
  have free: "\<exists>s'. lock_step t s s' \<and> l_pc s' t = Holding" if "\<forall>u. l_pc s u \<noteq> Holding" "l_pc s t \<in> {Blocked, Selecting}" for t
  proof -
    have "\<not> l_full s" using inv that(1) unfolding lock_inv_def by blast
    then show ?thesis using that(2) lock_step.send [of s t] lock_step.acquire [of s t] by fastforce
  qed
  have "l_pc s' t = Failed e \<or> l_pc s' t = Selecting \<and> (\<exists>v. lock_step t s' v \<and> l_pc v t = Failed e)"
    if "l_pc s u = Holding" "l_pc s t = Selecting" "l_ended s t = Some e" "(during_call t (\<lambda>s. l_pc s u = Holding))\<^sup>*\<^sup>* s s'" for t u e s'
    using behind_holder_run [OF that(4) inv that(1-3)] leave [of s' t e] by auto
  then show ?thesis using excl rel rejected_run free by blast
qed

text \<open>One goroutine holds the lock for good, a second runs into its deadline behind it.\<close>

definition lock_stuck :: lock_state where
  "lock_stuck = \<lparr>l_full = True, l_pc = (\<lambda>_. Outside)(0 := Holding, 1 := Selecting), l_ended = (\<lambda>_. None)(1 := Some DeadlineExceeded)\<rparr>"

lemma lock_stuck_reachable: "lock_reachable lock_stuck"
proof -
  let ?i = lock_init
  let ?a = "goto 0 Blocked ?i"
  let ?b = "(goto 0 Holding ?a)\<lparr>l_full := True\<rparr>"
  let ?c = "(goto 1 Entered ?b)\<lparr>l_ended := (l_ended ?b)(1 := None)\<rparr>"
  let ?d = "goto 1 Selecting ?c"
  let ?e = "?d\<lparr>l_ended := (l_ended ?d)(1 := Some DeadlineExceeded)\<rparr>"
  have "lock_step 0 ?i ?a" by (rule lock_step.lock) (simp add: lock_init_def)
  moreover have "lock_step 0 ?a ?b" by (rule lock_step.send) (simp_all add: lock_init_def)
  moreover have "lock_step 1 ?b ?c" by (rule lock_step.lockCtx) (simp add: lock_init_def)
  moreover have "lock_step 1 ?c ?d" by (rule lock_step.checked) simp_all
  moreover have "lock_step 1 ?d ?e" by (rule lock_step.deadline) simp
  moreover have "?e = lock_stuck" by (simp add: lock_stuck_def lock_init_def fun_eq_iff)
  ultimately show ?thesis by (metis lock_reachable.intros)
qed

theorem lock_safe_and_live_witness:
  "l_pc lock_stuck 0 = Holding \<and> (\<exists>s'. lock_step 1 lock_stuck s' \<and> l_pc s' 1 = Failed DeadlineExceeded)
   \<and> (\<lambda>s'. l_pc s' 1) ` {s'. (during_call 1 (\<lambda>s. l_pc s 0 = Holding))\<^sup>*\<^sup>* lock_stuck s'} \<subseteq> {Selecting, Failed DeadlineExceeded}"
proof -
  let ?run = "(during_call 1 (\<lambda>s. l_pc s 0 = Holding))\<^sup>*\<^sup>* lock_stuck"
  have at: "l_pc lock_stuck 0 = Holding" "l_pc lock_stuck 1 = Selecting" "l_ended lock_stuck 1 = Some DeadlineExceeded"
    by (simp_all add: lock_stuck_def)
  then have all: "l_pc s' 1 = Failed DeadlineExceeded \<or> l_pc s' 1 = Selecting \<and> (\<exists>v. lock_step 1 s' v \<and> l_pc v 1 = Failed DeadlineExceeded)"
    if "?run s'" for s'
    using lock_safe_and_live [OF lock_stuck_reachable] that by blast
  show ?thesis using all [of lock_stuck] all at by auto
qed

end
