(* ===== verification/Allocation_Props.thy ===== *)
theory Allocation_Props
  imports Devicestate "HOL-Library.Multiset"
begin

text \<open>
  What the pure parts of \<open>state.go\<close> compute: the queues of an allocation and the matrix
  constraint, the checks that come before any effect, and change detection.
\<close>

section \<open>The queues of an allocation\<close>

text \<open>The queue an allocation result names, and whether the result is this driver's.\<close>

definition result_apqn :: "DeviceState \<Rightarrow> DeviceRequestAllocationResult \<Rightarrow> APQN option" where
  "result_apqn s result =
     (case map_of (allocatable s) (res_Device result) of
        None \<Rightarrow> None
      | Some device \<Rightarrow>
          (case (StringAttribute device ''cex.ibm.com/apid'', StringAttribute device ''cex.ibm.com/apqi'') of
             (Some apid, Some apqi) \<Rightarrow> if apid = [] \<or> apqi = [] then None else Some \<lparr>APID = apid, APQI = apqi\<rparr>
           | _ \<Rightarrow> None))"

definition own_results :: "DeviceState \<Rightarrow> DeviceRequestAllocationResult list \<Rightarrow> DeviceRequestAllocationResult list" where
  "own_results s results = filter (\<lambda>r. res_Driver r = driverName s) results"

definition allocated_set :: "DeviceState \<Rightarrow> DeviceRequestAllocationResult list \<Rightarrow> APQN set" where
  "allocated_set s results = {q. \<exists>r \<in> set (own_results s results). result_apqn s r = Some q}"

lemma add_key_simps [simp]: "set (add_key x xs) = insert x (set xs)" "distinct (add_key x xs) = distinct xs"
  by (auto simp: add_key_def)

lemma collect_results_step:
  "collect_results s (r # rs) (as, ds, al) =
     (if res_Driver r \<noteq> driverName s then collect_results s rs (as, ds, al)
      else (case result_apqn s r of
              None \<Rightarrow> Inl (if map_of (allocatable s) (res_Device r) = None
                 then Errorf ''requested device is not allocatable: %q'' [FStr (res_Device r)]
                 else Errorf ''device %q missing apid or apqi attributes'' [FStr (res_Device r)])
            | Some q \<Rightarrow> collect_results s rs (add_key (APID q) as, add_key (APQI q) ds, add_key q al)))"
  by (auto simp: result_apqn_def split: option.splits)

lemma collect_results_Inr:
  "(\<exists>x. collect_results s rs acc = Inr x) \<longleftrightarrow> (\<forall>r \<in> set (own_results s rs). result_apqn s r \<noteq> None)"
proof (induction rs arbitrary: acc)
  case (Cons r rs)
  obtain as ds al where acc: "acc = (as, ds, al)" by (cases acc)
  show ?case
    unfolding acc collect_results_step using Cons.IH by (auto simp: own_results_def split: option.splits)
qed (auto simp: own_results_def)

lemma collect_results_sets:
  assumes "collect_results s rs (as, ds, al) = Inr (as', ds', al')"
  shows "set al' = set al \<union> allocated_set s rs \<and> set as' = set as \<union> APID ` allocated_set s rs
    \<and> set ds' = set ds \<union> APQI ` allocated_set s rs
    \<and> distinct al' = distinct al \<and> distinct as' = distinct as \<and> distinct ds' = distinct ds"
  using assms
proof (induction rs arbitrary: as ds al)
  case (Cons r rs)
  have own: "allocated_set s (r # rs) = (if res_Driver r = driverName s
      then {q. result_apqn s r = Some q} \<union> allocated_set s rs else allocated_set s rs)"
    by (auto simp: allocated_set_def own_results_def)
  show ?case
  proof (cases "res_Driver r = driverName s")
    case False
    then show ?thesis using Cons.IH [of as ds al] Cons.prems own by (simp del: collect_results.simps add: collect_results_step)
  next
    case True
    then obtain q where q: "result_apqn s r = Some q"
      "collect_results s rs (add_key (APID q) as, add_key (APQI q) ds, add_key q al) = Inr (as', ds', al')"
      using Cons.prems by (auto simp: collect_results_step simp del: collect_results.simps split: option.splits)
    have "{q'. result_apqn s r = Some q'} = {q}" using q(1) by auto
    then have "allocated_set s (r # rs) = insert q (allocated_set s rs)" using True own by simp
    then show ?thesis using Cons.IH [OF q(2)] by simp
  qed
qed (simp add: allocated_set_def own_results_def)

text \<open>A set of queues that is the cross product of its adapters and its domains.\<close>

definition rectangle :: "APQN set \<Rightarrow> bool" where
  "rectangle S \<longleftrightarrow> (\<forall>p \<in> S. \<forall>q \<in> S. \<lparr>APID = APID p, APQI = APQI q\<rparr> \<in> S)"

definition cross :: "string set \<Rightarrow> string set \<Rightarrow> APQN set" where
  "cross A D = {q. APID q \<in> A \<and> APQI q \<in> D}"

lemma cross_image: "cross A D = (\<lambda>(a, d). \<lparr>APID = a, APQI = d\<rparr>) ` (A \<times> D)"
proof -
  have "q \<in> (\<lambda>(a, d). \<lparr>APID = a, APQI = d\<rparr>) ` (A \<times> D) \<longleftrightarrow> APID q \<in> A \<and> APQI q \<in> D" for q :: APQN
    by (cases q) force
  then show ?thesis by (auto simp: cross_def)
qed

lemma card_cross: "card (cross A D) = card A * card D"
  unfolding cross_image
  by (subst card_image) (auto simp: inj_on_def card_cartesian_product)

lemma finite_cross: "finite A \<Longrightarrow> finite D \<Longrightarrow> finite (cross A D)"
  by (simp add: cross_image)

lemma rectangle_cross: "rectangle S \<longleftrightarrow> cross (APID ` S) (APQI ` S) = S"
proof
  assume r: "rectangle S"
  have "q \<in> S" if "APID q = APID p" "p \<in> S" "APQI q = APQI p'" "p' \<in> S" for p p' and q :: APQN
  proof -
    have "\<lparr>APID = APID p, APQI = APQI p'\<rparr> \<in> S" using r that unfolding rectangle_def by blast
    moreover have "\<lparr>APID = APID p, APQI = APQI p'\<rparr> = q" using that(1,3) [symmetric] by simp
    ultimately show ?thesis by (rule back_subst [where P = "\<lambda>x. x \<in> S"])
  qed
  then have "cross (APID ` S) (APQI ` S) \<subseteq> S" unfolding cross_def by blast
  moreover have "S \<subseteq> cross (APID ` S) (APQI ` S)" unfolding cross_def by blast
  ultimately show "cross (APID ` S) (APQI ` S) = S" by (rule subset_antisym)
next
  assume "cross (APID ` S) (APQI ` S) = S"
  moreover have "\<lparr>APID = APID p, APQI = APQI q\<rparr> \<in> cross (APID ` S) (APQI ` S)" if "p \<in> S" "q \<in> S" for p q
    using that by (simp add: cross_def)
  ultimately show "rectangle S" by (auto simp: rectangle_def)
qed

text \<open>Counting decides: the product of the sizes is the size of the set exactly for a rectangle.\<close>

lemma rectangle_card:
  assumes "finite S"
  shows "card (APID ` S) * card (APQI ` S) = card S \<longleftrightarrow> rectangle S"
proof -
  have sub: "S \<subseteq> cross (APID ` S) (APQI ` S)" by (auto simp: cross_def)
  have "finite (cross (APID ` S) (APQI ` S))" using assms by (simp add: finite_cross)
  then show ?thesis
    unfolding rectangle_cross card_cross [symmetric] using card_subset_eq [OF _ sub] by metis
qed

lemma collectAllocatedAPQNs_sets:
  assumes "collectAllocatedAPQNs s rs = Inr (as, ds, al)"
  shows "set al = allocated_set s rs" "set as = APID ` set al" "set ds = APQI ` set al"
    "distinct al" "distinct as" "distinct ds" "cross (set as) (set ds) = set al"
proof -
  have c: "collect_results s rs ([], [], []) = Inr (as, ds, al)"
    and n: "length as * length ds = length al"
    using assms by (auto simp: collectAllocatedAPQNs_def split: sum.splits if_splits prod.splits)
  note st = collect_results_sets [OF c]
  show "set al = allocated_set s rs" "set as = APID ` set al" "set ds = APQI ` set al"
    "distinct al" "distinct as" "distinct ds" using st by simp_all
  then have "card (APID ` set al) * card (APQI ` set al) = card (set al)"
    using n by (metis distinct_card)
  then show "cross (set as) (set ds) = set al"
    using rectangle_card [OF finite_set, of al] rectangle_cross [of "set al"] st by simp
qed

lemma allocated_set_not_Nil: "q \<in> allocated_set s rs \<Longrightarrow> APID q \<noteq> [] \<and> APQI q \<noteq> []"
  by (cases q) (auto simp: allocated_set_def result_apqn_def split: option.split_asm if_split_asm)

text \<open>
  C6. The matrix constraint: collecting the queues of an allocation succeeds exactly when
  every result of this driver names an allocatable device with both attributes and the
  queues form a full rectangle. The adapters and domains it then returns have a cross
  product that is exactly the set of allocated queues, so a mediated device built from them
  can never reach a queue the claim was not given.
\<close>

theorem collectAllocatedAPQNs_matrix:
  "case collectAllocatedAPQNs s rs of
     Inl err \<Rightarrow> (\<exists>r \<in> set (own_results s rs). result_apqn s r = None) \<or> \<not> rectangle (allocated_set s rs)
   | Inr (as, ds, al) \<Rightarrow> (\<forall>r \<in> set (own_results s rs). result_apqn s r \<noteq> None) \<and> rectangle (allocated_set s rs)
       \<and> set al = allocated_set s rs \<and> cross (set as) (set ds) = allocated_set s rs
       \<and> distinct al \<and> distinct as \<and> distinct ds"
proof (cases "collect_results s rs ([], [], [])")
  case (Inl e)
  then show ?thesis
    using collect_results_Inr [of s rs "([], [], [])"] by (simp add: collectAllocatedAPQNs_def)
next
  case (Inr x)
  obtain as ds al where x: "x = (as, ds, al)" by (cases x)
  note st = collect_results_sets [OF Inr [unfolded x]]
  have "set al = allocated_set s rs" "set as = APID ` set al" "set ds = APQI ` set al"
    "distinct al" "distinct as" "distinct ds" using st by simp_all
  then have "length as * length ds = length al \<longleftrightarrow> rectangle (allocated_set s rs)"
    using rectangle_card [of "set al"] by (metis distinct_card finite_set)
  moreover have "\<forall>r \<in> set (own_results s rs). result_apqn s r \<noteq> None"
    using Inr collect_results_Inr by blast
  moreover have "collectAllocatedAPQNs s rs = Inr (as, ds, al)" if "length as * length ds = length al"
    using that Inr x by (simp add: collectAllocatedAPQNs_def)
  ultimately show ?thesis
    using Inr x collectAllocatedAPQNs_sets [of s rs as ds al]
    by (cases "length as * length ds = length al") (simp_all add: collectAllocatedAPQNs_def)
qed

section \<open>Change detection\<close>

text \<open>A loop that fills a map, over keys that do not repeat.\<close>

lemma map_of_fold_update:
  assumes "distinct (map k xs)"
  shows "map_of (fold (\<lambda>x. AList.update (k x) (v x)) xs m) y
       = (case find (\<lambda>x. k x = y) xs of None \<Rightarrow> map_of m y | Some x \<Rightarrow> Some (v x))"
  using assms
proof (induction xs arbitrary: m)
  case (Cons x xs)
  have "find (\<lambda>z. k z = y) xs = None" if "k x = y"
    using that Cons.prems by (auto simp: find_None_iff) (metis image_eqI)
  then show ?case using Cons by (auto simp: update_conv' split: option.splits)
qed simp

lemma find_key: "distinct (map k xs) \<Longrightarrow> find (\<lambda>x. k x = y) xs = Some x \<longleftrightarrow> x \<in> set xs \<and> k x = y"
  by (induction xs) force+

lemma map_of_fold_update_iff:
  assumes "distinct (map k xs)"
  shows "map_of (fold (\<lambda>x. AList.update (k x) (v x)) xs []) y = Some z \<longleftrightarrow> (\<exists>x \<in> set xs. k x = y \<and> v x = z)"
proof (cases "find (\<lambda>x. k x = y) xs")
  case None
  then have "map_of (fold (\<lambda>x. AList.update (k x) (v x)) xs []) y = None"
    by (simp add: map_of_fold_update [OF assms])
  then show ?thesis using None by (auto simp: find_None_iff)
next
  case (Some x)
  then have x: "x \<in> set xs" "k x = y" by (simp_all add: find_key [OF assms])
  have "inj_on k (set xs)" using assms by (simp add: distinct_map)
  then have "x' = x" if "x' \<in> set xs" "k x' = y" for x'
    using that x inj_onD [of k "set xs" x' x] by simp
  moreover have "map_of (fold (\<lambda>x. AList.update (k x) (v x)) xs []) y = Some (v x)"
    using Some by (simp add: map_of_fold_update [OF assms])
  ultimately show ?thesis using x by (metis option.inject)
qed

lemma fold_concat_map: "fold (\<lambda>c. fold f (g c)) cs s = fold f (concat (map g cs)) s"
  by (induction cs arbitrary: s) auto

text \<open>
  The inventory as the scanner hands it over: no card twice, and no device name twice on the
  node.
\<close>

definition inventory_devices :: "Device list gomap \<Rightarrow> Device list" where
  "inventory_devices m = concat (map snd m)"

definition wf_inventory :: "Device list gomap \<Rightarrow> bool" where
  "wf_inventory m \<longleftrightarrow> distinct (map fst m) \<and> distinct (map dev_Name (inventory_devices m))
     \<and> list_all (\<lambda>d. distinct (map fst (dev_Attributes d))) (inventory_devices m)"

text \<open>
  The same inventory, with its maps and lists in any order; \<open>canon\<close> puts the attributes of
  a device in order.
\<close>

definition canon :: "Device \<Rightarrow> Device" where
  "canon d = d\<lparr>dev_Attributes := sort_key fst (dev_Attributes d)\<rparr>"

definition same_inventory :: "Device list gomap \<Rightarrow> Device list gomap \<Rightarrow> bool" where
  "same_inventory m n \<longleftrightarrow> mset (map fst m) = mset (map fst n)
     \<and> (\<forall>c \<in> set (map fst m). mset (map canon (card_devices m c)) = mset (map canon (card_devices n c)))"

lemma sort_mset: "mset xs = mset ys \<Longrightarrow> sort xs = (sort ys :: 'a :: linorder list)"
  by (metis properties_for_sort mset_sort sorted_sort)

lemma sort_key_mset:
  assumes "mset xs = mset ys" "distinct (map f xs)"
  shows "sort_key f xs = sort_key f ys"
proof -
  have "inj_on f (set xs)" using assms(2) by (simp add: distinct_map)
  then show ?thesis using assms(1) by (intro sort_key_inj_key_eq) auto
qed

lemma map_sort_key:
  assumes "\<And>x. f (g x) = f x"
  shows "map g (sort_key f xs) = sort_key f (map g xs)"
proof (induction xs)
  case (Cons x xs)
  have "map g (insort_key f x ys) = insort_key f (g x) (map g ys)" for ys
    by (induction ys) (simp_all add: assms)
  then show ?case using Cons by simp
qed simp

lemma map_of_sort_key: "distinct (map fst xs) \<Longrightarrow> map_of (sort_key fst xs) = map_of xs"
  by (rule map_of_eqI) (auto simp: distinct_map inj_on_def intro: map_of_eq_Some_iff [THEN iffD2])

lemma device_text_canon:
  assumes "distinct (map fst (dev_Attributes d))"
  shows "device_text (canon d) = device_text d"
proof -
  have "sort (map fst (sort_key fst xs)) = sort (map fst xs)" for xs :: "DeviceAttribute gomap"
    by (rule sort_mset) simp
  then show ?thesis by (simp add: device_text_def canon_def map_of_sort_key [OF assms])
qed

lemma card_devices_wf:
  assumes "wf_inventory m"
  shows "distinct (map dev_Name (card_devices m c))"
    "d \<in> set (card_devices m c) \<Longrightarrow> distinct (map fst (dev_Attributes d))"
proof -
  have "distinct (map dev_Name (card_devices m c)) \<and>
      (\<forall>d \<in> set (card_devices m c). distinct (map fst (dev_Attributes d)))"
  proof (cases "map_of m c")
    case (Some ds)
    then have "(c, ds) \<in> set m" by (rule map_of_SomeD)
    then show ?thesis
      using assms Some
      by (force simp: wf_inventory_def inventory_devices_def map_concat distinct_concat_iff list_all_iff card_devices_def)
  qed (simp add: card_devices_def)
  then show "distinct (map dev_Name (card_devices m c))"
    "d \<in> set (card_devices m c) \<Longrightarrow> distinct (map fst (dev_Attributes d))" by auto
qed

lemma devices_text_same:
  assumes "wf_inventory m" "wf_inventory n" "same_inventory m n"
  shows "devices_text m = devices_text n"
proof -
  have keys: "sort (map fst m) = sort (map fst n)" using assms(3) by (intro sort_mset) (simp add: same_inventory_def)
  have canon_texts: "map device_text (sort_key dev_Name ds) = map device_text (sort_key dev_Name (map canon ds))"
    if "\<forall>d \<in> set ds. distinct (map fst (dev_Attributes d))" for ds
  proof -
    have "map device_text (sort_key dev_Name ds) = map device_text (map canon (sort_key dev_Name ds))"
      using that by (simp add: device_text_canon)
    then show ?thesis by (simp add: map_sort_key canon_def)
  qed
  have "map device_text (sort_key dev_Name (card_devices m c)) = map device_text (sort_key dev_Name (card_devices n c))"
    if "c \<in> set (map fst m)" for c
  proof -
    have "sort_key dev_Name (map canon (card_devices m c)) = sort_key dev_Name (map canon (card_devices n c))"
      using that assms(3) card_devices_wf(1) [OF assms(1), of c]
      by (intro sort_key_mset) (auto simp: same_inventory_def canon_def comp_def)
    then show ?thesis
      using canon_texts card_devices_wf(2) [OF assms(1)] card_devices_wf(2) [OF assms(2)] by simp
  qed
  then show ?thesis
    unfolding devices_text_def card_devices_def [symmetric] keys [symmetric]
    by (intro arg_cong [where f = concat] map_cong) auto
qed

lemma concat_cards:
  assumes "distinct (map fst m)" "set cs = set (map fst m)" "distinct cs"
  shows "mset (concat (map (card_devices m) cs)) = mset (inventory_devices m)"
proof -
  have "mset cs = mset (map fst m)" using assms by (metis set_eq_iff_mset_eq_distinct)
  then have "mset (map (card_devices m) cs) = mset (map (card_devices m) (map fst m))"
    by (simp del: map_map)
  then have "mset (concat (map (card_devices m) cs)) = mset (concat (map (card_devices m) (map fst m)))"
    unfolding mset_concat by (metis mset_map sum_mset_sum_list)
  moreover have "card_devices m (fst x) = snd x" if "x \<in> set m" for x
    using map_of_is_SomeI [OF assms(1), of "fst x" "snd x"] that by (simp add: card_devices_def)
  then have "map (card_devices m) (map fst m) = map snd m" by simp
  ultimately show ?thesis by (simp only: inventory_devices_def)
qed

lemma card_pool: "map_of m c = Some ds \<longleftrightarrow> c \<in> set (map fst m) \<and> card_devices m c = ds"
proof (cases "map_of m c")
  case None
  then have "c \<notin> set (map fst m)" by (simp add: map_of_eq_None_iff)
  then show ?thesis using None by simp
next
  case (Some es)
  then have "c \<in> set (map fst m)" using map_of_SomeD [OF Some] by force
  then show ?thesis using Some by (simp add: card_devices_def)
qed

text \<open>
  Changes a scan can bring: one attribute of one device gets another value, or devices, with
  or without their cards, come or go.
\<close>

definition set_attr :: "string \<Rightarrow> string \<Rightarrow> DeviceAttribute \<Rightarrow> Device \<Rightarrow> Device" where
  "set_attr n k v d = (if dev_Name d = n then d\<lparr>dev_Attributes := AList.update k v (dev_Attributes d)\<rparr> else d)"

definition with_attr :: "string \<Rightarrow> string \<Rightarrow> DeviceAttribute \<Rightarrow> Device list gomap \<Rightarrow> Device list gomap" where
  "with_attr n k v m = map (\<lambda>(c, ds). (c, map (set_attr n k v) ds)) m"

definition other_value :: "DeviceAttribute \<Rightarrow> DeviceAttribute \<Rightarrow> bool" where
  "other_value a v \<longleftrightarrow>
     (\<exists>x y. a = \<lparr>StringValue = Some x, IntValue = None\<rparr> \<and> v = \<lparr>StringValue = Some y, IntValue = None\<rparr> \<and> x \<noteq> y)
   \<or> (\<exists>x y. a = \<lparr>StringValue = None, IntValue = Some x\<rparr> \<and> v = \<lparr>StringValue = None, IntValue = Some y\<rparr> \<and> x \<noteq> y
        \<and> {x, y} \<subseteq> {- (2 ^ 63) ..< 2 ^ 63})"

definition grown :: "Device list gomap \<Rightarrow> Device list gomap \<Rightarrow> bool" where
  "grown m n \<longleftrightarrow> mset (map fst m) \<subseteq># mset (map fst n) \<and> mset (inventory_devices m) \<subset># mset (inventory_devices n)
     \<and> list_all (\<lambda>d. dev_Name d \<noteq> []) (inventory_devices n)"

definition changed_inventory :: "Device list gomap \<Rightarrow> Device list gomap \<Rightarrow> bool" where
  "changed_inventory m n \<longleftrightarrow>
     (\<exists>d \<in> set (inventory_devices m). \<exists>k a v. map_of (dev_Attributes d) k = Some a \<and> other_value a v \<and> n = with_attr (dev_Name d) k v m)
   \<or> grown m n \<or> grown n m"

lemma concat_map_differs:
  assumes "x \<in> set xs" "distinct xs" "f x \<noteq> g x" "\<And>y. y \<in> set xs \<Longrightarrow> y \<noteq> x \<Longrightarrow> f y = g y"
  shows "concat (map f xs) \<noteq> concat (map g xs)"
proof -
  obtain ys zs where xs: "xs = ys @ x # zs" using assms(1) by (meson split_list)
  then have "map f ys = map g ys" "map f zs = map g zs" using assms(2,4) by auto
  then have "concat (map f xs) = concat (map g ys) @ f x @ concat (map g zs)" unfolding xs by (simp del: map_eq_conv)
  then show ?thesis using assms(3) by (simp add: xs)
qed

lemma attr_text_differs: "other_value a v \<Longrightarrow> attr_text a \<noteq> attr_text v"
proof -
  have "Itoa x = Itoa y \<Longrightarrow> x = y" if "{x, y} \<subseteq> {- (2 ^ 63) ..< 2 ^ 63}" for x y
    using that Atoi_Itoa [of x] Atoi_Itoa [of y] by (metis atLeastLessThan_iff insert_subset sum.inject(2))
  then show "other_value a v \<Longrightarrow> attr_text a \<noteq> attr_text v"
    unfolding other_value_def attr_text_def by fastforce
qed

lemma device_text_differs:
  assumes "distinct (map fst (dev_Attributes d))" "map_of (dev_Attributes d) k = Some a" "other_value a v"
  shows "device_text (set_attr (dev_Name d) k v d) \<noteq> device_text d"
proof -
  let ?d = "set_attr (dev_Name d) k v d"
  have k: "k \<in> fst ` set (dev_Attributes d)" using assms(2) by (force dest: map_of_SomeD)
  have keys: "map fst (dev_Attributes ?d) = map fst (dev_Attributes d)"
    using k by (simp add: set_attr_def update_keys)
  have "concat (map (\<lambda>j. j @ (case map_of (dev_Attributes ?d) j of None \<Rightarrow> [] | Some a \<Rightarrow> attr_text a)) (sort (map fst (dev_Attributes d))))
      \<noteq> concat (map (\<lambda>j. j @ (case map_of (dev_Attributes d) j of None \<Rightarrow> [] | Some a \<Rightarrow> attr_text a)) (sort (map fst (dev_Attributes d))))"
    using k assms attr_text_differs [OF assms(3)]
    by (intro concat_map_differs [of k]) (auto simp: set_attr_def update_conv')
  then show ?thesis unfolding device_text_def keys by (simp add: set_attr_def)
qed

lemma set_attr_name [simp]: "dev_Name (set_attr n k v d) = dev_Name d"
  by (simp add: set_attr_def)

lemma card_devices_with_attr: "card_devices (with_attr n k v m) c = map (set_attr n k v) (card_devices m c)"
  by (induction m) (auto simp: with_attr_def card_devices_def)

lemma with_attr_keys: "map fst (with_attr n k v m) = map fst m"
  by (auto simp: with_attr_def)

lemma card_devices_mem: "d \<in> set (card_devices m c) \<Longrightarrow> \<exists>ds. (c, ds) \<in> set m \<and> d \<in> set ds"
  by (cases "map_of m c") (auto simp: card_devices_def dest: map_of_SomeD)

lemma concat_snd_disjoint:
  "distinct (concat (map snd m)) \<Longrightarrow> (b, bs) \<in> set m \<Longrightarrow> (c, cs) \<in> set m \<Longrightarrow> b \<noteq> c \<Longrightarrow> d \<in> set bs \<Longrightarrow> d \<notin> set cs"
proof (induction m)
  case (Cons x m)
  then have "set (snd x) \<inter> (\<Union>y \<in> set m. set (snd y)) = {}" by auto
  then have "d \<notin> set (snd x) \<or> (\<forall>y \<in> set m. d \<notin> set (snd y))" by blast
  then show ?case using Cons by fastforce
qed simp

lemma disjoint_cards:
  assumes "wf_inventory m" "b \<noteq> c" "d \<in> set (card_devices m c)"
  shows "d \<notin> set (card_devices m b)"
proof
  assume b: "d \<in> set (card_devices m b)"
  obtain bs cs where e: "(b, bs) \<in> set m" "d \<in> set bs" "(c, cs) \<in> set m" "d \<in> set cs"
    using card_devices_mem b assms(3) by metis
  have "distinct (concat (map snd m))" using assms(1) by (auto simp: wf_inventory_def inventory_devices_def distinct_map)
  then show False using concat_snd_disjoint e assms(2) by metis
qed

lemma devices_text_with_attr:
  assumes "wf_inventory m" "d \<in> set (inventory_devices m)" "map_of (dev_Attributes d) k = Some a" "other_value a v"
  shows "devices_text (with_attr (dev_Name d) k v m) \<noteq> devices_text m"
proof -
  let ?n = "dev_Name d"
  have dk: "distinct (map fst m)" and dn: "distinct (map dev_Name (inventory_devices m))"
    and da: "\<And>e. e \<in> set (inventory_devices m) \<Longrightarrow> distinct (map fst (dev_Attributes e))"
    using assms(1) by (auto simp: wf_inventory_def list_all_iff)
  obtain c ds where c: "(c, ds) \<in> set m" "d \<in> set ds" using assms(2) by (auto simp: inventory_devices_def)
  then have cd: "card_devices m c = ds" using dk by (simp add: card_devices_def)
  have "inj_on dev_Name (set (inventory_devices m))" using dn by (simp add: distinct_map)
  then have uniq: "e = d" if "e \<in> set (inventory_devices m)" "dev_Name e = ?n" for e
    using that assms(2) by (simp add: inj_on_def)
  have mem: "e \<in> set (inventory_devices m)" if "e \<in> set (card_devices m b)" for b e
    using card_devices_mem [OF that] by (force simp: inventory_devices_def)
  have sorted: "map device_text (sort_key dev_Name (map (set_attr ?n k v) es)) = map (device_text \<circ> set_attr ?n k v) (sort_key dev_Name es)" for es
    using map_sort_key [of dev_Name "set_attr ?n k v" es] by (metis map_map set_attr_name)
  let ?t = "\<lambda>b. b @ concat (map device_text (sort_key dev_Name (card_devices m b)))"
  let ?t' = "\<lambda>b. b @ concat (map (device_text \<circ> set_attr ?n k v) (sort_key dev_Name (card_devices m b)))"
  have same: "set_attr ?n k v e = e" if "e \<noteq> d" "e \<in> set (inventory_devices m)" for e
    using uniq [OF that(2)] that(1) by (auto simp: set_attr_def)
  have "concat (map (device_text \<circ> set_attr ?n k v) (sort_key dev_Name ds)) \<noteq> concat (map device_text (sort_key dev_Name ds))"
  proof (rule concat_map_differs [of d])
    show "distinct (sort_key dev_Name ds)" using card_devices_wf(1) [OF assms(1), of c] cd by (simp add: distinct_map)
    show "(device_text \<circ> set_attr ?n k v) d \<noteq> device_text d"
      using device_text_differs [OF da [OF assms(2)] assms(3,4)] by simp
    show "(device_text \<circ> set_attr ?n k v) e = device_text e" if "e \<in> set (sort_key dev_Name ds)" "e \<noteq> d" for e
      using same [OF that(2)] mem [of e c] that(1) cd by simp
  qed (use c in simp)
  moreover have "?t' b = ?t b" if "b \<noteq> c" for b
  proof -
    have "set_attr ?n k v e = e" if e: "e \<in> set (card_devices m b)" for e
    proof -
      have "dev_Name e \<noteq> ?n"
      proof
        assume "dev_Name e = ?n"
        then have "d \<in> set (card_devices m b)" using uniq [OF mem [OF e]] e by simp
        then show False using disjoint_cards [OF assms(1) \<open>b \<noteq> c\<close>] c cd by blast
      qed
      then show ?thesis by (simp add: set_attr_def)
    qed
    then have "map (device_text \<circ> set_attr ?n k v) (sort_key dev_Name (card_devices m b)) = map device_text (sort_key dev_Name (card_devices m b))"
      by simp
    then show ?thesis by (simp only:)
  qed
  moreover have "c \<in> set (map fst m)" using c(1) by force
  ultimately have "concat (map ?t' (sort (map fst m))) \<noteq> concat (map ?t (sort (map fst m)))"
    using dk cd by (intro concat_map_differs [of c]) auto
  then show ?thesis
    unfolding devices_text_def card_devices_def [symmetric] card_devices_with_attr with_attr_keys sorted by simp
qed

lemma sum_list_sort: "sum_list (map f (sort xs)) = (sum_list (map f xs) :: nat)" for xs :: "'a :: linorder list"
  by (metis mset_map mset_sort sum_mset_sum_list)

lemma sum_list_sort_key: "sum_list (map f (sort_key g xs)) = (sum_list (map f xs) :: nat)"
  by (metis mset_map mset_sort sum_mset_sum_list)

lemma devices_text_length:
  assumes "distinct (map fst m)"
  shows "length (devices_text m) = sum_list (map length (map fst m)) + sum_list (map (\<lambda>d. length (device_text d)) (inventory_devices m))"
proof -
  have cd: "card_devices m (fst x) = snd x" if "x \<in> set m" for x
    using map_of_is_SomeI [OF assms, of "fst x" "snd x"] that by (simp add: card_devices_def)
  have "length (devices_text m) = sum_list (map (\<lambda>c. length c + sum_list (map (\<lambda>d. length (device_text d)) (card_devices m c))) (map fst m))"
    unfolding devices_text_def card_devices_def [symmetric]
    by (simp add: length_concat comp_def sum_list_sort sum_list_sort_key)
  also have "\<dots> = sum_list (map (\<lambda>x. length (fst x) + sum_list (map (\<lambda>d. length (device_text d)) (snd x))) m)"
    using cd by (simp add: comp_def cong: map_cong)
  also have "\<dots> = sum_list (map length (map fst m)) + sum_list (map (\<lambda>d. length (device_text d)) (inventory_devices m))"
    by (induction m) (auto simp: inventory_devices_def)
  finally show ?thesis .
qed

lemma devices_text_grown:
  assumes "distinct (map fst m)" "distinct (map fst n)" "grown m n"
  shows "devices_text m \<noteq> devices_text n"
proof -
  let ?l = "\<lambda>d. length (device_text d)"
  obtain C where C: "mset (map fst n) = mset (map fst m) + C" using assms(3) by (auto simp: grown_def subset_mset.le_iff_add)
  obtain D where D: "mset (inventory_devices n) = mset (inventory_devices m) + D" "D \<noteq> {#}"
    using assms(3) unfolding grown_def by (metis add.right_neutral subset_mset.less_imp_le subset_mset.less_irrefl subset_mset.le_iff_add)
  obtain d where d: "d \<in># D" using D(2) by auto
  have "d \<in> set (inventory_devices n)" using d D(1) by (metis UnCI set_mset_mset set_mset_union)
  then have "0 < ?l d" using assms(3) by (auto simp: grown_def list_all_iff device_text_def)
  then have "0 < sum_mset (image_mset ?l D)" using d by (metis add_gr_0 image_mset_add_mset insert_DiffM sum_mset.insert)
  moreover have "sum_list (map ?l (inventory_devices n)) = sum_list (map ?l (inventory_devices m)) + sum_mset (image_mset ?l D)"
    using arg_cong [OF D(1), of "\<lambda>M. sum_mset (image_mset ?l M)"] by (simp flip: mset_map sum_mset_sum_list)
  moreover have "sum_list (map length (map fst n)) = sum_list (map length (map fst m)) + sum_mset (image_mset length C)"
    using arg_cong [OF C, of "\<lambda>M. sum_mset (image_mset length M)"] by (simp del: map_map flip: mset_map sum_mset_sum_list)
  ultimately have "length (devices_text m) < length (devices_text n)"
    using devices_text_length assms(1,2) by simp
  then show ?thesis by auto
qed

lemma devices_text_changed:
  assumes "wf_inventory m" "wf_inventory n" "changed_inventory m n"
  shows "devices_text m \<noteq> devices_text n"
  using assms(3) devices_text_with_attr [OF assms(1)] devices_text_grown [of m n] devices_text_grown [of n m] assms(1,2)
  unfolding changed_inventory_def wf_inventory_def by metis

lemma CompareAndUpdate_state_branches:
  assumes "env_ok env" and "wf_inventory m"
  shows "case CompareAndUpdate env m s of
     (False, s') \<Rightarrow> s' = s \<and> computeDevicesHash env m = previousHash s
   | (True, s') \<Rightarrow> computeDevicesHash env m \<noteq> previousHash s
       \<and> previousHash s' = computeDevicesHash env m
       \<and> updateCount s' = wrap64 (updateCount s + 1)
       \<and> (\<forall>p slices. map_of (driverResources s') p = Some slices \<longleftrightarrow>
            (\<exists>c ds. map_of m c = Some ds \<and> p = nodeName s @ ''-'' @ c \<and> slices = [ds]))
       \<and> (\<forall>n d. map_of (allocatable s') n = Some d \<longleftrightarrow> d \<in> set (inventory_devices m) \<and> dev_Name d = n)
       \<and> driverName s' = driverName s \<and> cdiRoot s' = cdiRoot s \<and> pluginDataDir s' = pluginDataDir s
       \<and> nodeName s' = nodeName s"
proof (cases "computeDevicesHash env m = previousHash s")
  case True
  then show ?thesis by (simp add: CompareAndUpdate_def Let_def)
next
  case False
  let ?keys = "map fst m"
  have dk: "distinct ?keys" using assms(2) by (simp add: wf_inventory_def)
  have ord: "set (e_order env site ?keys) = set ?keys" "distinct (e_order env site ?keys)" for site
    using assms(1) dk by (simp_all add: env_ok_def perm_oracle_set perm_oracle_distinct)
  define ds where "ds = concat (map (card_devices m) (e_order env ''allocatable'' ?keys))"
  have ms: "mset ds = mset (inventory_devices m)" unfolding ds_def using dk ord by (intro concat_cards) auto
  then have sd: "set ds = set (inventory_devices m)" by (metis set_mset_mset)
  have dd: "distinct (map dev_Name ds)"
    using assms(2) ms by (metis mset_map mset_eq_imp_distinct_iff wf_inventory_def)
  let ?alloc = "fold (\<lambda>d. AList.update (dev_Name d) d) ds []"
  let ?pools = "fold (\<lambda>c. AList.update (nodeName s @ ''-'' @ c) [card_devices m c]) (e_order env ''pools'' ?keys) []"
  have upd: "CompareAndUpdate env m s = (True, s\<lparr>allocatable := ?alloc, driverResources := ?pools,
      updateCount := wrap64 (updateCount s + 1), previousHash := computeDevicesHash env m\<rparr>)"
    using False by (simp add: CompareAndUpdate_def Let_def fold_concat_map ds_def)
  have "map_of ?alloc n = Some d \<longleftrightarrow> d \<in> set (inventory_devices m) \<and> dev_Name d = n" for n d
    using map_of_fold_update_iff [OF dd, of "\<lambda>d. d"] sd by auto
  moreover have "distinct (map (\<lambda>c. nodeName s @ ''-'' @ c) (e_order env ''pools'' ?keys))"
    using ord by (simp add: distinct_map inj_on_def)
  then have "map_of ?pools p = Some slices \<longleftrightarrow> (\<exists>c ds. map_of m c = Some ds \<and> p = nodeName s @ ''-'' @ c \<and> slices = [ds])" for p slices
    using map_of_fold_update_iff [of "\<lambda>c. nodeName s @ ''-'' @ c" _ "\<lambda>c. [card_devices m c]" p slices] ord card_pool
    by auto
  ultimately show ?thesis using False upd by simp
qed

text \<open>
  C20. Change detection works on a hash: SHA-256 of a text of the inventory, compared with that
  of the inventory last accepted. An inventory with the stored hash leaves the state as it
  is; any other replaces it. After a replacement there is exactly one pool per card, named
  after the node and the card and holding that card's devices, the allocatable devices are
  exactly those of the inventory by name, and the update counter has moved on by one. The
  order in which the loops visit the cards does not matter. And the changes a node goes
  through are seen: if one attribute of one device has another value than in the inventory
  last accepted, or devices have come or gone, and SHA-256 keeps the two texts apart, then the
  inventory is replaced.
\<close>

theorem CompareAndUpdate_state:
  assumes "env_ok env" and "wf_inventory m"
  shows "(case CompareAndUpdate env m s of
     (False, s') \<Rightarrow> s' = s \<and> computeDevicesHash env m = previousHash s
   | (True, s') \<Rightarrow> computeDevicesHash env m \<noteq> previousHash s
       \<and> previousHash s' = computeDevicesHash env m
       \<and> updateCount s' = wrap64 (updateCount s + 1)
       \<and> (\<forall>p slices. map_of (driverResources s') p = Some slices \<longleftrightarrow>
            (\<exists>c ds. map_of m c = Some ds \<and> p = nodeName s @ ''-'' @ c \<and> slices = [ds]))
       \<and> (\<forall>n d. map_of (allocatable s') n = Some d \<longleftrightarrow> d \<in> set (inventory_devices m) \<and> dev_Name d = n)
       \<and> driverName s' = driverName s \<and> cdiRoot s' = cdiRoot s \<and> pluginDataDir s' = pluginDataDir s
       \<and> nodeName s' = nodeName s)
     \<and> (\<forall>n. wf_inventory n \<longrightarrow> previousHash s = computeDevicesHash env n \<longrightarrow> changed_inventory n m
          \<longrightarrow> inj_on (e_sha256 env) {devices_text n, devices_text m} \<longrightarrow> fst (CompareAndUpdate env m s))"
proof -
  have "computeDevicesHash env m \<noteq> computeDevicesHash env n"
    if "wf_inventory n" "changed_inventory n m" "inj_on (e_sha256 env) {devices_text n, devices_text m}" for n
    using devices_text_changed [OF that(1) assms(2) that(2)] that(3) by (auto simp: computeDevicesHash_def)
  then have "fst (CompareAndUpdate env m s)"
    if "wf_inventory n" "previousHash s = computeDevicesHash env n" "changed_inventory n m"
      "inj_on (e_sha256 env) {devices_text n, devices_text m}" for n
    using that by (simp add: CompareAndUpdate_def Let_def)
  then show ?thesis using CompareAndUpdate_state_branches [OF assms, of s] by blast
qed

text \<open>
  C21. Rescanning an unchanged node publishes nothing: an inventory that differs from the one
  last accepted only in the order of its cards, devices and attributes is reported as
  unchanged and leaves the state as it is.
\<close>

theorem CompareAndUpdate_order_independent:
  assumes "wf_inventory m" and "wf_inventory n" and "same_inventory m n"
    and "CompareAndUpdate env m s = (b, s')"
  shows "CompareAndUpdate env n s' = (False, s')"
proof -
  have "previousHash s' = computeDevicesHash env m"
    using assms(4) by (auto simp: CompareAndUpdate_def Let_def split: if_splits)
  moreover have "computeDevicesHash env n = computeDevicesHash env m"
    using devices_text_same [OF assms(1-3)] by (simp add: computeDevicesHash_def)
  ultimately show ?thesis by (simp add: CompareAndUpdate_def Let_def)
qed

section \<open>The checks before any effect\<close>

lemma binding_mode_Inr:
  assumes "binding_mode driver reqs rs (v, c) = Inr (v', c')"
  defines "own \<equiv> {r \<in> set rs. res_Driver r = driver}"
  shows "(\<forall>r \<in> own. deviceClassForRequest reqs (res_Request r) \<in> {Some DeviceClassVM, Some DeviceClassContainer})
    \<and> v' = (v \<or> (\<exists>r \<in> own. deviceClassForRequest reqs (res_Request r) = Some DeviceClassVM))
    \<and> c' = (c \<or> (\<exists>r \<in> own. deviceClassForRequest reqs (res_Request r) = Some DeviceClassContainer))"
  using assms(1) unfolding own_def
proof (induction rs arbitrary: v c)
  case (Cons r rs)
  have ne: "DeviceClassVM \<noteq> DeviceClassContainer" by (simp add: DeviceClassVM_def DeviceClassContainer_def)
  consider "res_Driver r \<noteq> driver"
    | "res_Driver r = driver" "deviceClassForRequest reqs (res_Request r) = Some DeviceClassVM"
    | "res_Driver r = driver" "deviceClassForRequest reqs (res_Request r) = Some DeviceClassContainer"
    using Cons.prems by (auto split: option.splits if_splits)
  then show ?case
  proof cases
    case 1
    then show ?thesis using Cons.IH [of v c] Cons.prems by auto
  next
    case 2
    then show ?thesis using Cons.IH [of True c] Cons.prems ne by auto
  next
    case 3
    then show ?thesis using Cons.IH [of v True] Cons.prems ne by auto
  qed
qed simp

definition all_own_results :: "DeviceState \<Rightarrow> ResourceClaim \<Rightarrow> string \<Rightarrow> bool" where
  "all_own_results s claim cls \<longleftrightarrow>
     (case claim_Allocation claim of
        None \<Rightarrow> False
      | Some a \<Rightarrow> list_all (\<lambda>r. deviceClassForRequest (claim_Requests claim) (res_Request r) = Some cls)
                  (own_results s (alloc_Results a)))"

lemma prepare_checks_Inr:
  assumes "prepare_checks env s claim = Inr (a, hasContainer, cfg)"
  shows "claim_Allocation claim = Some a" "Resolve (driverName s) (alloc_Config a) = Inr cfg"
    "all_own_results s claim (if hasContainer then DeviceClassContainer else DeviceClassVM)"
    "hasContainer \<Longrightarrow> e_gate env ContainerWorkload"
    "\<not> hasContainer \<Longrightarrow> own_results s (alloc_Results a) \<noteq> [] \<Longrightarrow> e_gate env VirtualMachineWorkload"
proof -
  from assms obtain v where a: "claim_Allocation claim = Some a"
    and b: "binding_mode (driverName s) (claim_Requests claim) (alloc_Results a) (False, False) = Inr (v, hasContainer)"
    and g: "\<not> (v \<and> hasContainer)" "hasContainer \<longrightarrow> e_gate env ContainerWorkload" "v \<longrightarrow> e_gate env VirtualMachineWorkload"
    and r: "Resolve (driverName s) (alloc_Config a) = Inr cfg"
    by (auto simp: prepare_checks_def split: option.splits sum.splits if_splits prod.splits)
  note m = binding_mode_Inr [OF b]
  show "claim_Allocation claim = Some a" "Resolve (driverName s) (alloc_Config a) = Inr cfg"
    "hasContainer \<Longrightarrow> e_gate env ContainerWorkload" using a r g by auto
  show "all_own_results s claim (if hasContainer then DeviceClassContainer else DeviceClassVM)"
    using m g(1) a by (auto simp: all_own_results_def own_results_def list_all_iff)
  show "e_gate env VirtualMachineWorkload" if hc: "\<not> hasContainer" "own_results s (alloc_Results a) \<noteq> []"
  proof -
    obtain r where "r \<in> set (alloc_Results a)" "res_Driver r = driverName s"
      using hc(2) by (auto simp: own_results_def filter_empty_conv)
    then show ?thesis using m hc(1) g(3) by auto
  qed
qed

text \<open>
  C11. What a claim must be for \<open>Prepare\<close> to reach the hardware or the file system: when
  \<open>Prepare\<close> changes the world at all, the lock was taken, the claim is allocated, every
  result of this driver in it goes through the virtual machine device class, its queues are
  known and form a full rectangle, and its configuration resolves to a mode the driver
  serves. If the claim has a result of this driver, the gate for virtual machine workloads is
  on; a claim with none, which the kubelet has no reason to send, is held up by no gate. A
  container claim leaves the node untouched.
\<close>

theorem Prepare_effects_need_vm_claim:
  assumes "snd (Prepare env ctx s claim w) \<noteq> w"
  shows "lockCtx ctx = None
    \<and> (\<exists>a cfg. claim_Allocation claim = Some a \<and> all_own_results s claim DeviceClassVM
         \<and> (own_results s (alloc_Results a) \<noteq> [] \<longrightarrow> e_gate env VirtualMachineWorkload)
         \<and> Resolve (driverName s) (alloc_Config a) = Inr cfg
         \<and> ValidateControlDomainMode (cc_ControlDomainMode cfg) = None
         \<and> (\<forall>r \<in> set (own_results s (alloc_Results a)). result_apqn s r \<noteq> None)
         \<and> rectangle (allocated_set s (alloc_Results a)))"
proof -
  from assms have l: "lockCtx ctx = None" by (auto simp: Prepare_def split: option.splits)
  with assms obtain a hc cfg where c: "prepare_checks env s claim = Inr (a, hc, cfg)"
    by (cases "prepare_checks env s claim") (auto simp: Prepare_def)
  with assms l have hc: "\<not> hc" by (auto simp: Prepare_def)
  with assms l c have v: "ValidateControlDomainMode (cc_ControlDomainMode cfg) = None"
    by (cases "ValidateControlDomainMode (cc_ControlDomainMode cfg)") (auto simp: Prepare_def)
  obtain x where x: "collectAllocatedAPQNs s (alloc_Results a) = Inr x"
  proof (cases "collectAllocatedAPQNs s (alloc_Results a)")
    case (Inl e)
    then have "snd (Prepare env ctx s claim w) = w"
      using l c hc v by (simp add: Prepare_def ensureMdevForClaim_def)
    then show ?thesis using assms by simp
  qed
  obtain as ds al where "x = (as, ds, al)" by (cases x)
  then have "(\<forall>r \<in> set (own_results s (alloc_Results a)). result_apqn s r \<noteq> None) \<and> rectangle (allocated_set s (alloc_Results a))"
    using collectAllocatedAPQNs_sets [of s "alloc_Results a" as ds al] collect_results_Inr [of s "alloc_Results a" "([], [], [])"] x
    by (auto simp: rectangle_cross collectAllocatedAPQNs_def split: sum.splits)
  then show ?thesis using l v prepare_checks_Inr [OF c] hc by auto
qed

end
