(* ===== verification/Node.thy ===== *)
theory Node
  imports Ap_Kernel Metadata_Props Allocation_Props
begin

text \<open>
  The node as \<open>Prepare\<close> and \<open>Unprepare\<close> see it: the AP kernel interface and the file
  system side by side, each blind to what the driver does to the other. The lemmas take the
  operations of \<open>Devicestate\<close> one by one to their effect on the kernel state.
\<close>

section \<open>Ordinary paths\<close>

definition outside_sys :: "string \<Rightarrow> bool" where
  "outside_sys p \<longleftrightarrow> (let cs = Split slash p in 2 \<le> length cs \<and> hd cs = [] \<and> cs ! 1 \<noteq> ''sys'')"

text \<open>A directory the driver is configured with: absolute, clean, and not under \<open>/sys\<close>.\<close>

definition data_dir :: "string \<Rightarrow> bool" where
  "data_dir p \<longleftrightarrow> (let cs = tl (Split slash p) in
     p = path_of cs \<and> cs \<noteq> [] \<and> hd cs \<noteq> ''sys'' \<and> list_all plain cs)"

lemma data_dirE:
  assumes "data_dir p"
  obtains cs where "p = path_of cs" "cs \<noteq> []" "hd cs \<noteq> ''sys''" "\<forall>c \<in> set cs. plain c"
  using assms by (auto simp: data_dir_def Let_def list_all_iff)

lemma outside_sys_path_of:
  assumes "cs \<noteq> []" "hd cs \<noteq> ''sys''" "\<forall>c \<in> set cs. plain c"
  shows "outside_sys (path_of cs)"
proof -
  have "Split slash (path_of cs) = [] # cs" using assms(3) by (intro Split_path_of) (auto simp: plain_def)
  then show ?thesis using assms(1,2) by (cases cs) (auto simp: outside_sys_def)
qed

lemma outside_sys_Join:
  assumes "data_dir p" "\<forall>c \<in> set cs. plain c"
  shows "outside_sys (Join (p # cs))"
proof -
  obtain ds where ds: "p = path_of ds" "ds \<noteq> []" "hd ds \<noteq> ''sys''" "\<forall>c \<in> set ds. plain c"
    using data_dirE [OF assms(1)] by metis
  then have "Join (p # cs) = path_of (ds @ cs)" using assms(2) by (simp add: Join_path_of)
  then show ?thesis using ds assms(2) by (auto intro!: outside_sys_path_of)
qed

lemma data_dir_Join:
  assumes "data_dir p" "\<forall>c \<in> set cs. plain c"
  shows "data_dir (Join (p # cs))"
proof -
  obtain ds where ds: "p = path_of ds" "ds \<noteq> []" "hd ds \<noteq> ''sys''" "\<forall>c \<in> set ds. plain c"
    using data_dirE [OF assms(1)] by metis
  then have j: "Join (p # cs) = path_of (ds @ cs)" using assms(2) by (simp add: Join_path_of)
  moreover have "Split slash (path_of (ds @ cs)) = [] # ds @ cs"
    using ds assms(2) by (intro Split_path_of) (auto simp: plain_def)
  ultimately show ?thesis using ds assms(2) by (auto simp: data_dir_def Let_def list_all_iff)
qed

lemma outside_sys_data_dir: "data_dir p \<Longrightarrow> outside_sys p"
  by (metis data_dirE outside_sys_path_of)

section \<open>The locale\<close>

locale node = ap_node os K Q + file_store os F outside_sys
  for os :: "'w os" and K :: "'w \<Rightarrow> kstate" and Q :: "APQN set" and F :: "'w \<Rightarrow> string \<Rightarrow> string option" +
  assumes write_K: "outside_sys p \<Longrightarrow> os_WriteFile os p d m w = (r, w') \<Longrightarrow> K w' = K w"
    and mkdir_K: "outside_sys p \<Longrightarrow> os_MkdirAll os p m w = (r, w') \<Longrightarrow> K w' = K w"
    and remove_K: "outside_sys p \<Longrightarrow> os_Remove os p w = (r, w') \<Longrightarrow> K w' = K w"
    and remove_all_K: "outside_sys p \<Longrightarrow> os_RemoveAll os p w = (r, w') \<Longrightarrow> K w' = K w"
    and write_F: "\<not> outside_sys p \<Longrightarrow> os_WriteFile os p d m w = (r, w') \<Longrightarrow> F w' = F w"

text \<open>Two kernel states that differ at most in one mediated device and the queues of a set.\<close>

definition differ_claim :: "string \<Rightarrow> APQN set \<Rightarrow> kstate \<Rightarrow> kstate \<Rightarrow> bool" where
  "differ_claim u S k k' \<longleftrightarrow> (\<forall>v. v \<noteq> u \<longrightarrow> k_mdev k' v = k_mdev k v) \<and>
     (\<forall>q. q \<notin> S \<longrightarrow> k_driver k' q = k_driver k q \<and> k_override k' q = k_override k q)"

lemma differ_claim_refl [simp, intro]: "differ_claim u S k k"
  by (simp add: differ_claim_def)

lemma differ_claim_trans: "differ_claim u S k k' \<Longrightarrow> differ_claim u S k' k'' \<Longrightarrow> differ_claim u S k k''"
  by (simp add: differ_claim_def)

lemma differ_at_claim: "differ_at S k k' \<Longrightarrow> S \<subseteq> T \<Longrightarrow> differ_claim u T k k'"
  by (auto simp: differ_at_def differ_claim_def)

text \<open>Queues that were on zcrypt and are on zcrypt have not changed.\<close>

lemma differ_at_zcrypt:
  assumes "differ_at S k k'" "\<forall>q \<in> S. on_zcrypt k' q" "\<forall>q \<in> S. on_zcrypt k q"
  shows "k' = k"
proof -
  have "k_driver k' q = k_driver k q \<and> k_override k' q = k_override k q" for q
    using assms by (cases "q \<in> S") (auto simp: differ_at_def on_zcrypt_def)
  moreover have "k_mdev k' = k_mdev k" using assms(1) by (simp add: differ_at_def)
  ultimately show ?thesis by (intro kstate.equality) auto
qed

lemma differ_claim_set_mdev [simp]: "differ_claim u S k (set_mdev u m k)"
  by (simp add: differ_claim_def kstate_simps)

lemma rollback_best_effort: "rollback os qs w = best_effort (\<lambda>q. SwitchToZcrypt os (APID q) (APQI q)) qs w"
  by (induction qs arbitrary: w) auto

section \<open>Switching\<close>

context ap_bus
begin

lemma rollback_frame: "set qs \<subseteq> Q \<Longrightarrow> differ_at (set qs) (K w) (K (rollback os qs w))"
  unfolding rollback_best_effort by (rule to_zcrypt.best_effort_frame)

lemma rollback_zcrypt:
  assumes "set qs \<subseteq> Q" "distinct qs" "q \<in> set qs"
    and "\<And>q v. q \<in> set qs \<Longrightarrow> fst (SwitchToZcrypt os (APID q) (APQI q) v) = None"
  shows "on_zcrypt (K (rollback os qs w)) q"
proof -
  have "all_succeed (\<lambda>q. SwitchToZcrypt os (APID q) (APQI q)) ps v" if "set ps \<subseteq> set qs" for ps v
    using that assms(4) by (induction ps arbitrary: v) auto
  then show ?thesis
    unfolding rollback_best_effort using assms(1-3) by (intro to_zcrypt.best_effort_shape) auto
qed

lemma switch_loop_frame:
  assumes "set (switched @ qs) \<subseteq> Q" "switch_loop os ctx k qs switched w = (r, w')"
  shows "differ_at (set (switched @ qs)) (K w) (K w')"
  using assms
proof (induction qs arbitrary: k switched w)
  case (Cons q qs)
  obtain r1 w1 where s: "SwitchToVFIOAP os (APID q) (APQI q) w = (r1, w1)" by (metis prod.exhaust)
  have f: "differ_at {q} (K w) (K w1)" using SwitchToVFIOAP_frame [OF _ s] Cons.prems(1) by simp
  show ?case
  proof (cases "ctx_Err ctx k")
    case (Some e)
    then show ?thesis
      using Cons.prems rollback_frame [of switched w] by (auto intro: differ_at_mono)
  next
    case None
    show ?thesis
    proof (cases r1)
      case None
      then have "differ_at (set ((switched @ [q]) @ qs)) (K w1) (K w')"
        using Cons.IH [of "switched @ [q]" "Suc k" w1] Cons.prems s \<open>ctx_Err ctx k = None\<close> by simp
      from differ_at_trans [OF f this] show ?thesis by (auto elim: differ_at_mono)
    next
      case (Some e)
      then have "w' = rollback os (switched @ [q]) w1" using Cons.prems(2) s None by simp
      then have "differ_at (set (switched @ [q])) (K w1) (K w')"
        using rollback_frame [of "switched @ [q]" w1] Cons.prems(1) by simp
      from differ_at_trans [OF f this] show ?thesis by (auto elim: differ_at_mono)
    qed
  qed
qed simp

lemma switch_loop_ok:
  assumes "set qs \<subseteq> Q" "distinct qs" "switch_loop os ctx k qs switched w = (None, w')"
  shows "differ_at (set qs) (K w) (K w') \<and> (\<forall>q \<in> set qs. on_vfio (K w') q)"
  using assms
proof (induction qs arbitrary: k switched w)
  case (Cons q qs)
  from Cons.prems(3) obtain w1 where s: "SwitchToVFIOAP os (APID q) (APQI q) w = (None, w1)"
    and l: "switch_loop os ctx (Suc k) qs (switched @ [q]) w1 = (None, w')"
    by (auto split: option.splits prod.splits)
  have q: "q \<in> Q" using Cons.prems(1) by simp
  from Cons.IH [OF _ _ l] Cons.prems have ih: "differ_at (set qs) (K w1) (K w')" "\<forall>q \<in> set qs. on_vfio (K w') q"
    by auto
  have "on_vfio (K w') q"
    using to_vfio.op_shape [OF q s] to_vfio.shape_local [OF ih(1), of q] Cons.prems(2) by simp
  moreover have "differ_at (set (q # qs)) (K w) (K w')"
    using differ_at_trans [OF SwitchToVFIOAP_frame [OF q s] ih(1)] by simp
  ultimately show ?case using ih(2) by simp
qed simp

text \<open>
  When the loop fails, the queues it had reached have all been handed to the rollback; if
  the rollback's switches succeed they end on zcrypt.
\<close>

lemma switch_loop_failed:
  assumes "set (switched @ qs) \<subseteq> Q" "distinct (switched @ qs)"
    and "switch_loop os ctx k qs switched w = (Some e, w')"
    and "\<And>q w. q \<in> set (switched @ qs) \<Longrightarrow> fst (SwitchToZcrypt os (APID q) (APQI q) w) = None"
    and "\<forall>q \<in> set qs. on_zcrypt (K w) q"
  shows "\<forall>q \<in> set (switched @ qs). on_zcrypt (K w') q"
  using assms
proof (induction qs arbitrary: k switched w)
  case (Cons q qs)
  have rb: "on_zcrypt (K (rollback os ps v)) p"
    if "set ps \<subseteq> set (switched @ q # qs)" "distinct ps" "p \<in> set ps" for ps v p
    using that Cons.prems(1,4) by (intro rollback_zcrypt) auto
  have keep: "on_zcrypt (K (rollback os ps v)) p = on_zcrypt (K v) p"
    if "set ps \<subseteq> set (switched @ q # qs)" "p \<notin> set ps" for ps v p
    using that Cons.prems(1) rollback_frame [of ps v] to_zcrypt.shape_local by blast
  have fin: "\<forall>p \<in> set (switched @ q # qs). on_zcrypt (K (rollback os ps v)) p"
    if "set ps \<subseteq> set (switched @ q # qs)" "distinct ps"
      "\<forall>p \<in> set (switched @ q # qs) - set ps. on_zcrypt (K v) p" for ps v
    using that rb keep by blast
  obtain r1 w1 where s: "SwitchToVFIOAP os (APID q) (APQI q) w = (r1, w1)" by (metis prod.exhaust)
  have fr: "differ_at {q} (K w) (K w1)" using SwitchToVFIOAP_frame [OF _ s] Cons.prems(1) by simp
  have rest: "on_zcrypt (K w1) p" if "p \<in> set qs" for p
    using that to_zcrypt.shape_local [OF fr, of p] Cons.prems(2,5) by auto
  consider e' where "ctx_Err ctx k = Some e'" | e' where "ctx_Err ctx k = None" "r1 = Some e'" | "ctx_Err ctx k = None" "r1 = None"
    by (cases "ctx_Err ctx k"; cases r1) auto
  then show ?case
  proof cases
    case 1
    then have "w' = rollback os switched w" using Cons.prems(3) by simp
    then show ?thesis using fin [of switched w] Cons.prems(2,5) by auto
  next
    case 2
    then have "w' = rollback os (switched @ [q]) w1" using Cons.prems(3) s by simp
    then show ?thesis using fin [of "switched @ [q]" w1] rest Cons.prems(2) by auto
  next
    case 3
    then have "switch_loop os ctx (Suc k) qs (switched @ [q]) w1 = (Some e, w')" using Cons.prems(3) s by simp
    then have "\<forall>p \<in> set ((switched @ [q]) @ qs). on_zcrypt (K w') p"
      using Cons.prems(1,2,4) rest by (intro Cons.IH) auto
    then show ?thesis by simp
  qed
qed simp

end

section \<open>The mediated device\<close>

context ap_node
begin

lemma Create_K:
  "claim_uid u \<Longrightarrow> Create os u w = (r, w') \<Longrightarrow>
     K w' = (if r = None then set_mdev u (Some empty_mdev) (K w) else K w)"
  by (cases "os_WriteFile os mdevCreatePath u sysfsWriteMode w")
     (auto simp: Create_def dest!: create_write split: option.splits if_splits)

lemma Destroy_K:
  assumes "claim_uid u" "Destroy os u w = (r, w')"
  shows "K w' = (if r = None then set_mdev u None (K w) else K w)"
proof (cases "Exists os u w")
  case False
  then have "k_mdev (K w) u = None" using Exists_iff [OF assms(1)] by simp
  then have "set_mdev u None (K w) = K w" by (simp add: set_mdev_def fun_upd_idem)
  then show ?thesis using False assms(2) by (simp add: Destroy_def)
next
  case True
  then show ?thesis
    using assms(2) remove_write [OF assms(1)]
    by (auto simp: Destroy_def Let_def split: option.splits prod.splits)
qed

text \<open>The three assignments: each adds one member to one of the device's sets.\<close>

lemma Assign_K:
  assumes "k_mdev (K w) u = Some m"
  shows "AssignAdapter os u a w = (r, w') \<Longrightarrow>
      K w' = (if r = None then set_mdev u (Some (m\<lparr>md_adapters := insert a (md_adapters m)\<rparr>)) (K w) else K w)"
    and "AssignDomain os u a w = (r, w') \<Longrightarrow>
      K w' = (if r = None then set_mdev u (Some (m\<lparr>md_domains := insert a (md_domains m)\<rparr>)) (K w) else K w)"
    and "AssignControlDomain os u a w = (r, w') \<Longrightarrow>
      K w' = (if r = None then set_mdev u (Some (m\<lparr>md_control := insert a (md_control m)\<rparr>)) (K w) else K w)"
  using assign_adapter_write [OF assms] assign_domain_write [OF assms] assign_control_write [OF assms]
  by (auto simp: AssignAdapter_def AssignDomain_def AssignControlDomain_def Let_def split: option.splits prod.splits)

end

text \<open>
  A loop of assignments to one device, for an operation that adds a member to one of its
  sets; \<open>add\<close> is the effect on the device's view.
\<close>

locale mdev_assign =
  fixes K :: "'w \<Rightarrow> kstate" and u :: string and op :: "string \<Rightarrow> 'w \<Rightarrow> goerr option \<times> 'w"
    and add :: "string \<Rightarrow> mdev_view \<Rightarrow> mdev_view"
  assumes op_K: "k_mdev (K w) u = Some m \<Longrightarrow> op x w = (r, w') \<Longrightarrow>
      K w' = (if r = None then set_mdev u (Some (add x m)) (K w) else K w)"
begin

lemma assign_each_ok:
  assumes "k_mdev (K w) u = Some m" "assign_each op xs w = (None, w')"
  shows "K w' = set_mdev u (Some (fold add xs m)) (K w)"
  using assms
proof (induction xs arbitrary: w m)
  case Nil
  then show ?case by (simp add: set_mdev_def fun_upd_idem)
next
  case (Cons x xs)
  then obtain w1 where s: "op x w = (None, w1)" "assign_each op xs w1 = (None, w')"
    by (auto split: option.splits prod.splits)
  have K1: "K w1 = set_mdev u (Some (add x m)) (K w)" using op_K [OF Cons.prems(1) s(1)] by simp
  then have "k_mdev (K w1) u = Some (add x m)" by (simp add: kstate_simps)
  from Cons.IH [OF this s(2)] K1 show ?case by (simp add: set_mdev_def)
qed

lemma assign_each_any:
  assumes "k_mdev (K w) u = Some m" "assign_each op xs w = (r, w')"
  shows "\<exists>m'. K w' = set_mdev u (Some m') (K w)"
  using assms
proof (induction xs arbitrary: w m)
  case Nil
  then show ?case by (intro exI [of _ m]) (simp add: set_mdev_def fun_upd_idem)
next
  case (Cons x xs)
  obtain r1 w1 where s: "op x w = (r1, w1)" by (metis prod.exhaust)
  show ?case
  proof (cases r1)
    case (Some e)
    then have "K w' = K w" using op_K [OF Cons.prems(1) s] Cons.prems(2) s by simp
    then show ?thesis using Cons.prems(1) by (intro exI [of _ m]) (simp add: set_mdev_def fun_upd_idem)
  next
    case None
    have K1: "K w1 = set_mdev u (Some (add x m)) (K w)" using op_K [OF Cons.prems(1) s] None by simp
    then have "k_mdev (K w1) u = Some (add x m)" by (simp add: kstate_simps)
    from Cons.IH [OF this, of] Cons.prems(2) s None obtain m' where "K w' = set_mdev u (Some m') (K w1)" by auto
    then show ?thesis using K1 by (auto simp: set_mdev_def)
  qed
qed

end

sublocale ap_node \<subseteq> adapters: mdev_assign K u "AssignAdapter os u" "\<lambda>x m. m\<lparr>md_adapters := insert x (md_adapters m)\<rparr>" for u
  by unfold_locales (rule Assign_K(1))

sublocale ap_node \<subseteq> domains: mdev_assign K u "AssignDomain os u" "\<lambda>x m. m\<lparr>md_domains := insert x (md_domains m)\<rparr>" for u
  by unfold_locales (rule Assign_K(2))

sublocale ap_node \<subseteq> control: mdev_assign K u "AssignControlDomain os u" "\<lambda>x m. m\<lparr>md_control := insert x (md_control m)\<rparr>" for u
  by unfold_locales (rule Assign_K(3))

lemma fold_insert_views:
  "fold (\<lambda>x m. m\<lparr>md_adapters := insert x (md_adapters m)\<rparr>) xs m = m\<lparr>md_adapters := set xs \<union> md_adapters m\<rparr>"
  "fold (\<lambda>x m. m\<lparr>md_domains := insert x (md_domains m)\<rparr>) xs m = m\<lparr>md_domains := set xs \<union> md_domains m\<rparr>"
  "fold (\<lambda>x m. m\<lparr>md_control := insert x (md_control m)\<rparr>) xs m = m\<lparr>md_control := set xs \<union> md_control m\<rparr>"
  by (induction xs arbitrary: m) simp_all

section \<open>The claim's mediated device\<close>

text \<open>The device a complete build leaves, by control-domain mode.\<close>

definition claim_mdev :: "string \<Rightarrow> string list \<Rightarrow> string list \<Rightarrow> mdev_view" where
  "claim_mdev mode as ds = \<lparr>md_adapters = set as, md_domains = set ds,
     md_control = (if mode = ControlDomainModeUsageOnly then {} else set ds)\<rparr>"

lemma differ_claim_mdev: "k_mdev k u = k_mdev k' u \<Longrightarrow> differ_claim u S k k' \<Longrightarrow> differ_at S k k'"
  unfolding differ_claim_def differ_at_def by (metis ext)

text \<open>A node together with the environment a method runs in.\<close>

locale node_env = node "e_os env" K Q F
  for env :: "'w env" and K :: "'w \<Rightarrow> kstate" and Q :: "APQN set" and F :: "'w \<Rightarrow> string \<Rightarrow> string option" +
  assumes env_ok: "env_ok env"
begin

lemma e_order_set: "set (e_order env site xs) = set xs"
  using env_ok by (simp add: env_ok_def perm_oracle_set)

lemma e_qorder_set: "set (e_qorder env qs) = set qs" "distinct (e_qorder env qs) = distinct qs"
proof -
  show "set (e_qorder env qs) = set qs" using env_ok by (simp add: env_ok_def perm_oracle_set)
  moreover have "length (e_qorder env qs) = length qs" using env_ok by (simp add: env_ok_def perm_oracle_def)
  ultimately show "distinct (e_qorder env qs) = distinct qs" by (metis card_distinct distinct_card)
qed

lemma assignMdevMatrix_ok:
  assumes "k_mdev (K w) u = Some m" "assignMdevMatrix env u as ds w = (None, w')"
  shows "K w' = set_mdev u (Some (m\<lparr>md_adapters := set as \<union> md_adapters m, md_domains := set ds \<union> md_domains m\<rparr>)) (K w)"
proof -
  obtain w1 where s: "assign_each (AssignAdapter (e_os env) u) (e_order env ''adapters'' as) w = (None, w1)"
    "assign_each (AssignDomain (e_os env) u) (e_order env ''domains'' ds) w1 = (None, w')"
    using assms(2) by (auto simp: assignMdevMatrix_def split: prod.splits option.splits)
  have K1: "K w1 = set_mdev u (Some (m\<lparr>md_adapters := set as \<union> md_adapters m\<rparr>)) (K w)"
    using adapters.assign_each_ok [OF assms(1) s(1)] by (simp add: fold_insert_views e_order_set)
  then have "k_mdev (K w1) u = Some (m\<lparr>md_adapters := set as \<union> md_adapters m\<rparr>)" by (simp add: kstate_simps)
  from domains.assign_each_ok [OF this s(2)] K1 show ?thesis
    by (simp add: fold_insert_views e_order_set set_mdev_def)
qed

lemma assignMdevMatrix_any:
  assumes "k_mdev (K w) u = Some m" "assignMdevMatrix env u as ds w = (r, w')"
  shows "\<exists>m'. K w' = set_mdev u (Some m') (K w)"
proof -
  obtain r1 w1 where s: "assign_each (AssignAdapter (e_os env) u) (e_order env ''adapters'' as) w = (r1, w1)"
    by (metis prod.exhaust)
  obtain m1 where K1: "K w1 = set_mdev u (Some m1) (K w)" using adapters.assign_each_any [OF assms(1) s] by blast
  show ?thesis
  proof (cases r1)
    case None
    have "k_mdev (K w1) u = Some m1" using K1 by (simp add: kstate_simps)
    moreover have "assign_each (AssignDomain (e_os env) u) (e_order env ''domains'' ds) w1 = (r, w')"
      using assms(2) s None by (simp add: assignMdevMatrix_def)
    ultimately show ?thesis using domains.assign_each_any K1 by (fastforce simp: set_mdev_def)
  next
    case (Some e)
    then show ?thesis using assms(2) s K1 by (auto simp: assignMdevMatrix_def)
  qed
qed

lemma assignMdevControlDomains_ok:
  assumes "k_mdev (K w) u = Some m" "assignMdevControlDomains env u mode ds w = (None, w')"
  shows "K w' = set_mdev u (Some (m\<lparr>md_control := (if mode = ControlDomainModeUsageOnly then {} else set ds) \<union> md_control m\<rparr>)) (K w)"
proof (cases "mode = ControlDomainModeUsageOnly")
  case True
  then show ?thesis using assms by (simp add: assignMdevControlDomains_def set_mdev_def fun_upd_idem)
next
  case False
  then show ?thesis
    using control.assign_each_ok [OF assms(1), of "e_order env ''control'' ds" w'] assms(2)
    by (simp add: assignMdevControlDomains_def fold_insert_views e_order_set)
qed

lemma assignMdevControlDomains_any:
  assumes "k_mdev (K w) u = Some m" "assignMdevControlDomains env u mode ds w = (r, w')"
  shows "\<exists>m'. K w' = set_mdev u (Some m') (K w)"
proof (cases "mode = ControlDomainModeUsageOnly")
  case True
  then show ?thesis
    using assms by (intro exI [of _ m]) (simp add: assignMdevControlDomains_def set_mdev_def fun_upd_idem)
next
  case False
  then show ?thesis
    using control.assign_each_any [OF assms(1), of "e_order env ''control'' ds" r w'] assms(2)
    by (simp add: assignMdevControlDomains_def)
qed

lemma switchQueues_frame:
  "set al \<subseteq> Q \<Longrightarrow> switchQueuesToVFIOAP env ctx al w = (r, w') \<Longrightarrow> differ_at (set al) (K w) (K w')"
  using switch_loop_frame [of "[]" "e_qorder env al" ctx 1 w r w'] by (simp add: switchQueuesToVFIOAP_def e_qorder_set)

lemma switchQueues_ok:
  "set al \<subseteq> Q \<Longrightarrow> distinct al \<Longrightarrow> switchQueuesToVFIOAP env ctx al w = (None, w') \<Longrightarrow> \<forall>q \<in> set al. on_vfio (K w') q"
  using switch_loop_ok [of "e_qorder env al" ctx 1 "[]" w w'] by (simp add: switchQueuesToVFIOAP_def e_qorder_set)

text \<open>A build that succeeds leaves the queues on vfio-ap and the device complete.\<close>

lemma build_mdev_ok:
  assumes "claim_uid u" "set al \<subseteq> Q" "distinct al" "build_mdev env ctx u mode (as, ds, al) w = (None, w')"
  shows "k_mdev (K w') u = Some (claim_mdev mode as ds)" "\<forall>q \<in> set al. on_vfio (K w') q"
    "differ_claim u (set al) (K w) (K w')"
proof -
  obtain w1 w2 w3 where s: "switchQueuesToVFIOAP env ctx al w = (None, w1)" "Create (e_os env) u w1 = (None, w2)"
    "assignMdevMatrix env u as ds w2 = (None, w3)" "assignMdevControlDomains env u mode ds w3 = (None, w')"
    using assms(4) by (auto simp: build_mdev_def split: prod.splits option.splits)
  have K2: "K w2 = set_mdev u (Some empty_mdev) (K w1)" using Create_K [OF assms(1) s(2)] by simp
  have m2: "k_mdev (K w2) u = Some empty_mdev" using K2 by (simp add: kstate_simps)
  have K3: "K w3 = set_mdev u (Some \<lparr>md_adapters = set as, md_domains = set ds, md_control = {}\<rparr>) (K w2)"
    using assignMdevMatrix_ok [OF m2 s(3)] by (simp add: empty_mdev_def)
  have m3: "k_mdev (K w3) u = Some \<lparr>md_adapters = set as, md_domains = set ds, md_control = {}\<rparr>"
    using K3 by (simp add: kstate_simps)
  have K4: "K w' = set_mdev u (Some (claim_mdev mode as ds)) (K w1)"
    using assignMdevControlDomains_ok [OF m3 s(4)] K3 K2 by (simp add: claim_mdev_def set_mdev_def)
  then show "k_mdev (K w') u = Some (claim_mdev mode as ds)" by (simp add: kstate_simps)
  show "\<forall>q \<in> set al. on_vfio (K w') q"
    using switchQueues_ok [OF assms(2,3) s(1)] K4 by (simp add: shape_defs kstate_simps)
  show "differ_claim u (set al) (K w) (K w')"
    using differ_claim_trans [OF differ_at_claim [OF switchQueues_frame [OF assms(2) s(1)] order_refl] differ_claim_set_mdev]
    by (simp add: K4)
qed

lemma Destroy_frame: "claim_uid u \<Longrightarrow> Destroy (e_os env) u w = (r, w') \<Longrightarrow> differ_claim u S (K w) (K w')"
  by (simp add: Destroy_K)

lemma build_mdev_frame:
  assumes "claim_uid u" "set al \<subseteq> Q" "build_mdev env ctx u mode (as, ds, al) w = (r, w')"
  shows "differ_claim u (set al) (K w) (K w')"
proof -
  obtain r1 w1 where s1: "switchQueuesToVFIOAP env ctx al w = (r1, w1)" by (metis prod.exhaust)
  have d1: "differ_claim u (set al) (K w) (K w1)"
    using switchQueues_frame [OF assms(2) s1] by (rule differ_at_claim) simp
  obtain r2 w2 where s2: "Create (e_os env) u w1 = (r2, w2)" by (metis prod.exhaust)
  have d2: "differ_claim u (set al) (K w) (K w2)"
    using d1 Create_K [OF assms(1) s2] by (auto intro: differ_claim_trans)
  obtain r3 w3 where s3: "assignMdevMatrix env u as ds w2 = (r3, w3)" by (metis prod.exhaust)
  obtain r4 w4 where s4: "assignMdevControlDomains env u mode ds w3 = (r4, w4)" by (metis prod.exhaust)
  have dd: "differ_claim u (set al) (K w) (K (destroyPartialMdev (e_os env) u v))" if "differ_claim u (set al) (K w) (K v)" for v
    using Destroy_frame [OF assms(1), of v "fst (Destroy (e_os env) u v)"] that
    by (auto simp: destroyPartialMdev_def intro: differ_claim_trans)
  show ?thesis
  proof (cases "r1 = None \<and> r2 = None")
    case True
    then have m2: "k_mdev (K w2) u = Some empty_mdev" using Create_K [OF assms(1) s2] by (simp add: kstate_simps)
    then obtain m3 where K3: "K w3 = set_mdev u (Some m3) (K w2)" using assignMdevMatrix_any [OF _ s3] by blast
    then have d3: "differ_claim u (set al) (K w) (K w3)" using d2 by (auto intro: differ_claim_trans)
    have "k_mdev (K w3) u = Some m3" using K3 by (simp add: kstate_simps)
    then obtain m4 where "K w4 = set_mdev u (Some m4) (K w3)" using assignMdevControlDomains_any [OF _ s4] by blast
    then have d4: "differ_claim u (set al) (K w) (K w4)" using d3 by (auto intro: differ_claim_trans)
    show ?thesis
      using assms(3) s1 s2 s3 s4 True dd [OF d3] dd [OF d4] d4
      by (cases r3; cases r4) (auto simp: build_mdev_def)
  next
    case False
    then show ?thesis using assms(3) s1 s2 d1 d2 by (cases r1; cases r2) (auto simp: build_mdev_def)
  qed
qed

text \<open>
  An existing device counts as complete exactly when its queues are the allocated ones; the
  allocation never names a queue with an empty half.
\<close>

lemma mdevMatrixEquals_iff:
  assumes "k_mdev (K w) u = Some m" "mdevMatrixEquals (e_os env) u al w = Inr complete"
    and "distinct al" "\<forall>q \<in> set al. APID q \<noteq> [] \<and> APQI q \<noteq> []"
  shows "complete \<longleftrightarrow> matrix_rows m = set al" "complete \<Longrightarrow> matrix_of m = set al"
proof -
  obtain qs where qs: "ReadMatrix (e_os env) u w = Inr qs"
    and c: "complete \<longleftrightarrow> length qs = length al \<and> set qs \<subseteq> set al"
    using assms(2) by (auto simp: mdevMatrixEquals_def list_all_iff split: sum.splits if_splits)
  have rows: "distinct qs" "set qs = matrix_rows m" using ReadMatrix_rows [OF assms(1) qs] by auto
  have "length qs = length al \<and> set qs \<subseteq> set al \<longleftrightarrow> set qs = set al"
    using rows(1) assms(3) by (metis card_subset_eq distinct_card finite_set order_refl)
  then show eq: "complete \<longleftrightarrow> matrix_rows m = set al" using c rows by simp
  show "matrix_of m = set al" if complete
  proof
    show "matrix_of m \<subseteq> set al" using matrix_of_rows [of m] that eq by simp
    show "set al \<subseteq> matrix_of m" using that eq matrix_rows_full assms(4) by blast
  qed
qed

lemma claim_mdev_matrix: "matrix_of (claim_mdev mode as ds) = cross (set as) (set ds)"
  by (simp add: matrix_of_def claim_mdev_def cross_def)

lemma ensureMdevForClaim_ok:
  assumes "claim_uid u" "allocated_set s rs \<subseteq> Q" "ensureMdevForClaim env ctx s rs u mode w = (None, w')"
  shows "\<exists>m. k_mdev (K w') u = Some m \<and> matrix_of m = allocated_set s rs \<and>
     (K w' = K w \<or> md_control m = (if mode = ControlDomainModeUsageOnly then {} else APQI ` allocated_set s rs)
        \<and> (\<forall>q \<in> allocated_set s rs. on_vfio (K w') q))"
    and "k_mdev (K w) u = None \<Longrightarrow> \<forall>q \<in> allocated_set s rs. on_vfio (K w') q"
    and "k_mdev (K w) u = None \<Longrightarrow> \<exists>m. k_mdev (K w') u = Some m \<and>
       md_control m = (if mode = ControlDomainModeUsageOnly then {} else APQI ` allocated_set s rs)"
proof -
  obtain as ds al where c: "collectAllocatedAPQNs s rs = Inr (as, ds, al)"
    using assms(3) by (auto simp: ensureMdevForClaim_def split: sum.splits)
  note st = collectAllocatedAPQNs_sets [OF c]
  have al: "set al \<subseteq> Q" "distinct al" "\<forall>q \<in> set al. APID q \<noteq> [] \<and> APQI q \<noteq> []"
    using st assms(2) allocated_set_not_Nil by auto
  have built: "k_mdev (K w') u = Some (claim_mdev mode as ds) \<and> (\<forall>q \<in> allocated_set s rs. on_vfio (K w') q)"
    if "build_mdev env ctx u mode (as, ds, al) v = (None, w')" for v
    using build_mdev_ok [OF assms(1) al(1,2) that] st(1) by simp
  have view: "matrix_of (claim_mdev mode as ds) = allocated_set s rs"
    "md_control (claim_mdev mode as ds) = (if mode = ControlDomainModeUsageOnly then {} else APQI ` allocated_set s rs)"
    using st by (simp add: claim_mdev_matrix, simp add: claim_mdev_def)
  have "(\<exists>v. build_mdev env ctx u mode (as, ds, al) v = (None, w')) \<or>
      w' = w \<and> Exists (e_os env) u w \<and> mdevMatrixEquals (e_os env) u al w = Inr True"
    using assms(3) c by (auto simp: ensureMdevForClaim_def split: sum.splits if_splits prod.splits option.splits)
  moreover have "\<exists>v. build_mdev env ctx u mode (as, ds, al) v = (None, w')" if "k_mdev (K w) u = None"
    using assms(3) c that Exists_iff [OF assms(1)] by (auto simp: ensureMdevForClaim_def)
  moreover have "\<exists>m. k_mdev (K w) u = Some m \<and> matrix_of m = allocated_set s rs"
    if "Exists (e_os env) u w" "mdevMatrixEquals (e_os env) u al w = Inr True"
    using that Exists_iff [OF assms(1)] mdevMatrixEquals_iff(2) [OF _ that(2) al(2,3)] st(1) by auto
  ultimately show "\<exists>m. k_mdev (K w') u = Some m \<and> matrix_of m = allocated_set s rs \<and>
     (K w' = K w \<or> md_control m = (if mode = ControlDomainModeUsageOnly then {} else APQI ` allocated_set s rs)
        \<and> (\<forall>q \<in> allocated_set s rs. on_vfio (K w') q))"
    and "k_mdev (K w) u = None \<Longrightarrow> \<forall>q \<in> allocated_set s rs. on_vfio (K w') q"
    and "k_mdev (K w) u = None \<Longrightarrow> \<exists>m. k_mdev (K w') u = Some m \<and>
       md_control m = (if mode = ControlDomainModeUsageOnly then {} else APQI ` allocated_set s rs)"
    using built view by (metis, blast, metis)
qed

lemma ensureMdevForClaim_frame:
  assumes "claim_uid u" "allocated_set s rs \<subseteq> Q" "ensureMdevForClaim env ctx s rs u mode w = (r, w')"
  shows "differ_claim u (allocated_set s rs) (K w) (K w')"
proof (cases "collectAllocatedAPQNs s rs")
  case (Inl e)
  then show ?thesis using assms(3) by (simp add: ensureMdevForClaim_def)
next
  case (Inr x)
  obtain as ds al where x: "x = (as, ds, al)" by (cases x)
  note st = collectAllocatedAPQNs_sets [OF Inr [unfolded x]]
  obtain r1 w1 where d: "Destroy (e_os env) u w = (r1, w1)" by (metis prod.exhaust)
  have b: "differ_claim u (set al) (K v) (K w')" if "build_mdev env ctx u mode (as, ds, al) v = (r, w')" for v
    using build_mdev_frame [OF assms(1) _ that] st(1) assms(2) by simp
  have "w' = w \<or> w' = w1 \<or> build_mdev env ctx u mode (as, ds, al) w = (r, w')
      \<or> build_mdev env ctx u mode (as, ds, al) w1 = (r, w')"
    using assms(3) Inr x d
    by (auto simp: ensureMdevForClaim_def split: sum.splits if_splits option.splits)
  then show ?thesis
    using b Destroy_frame [OF assms(1) d, of "set al"] differ_claim_trans st(1) by (metis differ_claim_refl)
qed

text \<open>A complete device is left alone, whatever else happens.\<close>

lemma ensureMdevForClaim_complete:
  assumes "claim_uid u" "k_mdev (K w) u = Some m" "matrix_of m = allocated_set s rs" "allocated_set s rs \<noteq> {}"
    and "ensureMdevForClaim env ctx s rs u mode w = (r, w')"
  shows "w' = w"
proof (cases "collectAllocatedAPQNs s rs")
  case (Inl e)
  then show ?thesis using assms(5) by (simp add: ensureMdevForClaim_def)
next
  case (Inr x)
  obtain as ds al where x: "x = (as, ds, al)" by (cases x)
  note st = collectAllocatedAPQNs_sets [OF Inr [unfolded x]]
  have "md_adapters m \<noteq> {}" "md_domains m \<noteq> {}" using assms(3,4) by (auto simp: matrix_of_def)
  then have rows: "matrix_rows m = set al" using assms(3) st(1) by (simp add: matrix_rows_def)
  have "mdevMatrixEquals (e_os env) u al w = Inr b \<Longrightarrow> b" for b
    using mdevMatrixEquals_iff(1) [OF assms(2) _ st(4)] rows allocated_set_not_Nil st(1) by blast
  moreover have "Exists (e_os env) u w" using assms(1,2) Exists_iff by simp
  ultimately show ?thesis
    using assms(5) Inr x by (auto simp: ensureMdevForClaim_def split: sum.splits if_splits prod.splits)
qed

end

end
