(* ===== verification/Claim_Node.thy ===== *)
theory Claim_Node
  imports Node
begin

text \<open>
  \<open>Prepare\<close> and \<open>Unprepare\<close> on a node: what the file-writing steps leave alone in the
  kernel, what the sysfs writes leave alone in the file system, and the effect of the two
  operations as a whole.
\<close>

section \<open>The configured directories\<close>

definition state_dirs :: "DeviceState \<Rightarrow> bool" where
  "state_dirs s \<longleftrightarrow> data_dir (cdiRoot s) \<and> data_dir (pluginDataDir s)"

text \<open>The request names become directory names.\<close>

definition plain_requests :: "ResourceClaim \<Rightarrow> bool" where
  "plain_requests claim \<longleftrightarrow>
     (case claim_Allocation claim of None \<Rightarrow> True | Some a \<Rightarrow> list_all (\<lambda>r. plain (res_Request r)) (alloc_Results a))"

lemma group_results_keys:
  "set (map fst (group_results driver rs m)) = set (map fst m) \<union> res_Request ` {r \<in> set rs. res_Driver r = driver}"
  by (induction rs arbitrary: m) (auto simp: dom_update)

lemma plain_spec_name: "plain u \<Longrightarrow> plain (cdiVendor @ ''-'' @ cdiClass @ ''-'' @ u @ ''.json'')"
  by (auto simp: plain_def cdiVendor_def cdiClass_def)

lemma spec_outside_sys: "data_dir root \<Longrightarrow> plain u \<Longrightarrow> outside_sys (cdi_file_path root u)"
  unfolding cdi_file_path_def using plain_spec_name by (intro outside_sys_Join) auto

lemma claim_dir_outside_sys:
  "data_dir root \<Longrightarrow> plain u \<Longrightarrow> outside_sys (claim_metadata_dir root u)"
  unfolding claim_metadata_dir_def by (intro outside_sys_Join) auto

lemma metadata_outside_sys:
  assumes "data_dir (cp_PluginDataDir p)" "plain (cp_ClaimUID p)" "plain r"
  shows "outside_sys (metadata_host_dir p r)" "outside_sys (metadata_host_path p r)"
proof -
  have d: "data_dir (metadata_host_dir p r)"
    unfolding metadata_host_dir_def using assms by (intro data_dir_Join) auto
  then show "outside_sys (metadata_host_dir p r)" by (rule outside_sys_data_dir)
  show "outside_sys (metadata_host_path p r)"
    unfolding metadata_host_path_def using d by (intro outside_sys_Join) auto
qed

lemma sys_not_outside:
  assumes "\<forall>c \<in> set cs. plain c"
  shows "\<not> outside_sys (path_of (''sys'' # cs))"
proof -
  have "Split slash (path_of (''sys'' # cs)) = [] # ''sys'' # cs"
    using assms by (intro Split_path_of) (auto simp: plain_def)
  then show ?thesis by (simp add: outside_sys_def)
qed

lemma queue_paths_sys:
  assumes "wf_apqn q"
  shows "\<not> outside_sys (driverOverridePath (APID q) (APQI q))" "\<not> outside_sys (deviceUnbindPath (APID q) (APQI q))"
proof -
  have p: "\<forall>c \<in> set [''devices'', ''ap'', ''card'' @ APID q, queue_name q]. plain c"
    "plain ''driver''" "plain ''unbind''" "plain ''driver_override''" "plain ''sys''"
    using plain_hex_comp [OF assms] by (auto simp: plain_def)
  have "driverOverridePath (APID q) (APQI q) = path_of (''sys'' # [''devices'', ''ap'', ''card'' @ APID q, queue_name q, ''driver_override''])"
    using override_path_path_of [OF assms] by (simp add: override_path_def)
  then show "\<not> outside_sys (driverOverridePath (APID q) (APQI q))"
    using p by (simp add: sys_not_outside del: path_of_Nil)
  have "deviceUnbindPath (APID q) (APQI q) = path_of (''sys'' # [''devices'', ''ap'', ''card'' @ APID q, queue_name q, ''driver'', ''unbind''])"
    using p by (simp add: deviceUnbindPath_def APDevicesPath_path_of Join_path_of queue_name_def)
  then show "\<not> outside_sys (deviceUnbindPath (APID q) (APQI q))"
    using p by (simp add: sys_not_outside del: path_of_Nil)
qed

lemma mdev_attr_sys: "plain u \<Longrightarrow> plain a \<Longrightarrow> \<not> outside_sys (Join [VFIOAPMatrixPath, u, a])"
proof -
  assume a: "plain u" "plain a"
  have c: "plain ''sys''" "plain ''devices''" "plain ''vfio_ap''" "plain ''matrix''" by (simp_all add: plain_def)
  have "Join [VFIOAPMatrixPath, u, a] = path_of (''sys'' # [''devices'', ''vfio_ap'', ''matrix'', u, a])"
    using a c by (simp add: VFIOAPMatrixPath_path_of Join_path_of)
  then show ?thesis using a c by (simp add: sys_not_outside)
qed

lemma const_paths_sys: "\<not> outside_sys DriversProbePath" "\<not> outside_sys mdevCreatePath"
  by code_simp+

context ap_node
begin

lemma drain_keeps_mdevs: "k_mdev (K (snd (DrainOrphanedVFIOAP os w))) = k_mdev (K w)"
proof (cases "fst (DrainOrphanedVFIOAP os w)")
  case (Some e)
  then show ?thesis by (auto simp: DrainOrphanedVFIOAP_def split: sum.splits)
next
  case None
  then obtain live ps where ps: "os_Glob os apQueueOverrideGlob w = Inr ps"
    and w': "snd (DrainOrphanedVFIOAP os w) = drain_matches os live ps w"
    by (auto simp: DrainOrphanedVFIOAP_def split: sum.splits)
  from override_glob [OF ps] obtain qs where "distinct qs" "set qs = Q" "ps = map override_path qs" by blast
  then show ?thesis using w' drain_matches_frame [of qs live w] by (simp add: differ_at_def)
qed

end

section \<open>Files stay as they are under sysfs writes\<close>

context node
begin

lemma sys_write_F: "\<not> outside_sys p \<Longrightarrow> F (snd (os_WriteFile os p d m w)) = F w"
  using write_F by (metis prod.collapse)

lemma unbindQueue_F: "q \<in> Q \<Longrightarrow> F (snd (unbindQueue os n (APID q) (APQI q) w)) = F w"
  using sys_write_F [of "deviceUnbindPath (APID q) (APQI q)" n sysfsWriteMode w] queue_paths_sys [OF queue_names]
  by (auto simp: unbindQueue_def split: prod.splits option.splits)

lemma SwitchToZcrypt_F:
  assumes "q \<in> Q"
  shows "F (snd (SwitchToZcrypt os (APID q) (APQI q) w)) = F w"
proof -
  note f = sys_write_F [OF queue_paths_sys(1) [OF queue_names [OF assms]]] sys_write_F [OF const_paths_sys(1)] unbindQueue_F [OF assms]
  let ?id = "queue_name q" and ?p = "driverOverridePath (APID q) (APQI q)"
  obtain r1 w1 where s1: "unbindQueue os ?id (APID q) (APQI q) w = (r1, w1)" by (metis prod.exhaust)
  obtain r2 w2 where s2: "os_WriteFile os ?p [nl] sysfsWriteMode w1 = (r2, w2)" by (metis prod.exhaust)
  obtain r3 w3 where s3: "os_WriteFile os DriversProbePath ?id sysfsWriteMode w2 = (r3, w3)" by (metis prod.exhaust)
  have "F w1 = F w" "F w2 = F w1" "F w3 = F w2"
    using f(1) [of "[nl]" sysfsWriteMode w1] f(2) [of ?id sysfsWriteMode w2] f(3) [of ?id w] s1 s2 s3 by simp_all
  then show ?thesis
    using f(1) [of "''vfio_ap''" sysfsWriteMode w3] s1 s2 s3
    by (auto simp: SwitchToZcrypt_def queue_name_def Let_def split: option.splits)
qed

lemma rollback_F: "set qs \<subseteq> Q \<Longrightarrow> F (rollback os qs w) = F w"
  by (induction qs arbitrary: w) (simp_all add: SwitchToZcrypt_F)

lemma drain_F:
  assumes "DrainOrphanedVFIOAP os w = (r, w')"
  shows "F w' = F w"
proof (cases r)
  case (Some e)
  then show ?thesis using assms by (auto simp: DrainOrphanedVFIOAP_def split: sum.splits)
next
  case None
  then obtain live ps where ps: "os_Glob os apQueueOverrideGlob w = Inr ps" and w': "w' = drain_matches os live ps w"
    using assms by (auto simp: DrainOrphanedVFIOAP_def split: sum.splits)
  from override_glob [OF ps] obtain qs where qs: "set qs = Q" "ps = map override_path qs" by blast
  have "F (drain_matches os live (map override_path xs) v) = F v" if "set xs \<subseteq> Q" for xs v
    using that
  proof (induction xs arbitrary: v)
    case (Cons q xs)
    then have "F (drain_one os live (override_path q) v) = F v"
      using drain_one_cases [of q live v] SwitchToZcrypt_F [of q v] by auto
    then show ?case using Cons by simp
  qed simp
  then show ?thesis using w' qs by simp
qed

lemma Destroy_F: "plain u \<Longrightarrow> Destroy os u w = (r, w') \<Longrightarrow> F w' = F w"
  using sys_write_F [OF mdev_attr_sys, of u "''remove''" "''1''" sysfsWriteMode w]
  by (auto simp: Destroy_def Let_def plain_def split: if_splits prod.splits option.splits)

section \<open>The kernel stays as it is under file writes\<close>

lemma DeleteClaimSpec_K:
  "data_dir root \<Longrightarrow> plain u \<Longrightarrow> DeleteClaimSpec os root u w = (r, w') \<Longrightarrow> K w' = K w"
  using remove_K [OF spec_outside_sys, of root u w]
  by (auto simp: DeleteClaimSpec_def Let_def split: prod.splits option.splits if_splits)

lemma DeleteClaimSpec_F:
  assumes "data_dir root" "plain u" "DeleteClaimSpec os root u w = (r, w')"
  shows "F w' = (if r = None then (F w)(cdi_file_path root u := None) else F w)"
proof -
  let ?p = "cdi_file_path root u"
  have o: "outside_sys ?p" using assms(1,2) by (rule spec_outside_sys)
  obtain r1 w1 where s: "os_Remove os ?p w = (r1, w1)" by (metis prod.exhaust)
  have F1: "F w1 = (if r1 = None then (F w)(?p := None) else F w)" using file_remove [OF o s] .
  show ?thesis
  proof (cases "\<exists>e. r1 = Some e \<and> os_IsNotExist e")
    case True
    then have "F w ?p = None" using file_remove_absent [OF o] s by blast
    then show ?thesis using True s F1 assms(3) by (auto simp: DeleteClaimSpec_def Let_def fun_upd_idem)
  next
    case False
    then show ?thesis using s F1 assms(3) by (cases r1) (auto simp: DeleteClaimSpec_def Let_def)
  qed
qed

lemma DeleteClaimMetadata_K:
  "data_dir root \<Longrightarrow> plain u \<Longrightarrow> DeleteClaimMetadata os root u w = (r, w') \<Longrightarrow> K w' = K w"
  using remove_all_K [OF claim_dir_outside_sys, of root u w]
  by (auto simp: DeleteClaimMetadata_def Let_def split: prod.splits option.splits)

lemma DeleteClaimMetadata_F:
  assumes "data_dir root" "plain u" "DeleteClaimMetadata os root u w = (r, w')"
  shows "F w q = None \<Longrightarrow> F w' q = None" "r = None \<Longrightarrow> under (claim_metadata_dir root u) q \<Longrightarrow> F w' q = None"
    "\<not> under (claim_metadata_dir root u) q \<Longrightarrow> F w' q = F w q"
proof -
  obtain r1 where s: "os_RemoveAll os (claim_metadata_dir root u) w = (r1, w')" "(r1 = None) = (r = None)"
    using assms(3) by (auto simp: DeleteClaimMetadata_def Let_def split: prod.splits option.splits)
  note o = claim_dir_outside_sys [OF assms(1,2)]
  show "F w q = None \<Longrightarrow> F w' q = None" by (rule file_remove_all_none [OF o s(1)])
  show "r = None \<Longrightarrow> under (claim_metadata_dir root u) q \<Longrightarrow> F w' q = None"
    using file_remove_all [OF o, of w w'] s by auto
  show "\<not> under (claim_metadata_dir root u) q \<Longrightarrow> F w' q = F w q"
    by (rule file_remove_all_other [OF o s(1)])
qed

lemma generate_request_K:
  assumes "data_dir (cp_PluginDataDir p)" "plain (cp_ClaimUID p)" "plain r"
    and "generate_request os p r ds w = (x, w')"
  shows "K w' = K w"
proof -
  note o = metadata_outside_sys [OF assms(1-3)]
  show ?thesis
    using assms(4) mkdir_K [OF o(1)] write_K [OF o(2)]
    by (auto simp: generate_request_def Let_def split: list.splits prod.splits option.splits)
qed

lemma generate_requests_K:
  assumes "data_dir (cp_PluginDataDir p)" "plain (cp_ClaimUID p)" "\<forall>r \<in> set names. plain r"
    and "generate_requests os p names w = (x, w')"
  shows "K w' = K w"
  using assms(3,4)
proof (induction names arbitrary: w x w')
  case (Cons r names)
  obtain y w1 where g: "generate_request os p r (request_devices p r) w = (y, w1)" by (metis prod.exhaust)
  have K1: "K w1 = K w" using generate_request_K [OF assms(1,2) _ g] Cons.prems(1) by simp
  show ?case
  proof (cases y)
    case (Inl e)
    then show ?thesis using Cons.prems(2) g K1 by (simp add: request_devices_def)
  next
    case (Inr m)
    obtain z w2 where gs: "generate_requests os p names w1 = (z, w2)" by (metis prod.exhaust)
    have "K w2 = K w1" using Cons.IH [OF _ gs] Cons.prems(1) by simp
    moreover have "w' = w2" using Cons.prems(2) g gs Inr by (cases z) (auto simp: request_devices_def)
    ultimately show ?thesis using K1 by simp
  qed
qed simp

lemma GenerateClaimSpec_K:
  assumes "data_dir root" "plain u" "GenerateClaimSpec os root u ms w = (x, w')"
  shows "K w' = K w"
  using assms(3) mkdir_K [OF outside_sys_data_dir [OF assms(1)]] write_K [OF spec_outside_sys [OF assms(1,2)]]
  by (auto simp: GenerateClaimSpec_def Let_def split: sum.splits prod.splits option.splits)

end

section \<open>Prepare and Unprepare\<close>

definition claim_results :: "ResourceClaim \<Rightarrow> DeviceRequestAllocationResult list" where
  "claim_results claim = (case claim_Allocation claim of None \<Rightarrow> [] | Some a \<Rightarrow> alloc_Results a)"

text \<open>The queues a claim was given.\<close>

abbreviation (input) claim_queues :: "DeviceState \<Rightarrow> ResourceClaim \<Rightarrow> APQN set" where
  "claim_queues s claim \<equiv> allocated_set s (claim_results claim)"

text \<open>A claim as the API server names it: its UID and its request names are plain path components.\<close>

definition claim_names_ok :: "ResourceClaim \<Rightarrow> bool" where
  "claim_names_ok claim \<longleftrightarrow> claim_uid (claim_UID claim) \<and> list_all (\<lambda>r. plain (res_Request r)) (claim_results claim)"

lemma claim_params_sel:
  "cp_PluginDataDir (claim_params s claim rs) = pluginDataDir s" "cp_ClaimUID (claim_params s claim rs) = claim_UID claim"
  "cp_RequestDevices (claim_params s claim rs) = group_results (driverName s) rs []"
  by (simp_all add: claim_params_def groupResultsByRequest_def)

context node_env
begin

lemma metadata_K:
  assumes "state_dirs s" "claim_names_ok claim"
    and "GenerateClaimMetadata (e_os env) (e_order env site) (claim_params s claim (claim_results claim)) w = (x, w')"
  shows "K w' = K w"
proof (rule generate_requests_K)
  let ?p = "claim_params s claim (claim_results claim)"
  show "generate_requests (e_os env) ?p (e_order env site (map fst (cp_RequestDevices ?p))) w = (x, w')"
    using assms(3) by (simp add: GenerateClaimMetadata_def)
  have "set (map fst (group_results (driverName s) (claim_results claim) [])) \<subseteq> res_Request ` set (claim_results claim)"
    unfolding group_results_keys by auto
  then show "\<forall>r \<in> set (e_order env site (map fst (cp_RequestDevices ?p))). plain r"
    using assms(2) unfolding e_order_set claim_params_sel by (fastforce simp: claim_names_ok_def list_all_iff)
qed (use assms in \<open>simp_all add: claim_params_sel state_dirs_def claim_names_ok_def claim_uid_def\<close>)

text \<open>Everything \<open>Prepare\<close> does to the kernel it does while it ensures the device.\<close>

lemma Prepare_cases:
  assumes "state_dirs s" "claim_names_ok claim" "Prepare env ctx s claim w = (x, w')"
  obtains (unchanged) "w' = w" "\<And>devs. x = Inr devs \<Longrightarrow> \<exists>a cfg. prepare_checks env s claim = Inr (a, True, cfg)"
  | (failed) a cfg e where "prepare_checks env s claim = Inr (a, False, cfg)"
      "ensureMdevForClaim env ctx s (claim_results claim) (claim_UID claim) (cc_ControlDomainMode cfg) w = (Some e, w')" "x = Inl e"
  | (ensured) a cfg w1 where "prepare_checks env s claim = Inr (a, False, cfg)"
      "ensureMdevForClaim env ctx s (claim_results claim) (claim_UID claim) (cc_ControlDomainMode cfg) w = (None, w1)" "K w' = K w1"
proof -
  consider "w' = w \<and> (\<forall>devs. x = Inr devs \<longrightarrow> (\<exists>a cfg. prepare_checks env s claim = Inr (a, True, cfg)))"
    | a cfg where "prepare_checks env s claim = Inr (a, False, cfg)" "lockCtx ctx = None"
        "ValidateControlDomainMode (cc_ControlDomainMode cfg) = None"
  proof (cases "lockCtx ctx = None \<and> (\<exists>a cfg. prepare_checks env s claim = Inr (a, False, cfg))")
    case True
    then obtain a cfg where c: "prepare_checks env s claim = Inr (a, False, cfg)" "lockCtx ctx = None" by blast
    then show ?thesis
      using that assms(3)
      by (cases "ValidateControlDomainMode (cc_ControlDomainMode cfg)") (auto simp: Prepare_def)
  next
    case False
    then show ?thesis
      using that(1) assms(3)
      by (cases "lockCtx ctx"; cases "prepare_checks env s claim") (auto simp: Prepare_def split: if_splits)
  qed
  then show ?thesis
  proof cases
    case 1
    then show ?thesis using unchanged by blast
  next
    case 2
    have a: "claim_results claim = alloc_Results a" using prepare_checks_Inr(1) [OF 2(1)] by (simp add: claim_results_def)
    let ?u = "claim_UID claim" and ?p = "claim_params s claim (claim_results claim)"
    obtain r1 w1 where s1: "ensureMdevForClaim env ctx s (claim_results claim) ?u (cc_ControlDomainMode cfg) w = (r1, w1)"
      by (metis prod.exhaust)
    show ?thesis
    proof (cases r1)
      case (Some e)
      then have "w' = w1" "x = Inl e" using assms(3) 2 s1 by (simp_all add: Prepare_def a)
      then show ?thesis using failed 2(1) s1 Some by blast
    next
      case None
      obtain y w2 where s2: "GenerateClaimMetadata (e_os env) (e_order env ''requests'') ?p w1 = (y, w2)" by (metis prod.exhaust)
      have K2: "K w2 = K w1" using metadata_K [OF assms(1,2) s2] .
      have "K w' = K w1"
      proof (cases y)
        case (Inl e)
        then show ?thesis using assms(3) 2 s1 s2 None K2 by (simp add: Prepare_def a)
      next
        case (Inr ms)
        obtain z w3 where s3: "GenerateClaimSpec (e_os env) (cdiRoot s) ?u (cdi_mounts ms) w2 = (z, w3)" by (metis prod.exhaust)
        then have "K w3 = K w2"
          using assms(1,2) by (intro GenerateClaimSpec_K) (auto simp: state_dirs_def claim_names_ok_def claim_uid_def)
        moreover have "w' = w3" using assms(3) 2 s1 s2 s3 None Inr by (cases z) (auto simp: Prepare_def a)
        ultimately show ?thesis using K2 by simp
      qed
      then show ?thesis using ensured 2(1) s1 None by blast
    qed
  qed
qed

lemma Prepare_K_frame:
  assumes "state_dirs s" "claim_names_ok claim" "allocated_set s (claim_results claim) \<subseteq> Q"
    and "Prepare env ctx s claim w = (r, w')"
  shows "differ_claim (claim_UID claim) (allocated_set s (claim_results claim)) (K w) (K w')"
proof -
  have u: "claim_uid (claim_UID claim)" using assms(2) by (simp add: claim_names_ok_def)
  show ?thesis
    using assms(1,2,4)
  proof (cases rule: Prepare_cases)
    case unchanged
    then show ?thesis by simp
  next
    case failed
    then show ?thesis using ensureMdevForClaim_frame [OF u assms(3)] by blast
  next
    case ensured
    then show ?thesis using ensureMdevForClaim_frame [OF u assms(3)] by metis
  qed
qed

lemma Prepare_K_device:
  assumes "state_dirs s" "claim_names_ok claim" "allocated_set s (claim_results claim) \<subseteq> Q"
    and "prepare_checks env s claim = Inr (a, False, cfg)" "Prepare env ctx s claim w = (Inr devs, w')"
  shows "\<exists>m. k_mdev (K w') (claim_UID claim) = Some m \<and> matrix_of m = allocated_set s (claim_results claim)
     \<and> (k_mdev (K w) (claim_UID claim) = None \<longrightarrow>
          (\<forall>q \<in> allocated_set s (claim_results claim). on_vfio (K w') q)
          \<and> md_control m = (if cc_ControlDomainMode cfg = ControlDomainModeUsageOnly then {}
                           else APQI ` allocated_set s (claim_results claim)))"
proof -
  have u: "claim_uid (claim_UID claim)" using assms(2) by (simp add: claim_names_ok_def)
  show ?thesis
    using assms(1,2,5)
  proof (cases rule: Prepare_cases)
    case unchanged
    then show ?thesis using assms(4) by simp
  next
    case failed
    then show ?thesis by simp
  next
    case (ensured a' cfg' w1)
    then have "cfg' = cfg" using assms(4) by auto
    then show ?thesis
      using ensureMdevForClaim_ok [OF u assms(3) ensured(2)] ensured(3)
      by (cases "k_mdev (K w) (claim_UID claim)") auto
  qed
qed

text \<open>
  A device with exactly the allocated queues is kept and the kernel with it; in every other
  case a success means a build.
\<close>

lemma ensureMdevForClaim_kept_or_built:
  assumes "claim_uid u" "allocated_set s rs \<subseteq> Q" "ensureMdevForClaim env ctx s rs u mode w = (None, w')"
  shows "if \<exists>m. k_mdev (K w) u = Some m \<and> matrix_rows m = allocated_set s rs then K w' = K w
     else (\<forall>q \<in> allocated_set s rs. on_vfio (K w') q)
        \<and> (\<exists>m. k_mdev (K w') u = Some m \<and> md_control m = (if mode = ControlDomainModeUsageOnly then {} else APQI ` allocated_set s rs))"
proof -
  obtain as ds al where c: "collectAllocatedAPQNs s rs = Inr (as, ds, al)"
    using assms(3) by (auto simp: ensureMdevForClaim_def split: sum.splits)
  note st = collectAllocatedAPQNs_sets [OF c]
  have al: "set al \<subseteq> Q" "distinct al" "\<forall>q \<in> set al. APID q \<noteq> [] \<and> APQI q \<noteq> []"
    using st assms(2) allocated_set_not_Nil by auto
  have rows: "complete \<longleftrightarrow> matrix_rows m = set al"
    if "k_mdev (K w) u = Some m" "mdevMatrixEquals (e_os env) u al w = Inr complete" for m complete
    using mdevMatrixEquals_iff(1) [OF that al(2,3)] .
  show ?thesis
  proof (cases "\<exists>m. k_mdev (K w) u = Some m \<and> matrix_rows m = allocated_set s rs")
    case True
    then obtain m where m: "k_mdev (K w) u = Some m" "matrix_rows m = set al" using st(1) by auto
    then have "Exists (e_os env) u w" using Exists_iff [OF assms(1)] by simp
    then have "w' = w" using assms(3) c rows m by (auto simp: ensureMdevForClaim_def split: sum.splits if_splits)
    then show ?thesis using True by simp
  next
    case False
    have "\<exists>v. build_mdev env ctx u mode (as, ds, al) v = (None, w')"
    proof (cases "Exists (e_os env) u w")
      case True
      then obtain m where "k_mdev (K w) u = Some m" using Exists_iff [OF assms(1)] by auto
      then show ?thesis
        using assms(3) c True rows False st(1)
        by (auto simp: ensureMdevForClaim_def split: sum.splits if_splits option.splits prod.splits)
    qed (use assms(3) c in \<open>auto simp: ensureMdevForClaim_def\<close>)
    then obtain v where v: "build_mdev env ctx u mode (as, ds, al) v = (None, w')" by blast
    have "md_control (claim_mdev mode as ds) = (if mode = ControlDomainModeUsageOnly then {} else APQI ` allocated_set s rs)"
      using st by (simp add: claim_mdev_def)
    then show ?thesis using False build_mdev_ok [OF assms(1) al(1,2) v] st(1) by auto
  qed
qed

lemma Prepare_kept_or_built:
  assumes "state_dirs s" "claim_names_ok claim" "allocated_set s (claim_results claim) \<subseteq> Q"
    and "prepare_checks env s claim = Inr (a, False, cfg)" "Prepare env ctx s claim w = (Inr devs, w')"
  shows "if \<exists>m. k_mdev (K w) (claim_UID claim) = Some m \<and> matrix_rows m = allocated_set s (claim_results claim) then K w' = K w
     else (\<forall>q \<in> allocated_set s (claim_results claim). on_vfio (K w') q)
        \<and> (\<exists>m. k_mdev (K w') (claim_UID claim) = Some m
             \<and> md_control m = (if cc_ControlDomainMode cfg = ControlDomainModeUsageOnly then {} else APQI ` allocated_set s (claim_results claim)))"
proof -
  have u: "claim_uid (claim_UID claim)" using assms(2) by (simp add: claim_names_ok_def)
  from assms(1,2,5) show ?thesis
  proof (cases rule: Prepare_cases)
    case (ensured a' cfg' w1)
    then have cfg: "cfg' = cfg" using assms(4) by auto
    show ?thesis using ensureMdevForClaim_kept_or_built [OF u assms(3) ensured(2)] unfolding ensured(3) cfg .
  qed (use assms(4) in auto)
qed

text \<open>The part of \<open>Unprepare\<close> up to the removal of the device.\<close>

lemma Unprepare_cases:
  assumes "state_dirs s" "claim_uid u" "Unprepare env ctx s u w = (None, w')"
  obtains w1 w2 w3 apqns where "DeleteClaimSpec (e_os env) (cdiRoot s) u w = (None, w1)"
    "w2 = snd (DeleteClaimMetadata (e_os env) (pluginDataDir s) u w1)" "K w2 = K w"
    "apqns = (if Exists (e_os env) u w2 then (case ReadMatrix (e_os env) u w2 of Inl e \<Rightarrow> [] | Inr qs \<Rightarrow> qs) else [])"
    "Destroy (e_os env) u w2 = (None, w3)" "K w3 = set_mdev u None (K w)"
    "w' = (if apqns \<noteq> [] then rollback (e_os env) apqns w3
           else if Exists (e_os env) u w \<or> ClaimMetadataExists (e_os env) (pluginDataDir s) u w
           then snd (DrainOrphanedVFIOAP (e_os env) w3) else w3)"
proof -
  have d: "data_dir (cdiRoot s)" "data_dir (pluginDataDir s)" "plain u"
    using assms(1,2) by (auto simp: state_dirs_def claim_uid_def)
  obtain w1 where s1: "DeleteClaimSpec (e_os env) (cdiRoot s) u w = (None, w1)"
    using assms(3) by (auto simp: Unprepare_def Let_def split: option.splits prod.splits)
  let ?w2 = "snd (DeleteClaimMetadata (e_os env) (pluginDataDir s) u w1)"
  have K2: "K ?w2 = K w"
    using DeleteClaimSpec_K [OF d(1,3) s1] DeleteClaimMetadata_K [OF d(2,3), of w1 _ ?w2] by (simp add: prod_eq_iff)
  obtain w3 where s3: "Destroy (e_os env) u ?w2 = (None, w3)"
    using assms(3) s1 by (auto simp: Unprepare_def Let_def split: option.splits prod.splits)
  have "K w3 = set_mdev u None (K w)" using Destroy_K [OF assms(2) s3] K2 by simp
  with that s1 K2 s3 show ?thesis
    using assms(3) by (auto simp: Unprepare_def Let_def split: option.splits if_splits)
qed

end

end
