(* ===== verification/Node_Sim.thy ===== *)
theory Node_Sim
  imports Claim_Node Binding_Props
begin

text \<open>
  The executable operating system of \<open>Ap_Sim\<close> as a node: its table of files is the file
  system, and writing a file leaves its queues and mediated devices alone.
\<close>

definition sim_F :: "sim \<Rightarrow> string \<Rightarrow> string option" where
  "sim_F s p = (if outside_sys p then map_of (s_files s) p else None)"

lemma target_outside_sys:
  assumes "outside_sys p"
  shows "target_of p = TFile p"
proof -
  obtain c cs where "Split slash p = [] # c # cs" "c \<noteq> ''sys''"
    using assms unfolding outside_sys_def Let_def
    by (cases "Split slash p"; cases "tl (Split slash p)") auto
  then show ?thesis by (auto simp: target_of_def target_comps_def)
qed

lemma sim_K_files [simp]: "sim_K (s\<lparr>s_files := f\<rparr>) = sim_K s"
  by (auto simp: sim_K_def q_state_def fun_eq_iff)

lemma sim_F_keep [simp]:
  "sim_F (set_q q x s) = sim_F s" "sim_F (set_m u y s) = sim_F s" "sim_F (s\<lparr>s_mdevs := ms\<rparr>) = sim_F s"
  "sim_F (s\<lparr>s_fail := fl\<rparr>) = sim_F s"
  by (auto simp: sim_F_def set_q_def set_m_def fun_eq_iff)

lemma sim_F_update: "\<not> outside_sys p \<Longrightarrow> sim_F (s\<lparr>s_files := AList.update p d (s_files s)\<rparr>) = sim_F s"
  by (auto simp: sim_F_def update_conv' fun_eq_iff)

lemma sim_write_sys:
  assumes "\<not> outside_sys p" "sim_write p d m w = (r, w')"
  shows "sim_F w' = sim_F w"
proof (cases "target_of p")
  case (TFile f)
  then have "f = p" by (auto simp: target_of_def target_comps_def split: if_splits)
  then show ?thesis using assms TFile by (auto simp: sim_write_def sim_F_update split: if_splits)
next
  case (TAttr u attr)
  then show ?thesis
    using assms by (auto simp: sim_write_def assign_def split: if_splits option.splits prod.splits)
qed (use assms in \<open>auto simp: sim_write_def Let_def split: if_splits prod.splits\<close>)

lemma map_of_filter_key: "map_of (filter (\<lambda>(f, _). P f) fs) q = (if P q then map_of fs q else None)"
  by (induction fs) auto

interpretation sim_files: node sim_os sim_K "set sim_apqns" sim_F
proof
  fix p :: string and w w' :: sim and r d m
  assume o: "outside_sys p"
  note t = target_outside_sys [OF o]
  show "sim_F w p = Some d" if "os_ReadFile sim_os p w = Inr d"
    using that o by (auto simp: sim_read_def t sim_F_def split: if_splits option.splits)
  show "sim_F w' = (sim_F w)(p \<mapsto> d)" if "os_WriteFile sim_os p d m w = (None, w')"
    using that o by (auto simp: sim_write_def t sim_F_def update_conv' fun_eq_iff split: if_splits)
  show "sim_F w' q = sim_F w q" if "os_WriteFile sim_os p d m w = (Some e, w')" for q e
    using that by (auto simp: sim_write_def t split: if_splits)
  show "sim_F w' = sim_F w" if "os_MkdirAll sim_os p m w = (r, w')" for m
    using that by simp
  show "sim_F w' = (if r = None then (sim_F w)(p := None) else sim_F w)" if "os_Remove sim_os p w = (r, w')"
    using that o by (auto simp: sim_remove_def sim_F_def delete_conv' fun_eq_iff split: if_splits)
  show "sim_F w p = None" if "os_Remove sim_os p w = (Some e, w')" "os_IsNotExist e" for e
    using that by (auto simp: sim_remove_def sim_F_def split: if_splits)
  show "sim_F w' = (\<lambda>q. if under p q then None else sim_F w q)" if "os_RemoveAll sim_os p w = (None, w')"
  proof -
    have "w' = w\<lparr>s_files := filter (\<lambda>(g, _). \<not> under p g) (s_files w)\<rparr>"
      using that by (auto simp: sim_removeall_def under_def split: if_splits)
    then show ?thesis by (simp add: sim_F_def map_of_filter_key fun_eq_iff)
  qed
  show "sim_F w' q = sim_F w q \<or> under p q \<and> sim_F w' q = None" if "os_RemoveAll sim_os p w = (Some e, w')" for q e
    using that by (auto simp: sim_removeall_def split: if_splits)
  show "sim_K w' = sim_K w" if "os_WriteFile sim_os p d m w = (r, w')"
    using that by (auto simp: sim_write_def t split: if_splits)
  show "sim_K w' = sim_K w" if "os_MkdirAll sim_os p m w = (r, w')" for m
    using that by simp
  show "sim_K w' = sim_K w" if "os_Remove sim_os p w = (r, w')"
    using that by (auto simp: sim_remove_def split: if_splits)
  show "sim_K w' = sim_K w" if "os_RemoveAll sim_os p w = (r, w')"
    using that by (auto simp: sim_removeall_def split: if_splits)
next
  fix p d m and w w' :: sim and r
  assume "\<not> outside_sys p" "os_WriteFile sim_os p d m w = (r, w')"
  then show "sim_F w' = sim_F w" using sim_write_sys by simp
qed

text \<open>The laws survive a preparation of the world that the laws cannot see.\<close>

lemma masked_files:
  "os_MkdirAll (masked f os) p m w = os_MkdirAll os p m (f w)"
  "os_Remove (masked f os) p w = os_Remove os p (f w)"
  "os_RemoveAll (masked f os) p w = os_RemoveAll os p (f w)"
  by (simp_all add: masked_def)

lemma masked_store:
  assumes s: "file_store os F reg" and fl: "\<And>w. F (f w) = F w"
  shows "file_store (masked f os) F reg"
proof
  fix p :: string and w w' d m r q e
  assume reg: "reg p"
  show "F w p = Some d" if "os_ReadFile (masked f os) p w = Inr d"
    using that file_store.file_read [OF s reg, of "f w"] fl by simp
  show "F w' = (F w)(p \<mapsto> d)" if "os_WriteFile (masked f os) p d m w = (None, w')"
    using that file_store.file_write [OF s reg, of d m "f w"] fl by simp
  show "F w' q = F w q" if "os_WriteFile (masked f os) p d m w = (Some e, w')" "q \<noteq> p"
    using that file_store.file_write_failed [OF s reg, of d m "f w"] fl by simp
  show "F w' = F w" if "os_MkdirAll (masked f os) p m w = (r, w')"
    using that file_store.file_mkdir [OF s reg, of m "f w"] fl by (simp add: masked_files)
  show "F w' = (if r = None then (F w)(p := None) else F w)" if "os_Remove (masked f os) p w = (r, w')"
    using that file_store.file_remove [OF s reg, of "f w"] fl by (simp add: masked_files)
  show "F w p = None" if "os_Remove (masked f os) p w = (Some e, w')" "os_IsNotExist e"
    using that file_store.file_remove_absent [OF s reg, of "f w"] fl by (simp add: masked_files)
  show "F w' = (\<lambda>q. if under p q then None else F w q)" if "os_RemoveAll (masked f os) p w = (None, w')"
    using that file_store.file_remove_all [OF s reg, of "f w", unfolded fl] by (simp add: masked_files)
  show "F w' q = F w q \<or> under p q \<and> F w' q = None" if "os_RemoveAll (masked f os) p w = (Some e, w')"
    using that file_store.file_remove_all_failed [OF s reg, of "f w" e w' q] fl by (simp add: masked_files)
qed

lemma masked_full_node:
  assumes n: "node os K Q F" and k: "\<And>w. K (f w) = K w" and fl: "\<And>w. F (f w) = F w"
  shows "node (masked f os) K Q F"
proof (rule node.intro [OF masked_node [OF node.axioms(1) [OF n] k] masked_store [OF node.axioms(2) [OF n] fl]], unfold_locales)
  fix p :: string and w w' d m r
  show "K w' = K w" if "outside_sys p" "os_WriteFile (masked f os) p d m w = (r, w')"
    using that node.write_K [OF n, of p d m "f w"] k by simp
  show "K w' = K w" if "outside_sys p" "os_MkdirAll (masked f os) p m w = (r, w')"
    using that node.mkdir_K [OF n, of p m "f w"] k by (simp add: masked_files)
  show "K w' = K w" if "outside_sys p" "os_Remove (masked f os) p w = (r, w')"
    using that node.remove_K [OF n, of p "f w"] k by (simp add: masked_files)
  show "K w' = K w" if "outside_sys p" "os_RemoveAll (masked f os) p w = (r, w')"
    using that node.remove_all_K [OF n, of p "f w"] k by (simp add: masked_files)
  show "F w' = F w" if "\<not> outside_sys p" "os_WriteFile (masked f os) p d m w = (r, w')"
    using that node.write_F [OF n, of p d m "f w"] fl by simp
qed

lemma calm_full_node: "node calm_os sim_K (set sim_apqns) sim_F"
  unfolding calm_os_def by (rule masked_full_node [OF sim_files.node_axioms]) simp_all

end
