(* ===== verification/Claim_Files.thy ===== *)
theory Claim_Files
  imports Claim_Node
begin

text \<open>
  The files of a node while a claim is prepared: the writes to sysfs touch none, and the
  metadata and the CDI spec are written into the claim's own directory and spec file.
\<close>

section \<open>Sysfs writes\<close>

lemma assign_each_files:
  assumes "\<And>x v. F (snd (op x v)) = F v"
  shows "F (snd (assign_each op xs w)) = F w"
proof (induction xs arbitrary: w)
  case (Cons x xs)
  obtain r v where s: "op x w = (r, v)" by (metis prod.exhaust)
  then have "F v = F w" using assms [of x w] by simp
  then show ?case using Cons.IH [of v] s by (cases r) simp_all
qed simp

context node
begin

lemma SwitchToVFIOAP_F:
  assumes "q \<in> Q"
  shows "F (snd (SwitchToVFIOAP os (APID q) (APQI q) w)) = F w"
proof -
  note f = sys_write_F [OF queue_paths_sys(1) [OF queue_names [OF assms]]] sys_write_F [OF const_paths_sys(1)] unbindQueue_F [OF assms]
  let ?id = "queue_name q" and ?p = "driverOverridePath (APID q) (APQI q)"
  obtain r1 w1 where s1: "os_WriteFile os ?p ''vfio_ap'' sysfsWriteMode w = (r1, w1)" by (metis prod.exhaust)
  obtain r2 w2 where s2: "unbindQueue os ?id (APID q) (APQI q) w1 = (r2, w2)" by (metis prod.exhaust)
  obtain r3 w3 where s3: "os_WriteFile os DriversProbePath ?id sysfsWriteMode w2 = (r3, w3)" by (metis prod.exhaust)
  have "F w1 = F w" "F w2 = F w1" "F w3 = F w2"
    using f(1) [of "''vfio_ap''" sysfsWriteMode w] f(2) [of ?id sysfsWriteMode w2] f(3) [of ?id w1] s1 s2 s3 by simp_all
  then show ?thesis
    using s1 s2 s3 by (auto simp: SwitchToVFIOAP_def queue_name_def Let_def split: option.splits)
qed

lemma switch_loop_F:
  "set (switched @ qs) \<subseteq> Q \<Longrightarrow> F (snd (switch_loop os ctx k qs switched w)) = F w"
proof (induction qs arbitrary: k switched w)
  case (Cons q qs)
  obtain r v where s: "SwitchToVFIOAP os (APID q) (APQI q) w = (r, v)" by (metis prod.exhaust)
  then have "F v = F w" using SwitchToVFIOAP_F [of q w] Cons.prems by simp
  then show ?case
    using Cons.IH [of "switched @ [q]" "Suc k" v] Cons.prems s rollback_F [of switched w] rollback_F [of "switched @ [q]" v]
    by (auto split: option.splits)
qed simp

lemma Create_F: "F (snd (Create os u w)) = F w"
  using sys_write_F [OF const_paths_sys(2), of u sysfsWriteMode w]
  by (auto simp: Create_def split: prod.splits option.splits)

lemma Assign_F:
  assumes "plain u"
  shows "F (snd (AssignAdapter os u a w)) = F w" "F (snd (AssignDomain os u a w)) = F w" "F (snd (AssignControlDomain os u a w)) = F w"
proof -
  have "plain ''assign_adapter''" "plain ''assign_domain''" "plain ''assign_control_domain''" by (simp_all add: plain_def)
  note f = this [THEN mdev_attr_sys [OF assms], THEN sys_write_F, of "''0x'' @ a" sysfsWriteMode w]
  show "F (snd (AssignAdapter os u a w)) = F w" "F (snd (AssignDomain os u a w)) = F w" "F (snd (AssignControlDomain os u a w)) = F w"
    using f by (auto simp: AssignAdapter_def AssignDomain_def AssignControlDomain_def Let_def split: prod.splits option.splits)
qed

end

context node_env
begin

lemma build_mdev_F:
  assumes "plain u" "set al \<subseteq> Q"
  shows "F (snd (build_mdev env ctx u mode (as, ds, al) w)) = F w"
proof -
  note a = Assign_F [OF assms(1)]
  note each = assign_each_files [of F "AssignAdapter (e_os env) u", OF a(1)] assign_each_files [of F "AssignDomain (e_os env) u", OF a(2)]
    assign_each_files [of F "AssignControlDomain (e_os env) u", OF a(3)]
  obtain r1 w1 where s1: "switchQueuesToVFIOAP env ctx al w = (r1, w1)" by (metis prod.exhaust)
  obtain r2 w2 where s2: "Create (e_os env) u w1 = (r2, w2)" by (metis prod.exhaust)
  obtain r3 w3 where s3: "assignMdevMatrix env u as ds w2 = (r3, w3)" by (metis prod.exhaust)
  obtain r4 w4 where s4: "assignMdevControlDomains env u mode ds w3 = (r4, w4)" by (metis prod.exhaust)
  have "F w1 = F w"
    using switch_loop_F [of "[]" "e_qorder env al" ctx 1 w] assms(2) s1 by (simp add: switchQueuesToVFIOAP_def e_qorder_set)
  moreover have "F w2 = F w1" using Create_F [of u w1] s2 by simp
  moreover have "F (snd (assignMdevMatrix env u as ds w2)) = F w2"
    using each(1) [of "e_order env ''adapters'' as" w2] each(2) [of "e_order env ''domains'' ds"]
    by (auto simp: assignMdevMatrix_def split: prod.split option.split)
  moreover have "F (snd (assignMdevControlDomains env u mode ds w3)) = F w3"
    using each(3) by (simp add: assignMdevControlDomains_def)
  moreover have "F (destroyPartialMdev (e_os env) u v) = F v" for v
    using Destroy_F [OF assms(1), of v "fst (Destroy (e_os env) u v)"] by (simp add: destroyPartialMdev_def)
  ultimately show ?thesis
    using s1 s2 s3 s4 by (cases r1; cases r2; cases r3; cases r4) (simp_all add: build_mdev_def)
qed

lemma ensureMdevForClaim_F:
  assumes "plain u" "allocated_set s rs \<subseteq> Q"
  shows "F (snd (ensureMdevForClaim env ctx s rs u mode w)) = F w"
proof (cases "collectAllocatedAPQNs s rs")
  case (Inl e)
  then show ?thesis by (simp add: ensureMdevForClaim_def)
next
  case (Inr x)
  obtain as ds al where x: "x = (as, ds, al)" by (cases x)
  have al: "set al \<subseteq> Q" using collectAllocatedAPQNs_sets(1) [OF Inr [unfolded x]] assms(2) by simp
  obtain r1 w1 where d: "Destroy (e_os env) u w = (r1, w1)" by (metis prod.exhaust)
  then have "F w1 = F w" using Destroy_F [OF assms(1)] by blast
  then show ?thesis
    using Inr x d build_mdev_F [OF assms(1) al, of ctx mode as ds]
    by (auto simp: ensureMdevForClaim_def split: sum.split option.split)
qed

end

section \<open>The claim's own files\<close>

text \<open>Where the files of a claim are: below its metadata directory, and its CDI spec.\<close>

definition claim_file :: "DeviceState \<Rightarrow> string \<Rightarrow> string \<Rightarrow> bool" where
  "claim_file s u p \<longleftrightarrow> p = cdi_file_path (cdiRoot s) u \<or> under (claim_metadata_dir (pluginDataDir s) u) p"

lemma under_append: "under a (a @ slash # b)"
  by (simp add: under_def HasPrefix_def)

lemma metadata_under:
  assumes "data_dir (cp_PluginDataDir p)" "plain (cp_ClaimUID p)" "plain r"
  shows "under (claim_metadata_dir (cp_PluginDataDir p) (cp_ClaimUID p)) (metadata_host_path p r)"
proof -
  obtain ds where ds: "cp_PluginDataDir p = path_of ds" "ds \<noteq> []" "\<forall>c \<in> set ds. plain c"
    using data_dirE [OF assms(1)] by metis
  have "claim_metadata_dir (cp_PluginDataDir p) (cp_ClaimUID p) = path_of (ds @ [metadataSubDir, cp_ClaimUID p])"
    using ds assms(2) by (simp add: claim_metadata_dir_def Join_path_of)
  moreover have "metadata_host_path p r = path_of ((ds @ [metadataSubDir, cp_ClaimUID p]) @ [r, metadataFileName])"
    using ds assms(2,3) by (simp add: metadata_host_path_def metadata_host_dir_def Join_path_of)
  ultimately show ?thesis
    using under_append [of "path_of (ds @ [metadataSubDir, cp_ClaimUID p])"] by (simp add: path_of_append path_of_Cons)
qed

context node
begin

lemma generate_request_F:
  assumes "data_dir (cp_PluginDataDir p)" "plain (cp_ClaimUID p)" "plain r"
    and "generate_request os p r ds w = (x, w')" and "q \<noteq> metadata_host_path p r"
  shows "F w' q = F w q"
proof -
  note o = metadata_outside_sys [OF assms(1-3)]
  show ?thesis
    using assms(4,5) file_mkdir [OF o(1)] file_write_other [OF o(2)]
    by (auto simp: generate_request_def Let_def split: list.splits prod.splits option.splits)
qed

lemma generate_requests_F:
  assumes "data_dir (cp_PluginDataDir p)" "plain (cp_ClaimUID p)" "\<forall>r \<in> set names. plain r"
    and "generate_requests os p names w = (x, w')" and "\<not> under (claim_metadata_dir (cp_PluginDataDir p) (cp_ClaimUID p)) q"
  shows "F w' q = F w q"
  using assms(3,4)
proof (induction names arbitrary: w x w')
  case (Cons r names)
  obtain y w1 where g: "generate_request os p r (request_devices p r) w = (y, w1)" by (metis prod.exhaust)
  have "q \<noteq> metadata_host_path p r" using metadata_under [OF assms(1,2), of r] Cons.prems(1) assms(5) by auto
  then have F1: "F w1 q = F w q" using generate_request_F [OF assms(1,2) _ g] Cons.prems(1) by simp
  show ?case
  proof (cases y)
    case (Inl e)
    then show ?thesis using Cons.prems(2) g F1 by (simp add: request_devices_def)
  next
    case (Inr m)
    obtain z w2 where gs: "generate_requests os p names w1 = (z, w2)" by (metis prod.exhaust)
    have "F w2 q = F w1 q" using Cons.IH [OF _ gs] Cons.prems(1) by simp
    moreover have "w' = w2" using Cons.prems(2) g gs Inr by (cases z) (auto simp: request_devices_def)
    ultimately show ?thesis using F1 by simp
  qed
qed simp

lemma GenerateClaimSpec_F:
  assumes "data_dir root" "plain u" "GenerateClaimSpec os root u ms w = (x, w')" "q \<noteq> cdi_file_path root u"
  shows "F w' q = F w q"
  using assms(3,4) file_mkdir [OF outside_sys_data_dir [OF assms(1)]] file_write_other [OF spec_outside_sys [OF assms(1,2)]]
  by (auto simp: GenerateClaimSpec_def Let_def split: sum.splits prod.splits option.splits)

end

context node_env
begin

text \<open>\<open>Prepare\<close> writes no file but the claim's own, whatever it answers.\<close>

lemma Prepare_F_frame:
  assumes "state_dirs s" "claim_names_ok claim" "allocated_set s (claim_results claim) \<subseteq> Q"
    and "Prepare env ctx s claim w = (x, w')" "\<not> claim_file s (claim_UID claim) q"
  shows "F w' q = F w q"
proof (cases "\<exists>a cfg. prepare_checks env s claim = Inr (a, False, cfg) \<and> lockCtx ctx = None
    \<and> ValidateControlDomainMode (cc_ControlDomainMode cfg) = None")
  case False
  then have "w' = w"
    using assms(4) by (cases "lockCtx ctx"; cases "prepare_checks env s claim") (auto simp: Prepare_def split: if_splits option.splits)
  then show ?thesis by simp
next
  case True
  then obtain a cfg where c: "prepare_checks env s claim = Inr (a, False, cfg)" "lockCtx ctx = None"
    "ValidateControlDomainMode (cc_ControlDomainMode cfg) = None" by blast
  have a: "claim_results claim = alloc_Results a" using prepare_checks_Inr(1) [OF c(1)] by (simp add: claim_results_def)
  let ?u = "claim_UID claim" and ?p = "claim_params s claim (claim_results claim)"
  have d: "data_dir (cdiRoot s)" "data_dir (pluginDataDir s)" "plain ?u"
    using assms(1,2) by (auto simp: state_dirs_def claim_names_ok_def claim_uid_def)
  have q: "q \<noteq> cdi_file_path (cdiRoot s) ?u" "\<not> under (claim_metadata_dir (pluginDataDir s) ?u) q"
    using assms(5) by (auto simp: claim_file_def)
  obtain r1 w1 where s1: "ensureMdevForClaim env ctx s (claim_results claim) ?u (cc_ControlDomainMode cfg) w = (r1, w1)"
    by (metis prod.exhaust)
  have F1: "F w1 = F w" using ensureMdevForClaim_F [OF d(3) assms(3), of ctx "cc_ControlDomainMode cfg" w] s1 by simp
  obtain y w2 where s2: "GenerateClaimMetadata (e_os env) (e_order env ''requests'') ?p w1 = (y, w2)" by (metis prod.exhaust)
  have names: "\<forall>r \<in> set (e_order env ''requests'' (map fst (cp_RequestDevices ?p))). plain r"
    using assms(2) group_results_keys [of "driverName s" "claim_results claim" "[]"] unfolding e_order_set claim_params_sel
    by (fastforce simp: claim_names_ok_def list_all_iff)
  have F2: "F w2 q = F w1 q"
    using generate_requests_F [of ?p "e_order env ''requests'' (map fst (cp_RequestDevices ?p))" w1 y w2 q] names s2 d q(2)
    by (simp add: GenerateClaimMetadata_def claim_params_sel)
  obtain z w3 where s3: "GenerateClaimSpec (e_os env) (cdiRoot s) ?u (cdi_mounts (projr y)) w2 = (z, w3)" by (metis prod.exhaust)
  have F3: "F w3 q = F w2 q" using GenerateClaimSpec_F [OF d(1,3) s3 q(1)] .
  have "w' = w1 \<or> w' = w2 \<or> w' = w3"
    using assms(4) c s1 s2 s3 by (cases r1; cases y; cases z) (auto simp: Prepare_def a)
  then show ?thesis using F1 F2 F3 by auto
qed

end

end
