(* ===== verification/Claim_Props.thy ===== *)
theory Claim_Props
  imports Node_Sim Claim_Files
begin

text \<open>
  The lifecycle of a claim on a node: what \<open>Prepare\<close> and \<open>Unprepare\<close> do to the kernel
  and to the files, for every node with the laws, each with a run on the executable one.
\<close>

section \<open>A concrete claim\<close>

text \<open>Two queues of one domain, on two adapters, given to a virtual machine.\<close>

definition dev_sample :: "APQN \<Rightarrow> Device" where
  "dev_sample q = \<lparr>dev_Name = ''cex-'' @ APID q @ ''-'' @ APQI q,
     dev_Attributes = [(''cex.ibm.com/apid'', \<lparr>StringValue = Some (APID q), IntValue = None\<rparr>),
                       (''cex.ibm.com/apqi'', \<lparr>StringValue = Some (APQI q), IntValue = None\<rparr>)]\<rparr>"

definition st_sample :: DeviceState where
  "st_sample = (New_state ''node'' ''cex.ibm.com'' ''/var/run/cdi'' ''/var/lib/plugin'')
     \<lparr>allocatable := map (\<lambda>q. (dev_Name (dev_sample q), dev_sample q)) sim_apqns\<rparr>"

definition res_sample :: "APQN \<Rightarrow> DeviceRequestAllocationResult" where
  "res_sample q = \<lparr>res_Request = ''req'', res_Driver = ''cex.ibm.com'', res_Pool = ''node-card'' @ APID q,
     res_Device = dev_Name (dev_sample q)\<rparr>"

definition claim_sample :: "string \<Rightarrow> APQN list \<Rightarrow> ResourceClaim" where
  "claim_sample u qs = \<lparr>claim_Name = ''c'', claim_Namespace = ''ns'', claim_UID = u, claim_Annotations = [],
     claim_Requests = [\<lparr>req_Name = ''req'', req_Exactly = Some DeviceClassVM\<rparr>],
     claim_Allocation = Some \<lparr>alloc_Results = map res_sample qs, alloc_Config = []\<rparr>\<rparr>"

definition env_of :: "'w os \<Rightarrow> 'w env" where
  "env_of os = \<lparr>e_os = os, e_gate = (\<lambda>_. True), e_sha256 = (\<lambda>s. ''h'' @ s), e_order = (\<lambda>_ xs. xs), e_qorder = rev\<rparr>"

definition ctx_live :: ctx where
  "ctx_live = \<lparr>ctx_Err = (\<lambda>_. None), ctx_ends_waiting = None\<rparr>"

lemma env_of_ok [simp]: "env_ok (env_of os)" "e_os (env_of os) = os"
  by (simp_all add: env_ok_def env_of_def perm_oracle_def)

lemma sim_env: "node_env (env_of sim_os) sim_K (set sim_apqns) sim_F"
  using sim_files.node_axioms by (simp add: node_env_def node_env_axioms_def)

interpretation sim_claims: node_env "env_of sim_os" sim_K "set sim_apqns" sim_F
  by (rule sim_env)

lemma calm_env: "node_env (env_of calm_os) sim_K (set sim_apqns) sim_F"
  using calm_full_node by (simp add: node_env_def node_env_axioms_def)

lemma sample_ok: "state_dirs st_sample" "claim_names_ok (claim_sample ''u-1'' [qA, qC])" "claim_uid ''u-1''"
  by code_simp+

lemma sample_queues: "allocated_set st_sample (claim_results (claim_sample ''u-1'' [qA, qC])) = {qA, qC}"
proof -
  have "own_results st_sample (claim_results (claim_sample ''u-1'' [qA, qC])) = [res_sample qA, res_sample qC]"
    "result_apqn st_sample (res_sample qA) = Some qA" "result_apqn st_sample (res_sample qC) = Some qC"
    by code_simp+
  then show ?thesis by (auto simp: allocated_set_def)
qed

abbreviation (input) claim_AC :: ResourceClaim where "claim_AC \<equiv> claim_sample ''u-1'' [qA, qC]"

section \<open>Prepare\<close>

text \<open>
  C9. \<open>Prepare\<close> stays within its claim: whatever happens, success, any error, a failed
  rollback or an ended context, it changes no mediated device but the one named after the
  claim, no queue that the claim was not given, and no file but the claim's own: its CDI spec
  and what is below its metadata directory.
\<close>

theorem Prepare_frame:
  assumes "node_env env K Q F" and "state_dirs s" and "claim_names_ok claim"
    and "allocated_set s (claim_results claim) \<subseteq> Q"
    and "Prepare env ctx s claim w = (r, w')"
  shows "differ_claim (claim_UID claim) (allocated_set s (claim_results claim)) (K w) (K w')
     \<and> (\<forall>p. \<not> claim_file s (claim_UID claim) p \<longrightarrow> F w' p = F w p)"
  using node_env.Prepare_K_frame [OF assms] node_env.Prepare_F_frame [OF assms] by blast

definition w_denied :: sim where
  "w_denied = w_fresh\<lparr>s_mdevs := [(''other'', [''01''], [''0003''], [])],
     s_fail := [Join [VFIOAPMatrixPath, ''u-1'', ''assign_domain'']]\<rparr>"

theorem Prepare_frame_witness:
  "isl (fst (Prepare (env_of sim_os) ctx_live st_sample claim_AC w_denied))
   \<and> differ_claim ''u-1'' {qA, qC} (sim_K w_denied) (sim_K (snd (Prepare (env_of sim_os) ctx_live st_sample claim_AC w_denied)))
   \<and> sim_F (snd (Prepare (env_of sim_os) ctx_live st_sample claim_AC w_denied)) ''/var/run/cdi/x'' = sim_F w_denied ''/var/run/cdi/x''"
proof -
  let ?x = "Prepare (env_of sim_os) ctx_live st_sample claim_AC w_denied"
  have "isl (fst ?x)" by code_simp
  moreover have "claim_UID claim_AC = ''u-1''" "\<not> claim_file st_sample ''u-1'' ''/var/run/cdi/x''" by code_simp+
  ultimately show ?thesis
    using Prepare_frame [OF sim_env sample_ok(1,2), of ctx_live w_denied "fst ?x" "snd ?x"] sample_queues sim_queue_members
    by simp
qed

text \<open>
  C4. A successful \<open>Prepare\<close> of a virtual machine claim hands out exactly the allocation:
  the claim's mediated device exists and its matrix is the set of allocated queues, neither
  more nor less; the answer lists this driver's results in order, each with the claim's CDI
  device. If a device with exactly these queues was there before, the kernel is as it was.
  Otherwise, whether there was none or a wrong one, every queue of the claim is now bound to
  vfio-ap and the control domains are those the mode asks for.
\<close>

theorem Prepare_exact_allocation:
  assumes "node_env env K Q F" and "state_dirs s" and "claim_names_ok claim"
    and "allocated_set s (claim_results claim) \<subseteq> Q"
    and "prepare_checks env s claim = Inr (a, False, cfg)"
    and "Prepare env ctx s claim w = (Inr devs, w')"
  defines "S \<equiv> allocated_set s (alloc_Results a)"
  shows "(\<exists>m. k_mdev (K w') (claim_UID claim) = Some m \<and> matrix_of m = S
     \<and> (if \<exists>m0. k_mdev (K w) (claim_UID claim) = Some m0 \<and> matrix_rows m0 = S then K w' = K w
        else (\<forall>q \<in> S. on_vfio (K w') q)
          \<and> md_control m = (if cc_ControlDomainMode cfg = ControlDomainModeUsageOnly then {} else APQI ` S)))
     \<and> devs = map (\<lambda>r. \<lparr>pd_RequestNames = [res_Request r], pd_PoolName = res_Pool r, pd_DeviceName = res_Device r,
            pd_CdiDeviceIds = [cdiKind @ ''='' @ claim_UID claim]\<rparr>) (own_results s (alloc_Results a))"
proof -
  have a: "claim_Allocation claim = Some a" "claim_results claim = alloc_Results a"
    using prepare_checks_Inr(1) [OF assms(5)] by (simp_all add: claim_results_def)
  have devs: "devices_from_results s ids rs = Inr ds \<Longrightarrow> ds = map (\<lambda>r. \<lparr>pd_RequestNames = [res_Request r],
      pd_PoolName = res_Pool r, pd_DeviceName = res_Device r, pd_CdiDeviceIds = ids\<rparr>) (own_results s rs)" for ids rs ds
    by (induction rs arbitrary: ds) (auto simp: own_results_def split: if_splits sum.splits)
  have "devicesFromClaim s claim [cdiKind @ ''='' @ claim_UID claim] = Inr devs"
    using assms(5,6)
    by (auto simp: Prepare_def GenerateClaimSpec_def Let_def split: option.splits prod.splits sum.splits)
  moreover obtain m where "k_mdev (K w') (claim_UID claim) = Some m" "matrix_of m = S"
    using node_env.Prepare_K_device [OF assms(1-6), unfolded a(2), folded S_def] by blast
  ultimately show ?thesis
    using node_env.Prepare_kept_or_built [OF assms(1-6), unfolded a(2), folded S_def] devs a(1)
    by (auto simp: devicesFromClaim_def split: if_splits)
qed

lemma prepared_AC:
  obtains devs where "Prepare (env_of sim_os) ctx_live st_sample claim_AC w_fresh = (Inr devs, snd (Prepare (env_of sim_os) ctx_live st_sample claim_AC w_fresh))"
proof -
  have "\<not> isl (fst (Prepare (env_of sim_os) ctx_live st_sample claim_AC w_fresh))" by code_simp
  then show ?thesis using that by (cases "fst (Prepare (env_of sim_os) ctx_live st_sample claim_AC w_fresh)") (auto simp: prod_eq_iff)
qed

lemma checks_AC:
  obtains a cfg where "prepare_checks (env_of sim_os) st_sample claim_AC = Inr (a, False, cfg)"
    "alloc_Results a = claim_results claim_AC"
proof -
  have "case prepare_checks (env_of sim_os) st_sample claim_AC of Inl e \<Rightarrow> False
      | Inr (a, hc, cfg) \<Rightarrow> \<not> hc \<and> alloc_Results a = claim_results claim_AC" by code_simp
  then show ?thesis using that by (auto split: sum.splits prod.splits)
qed

theorem Prepare_exact_allocation_witness:
  "(\<exists>m. k_mdev (sim_K (snd (Prepare (env_of sim_os) ctx_live st_sample claim_AC w_fresh))) ''u-1'' = Some m \<and> matrix_of m = {qA, qC})
   \<and> on_vfio (sim_K (snd (Prepare (env_of sim_os) ctx_live st_sample claim_AC w_fresh))) qA"
proof -
  obtain devs where p: "Prepare (env_of sim_os) ctx_live st_sample claim_AC w_fresh = (Inr devs, snd (Prepare (env_of sim_os) ctx_live st_sample claim_AC w_fresh))"
    by (rule prepared_AC)
  obtain a cfg where c: "prepare_checks (env_of sim_os) st_sample claim_AC = Inr (a, False, cfg)" "alloc_Results a = claim_results claim_AC"
    by (rule checks_AC)
  have "claim_UID claim_AC = ''u-1''" by code_simp
  moreover have "k_mdev (sim_K w_fresh) ''u-1'' = None" by (simp add: sim_K_def w_fresh_def)
  ultimately show ?thesis
    using Prepare_exact_allocation [OF sim_env sample_ok(1,2) _ c(1) p] sample_queues sim_queue_members c(2) by auto
qed

text \<open>
  C10. Preparing a claim again after a success, as a kubelet retry or a restarted driver does,
  leaves the kernel as it is, whether the second call succeeds or fails and whatever its
  context does: a device a guest may be using is never torn down.
\<close>

theorem Prepare_again_keeps_kernel:
  assumes "node_env env K Q F" and "state_dirs s" and "claim_names_ok claim"
    and "allocated_set s (claim_results claim) \<subseteq> Q" and "allocated_set s (claim_results claim) \<noteq> {}"
    and "Prepare env ctx s claim w = (Inr devs, w1)" and "Prepare env ctx' s claim w1 = (r, w2)"
  shows "K w2 = K w1"
proof -
  have u: "claim_uid (claim_UID claim)" using assms(3) by (simp add: claim_names_ok_def)
  show ?thesis
  proof (cases rule: node_env.Prepare_cases [OF assms(1-3,6), case_names unchanged failed ensured])
    case unchanged
    then obtain a cfg where "prepare_checks env s claim = Inr (a, True, cfg)" by blast
    then have "w2 = w1" using assms(7) by (auto simp: Prepare_def split: option.splits)
    then show ?thesis by simp
  next
    case failed
    then show ?thesis by simp
  next
    case (ensured a cfg v)
    obtain m where m: "k_mdev (K w1) (claim_UID claim) = Some m" "matrix_of m = allocated_set s (claim_results claim)"
      using node_env.ensureMdevForClaim_ok(1) [OF assms(1) u assms(4) ensured(2)] ensured(3) by auto
    note keep = node_env.ensureMdevForClaim_complete [OF assms(1) u m assms(5)]
    show ?thesis
      by (cases rule: node_env.Prepare_cases [OF assms(1-3,7), case_names unchanged failed ensured])
         (use keep in auto)
  qed
qed

theorem Prepare_again_keeps_kernel_witness:
  "sim_K (snd (Prepare (env_of sim_os) ctx_live st_sample claim_AC (snd (Prepare (env_of sim_os) ctx_live st_sample claim_AC w_fresh))))
   = sim_K (snd (Prepare (env_of sim_os) ctx_live st_sample claim_AC w_fresh))"
proof -
  let ?w1 = "snd (Prepare (env_of sim_os) ctx_live st_sample claim_AC w_fresh)"
  let ?x = "Prepare (env_of sim_os) ctx_live st_sample claim_AC ?w1"
  obtain devs where p: "Prepare (env_of sim_os) ctx_live st_sample claim_AC w_fresh = (Inr devs, ?w1)"
    by (rule prepared_AC)
  show ?thesis
    using Prepare_again_keeps_kernel [OF sim_env sample_ok(1,2) _ _ p, of ctx_live "fst ?x" "snd ?x"]
      sample_queues sim_queue_members by simp
qed

text \<open>
  C8. When switching the claim's queues to vfio-ap is cut short, by a kernel error on any
  queue or by the end of the kubelet's context, everything is rolled back: provided the
  kernel takes the queues back, the kernel state is exactly what it was before.
\<close>

theorem switchQueuesToVFIOAP_rollback:
  assumes "node_env env K Q F" and "set allocated \<subseteq> Q" and "distinct allocated"
    and "\<And>q v. q \<in> set allocated \<Longrightarrow> fst (SwitchToZcrypt (e_os env) (APID q) (APQI q) v) = None"
    and "\<forall>q \<in> set allocated. on_zcrypt (K w) q"
    and "switchQueuesToVFIOAP env ctx allocated w = (Some err, w')"
  shows "K w' = K w"
proof -
  note bus = ap_node.axioms(1) [OF node.axioms(1) [OF node_env.axioms(1) [OF assms(1)]]]
  have o: "set (e_qorder env allocated) = set allocated" "distinct (e_qorder env allocated)"
    using node_env.e_qorder_set [OF assms(1)] assms(3) by auto
  have z: "\<forall>q \<in> set allocated. on_zcrypt (K w') q"
    using ap_bus.switch_loop_failed [OF bus, of "[]" "e_qorder env allocated" ctx 1 w err w'] assms o
    by (simp add: switchQueuesToVFIOAP_def)
  have "differ_at (set allocated) (K w) (K w')" by (rule node_env.switchQueues_frame [OF assms(1,2,6)])
  then show ?thesis using z assms(5) by (rule differ_at_zcrypt)
qed

definition ctx_short :: ctx where
  "ctx_short = \<lparr>ctx_Err = (\<lambda>n. if n < 2 then None else Some DeadlineExceeded), ctx_ends_waiting = None\<rparr>"

lemma fresh_zcrypt: "\<forall>q \<in> {qA, qC}. on_zcrypt (sim_K w_fresh) q"
  unfolding ball_simps sim_shapes by code_simp

lemma calm_back: "q \<in> {qA, qC} \<Longrightarrow> fst (SwitchToZcrypt calm_os (APID q) (APQI q) v) = None"
proof -
  assume "q \<in> {qA, qC}"
  then have "q \<in> set sim_apqns" using sim_queue_members by auto
  then show ?thesis using calm_drainable unfolding drainable_def by blast
qed

theorem switchQueuesToVFIOAP_rollback_witness:
  "fst (switchQueuesToVFIOAP (env_of calm_os) ctx_short [qA, qC] w_fresh) \<noteq> None
   \<and> sim_K (snd (switchQueuesToVFIOAP (env_of calm_os) ctx_short [qA, qC] w_fresh)) = sim_K w_fresh"
proof -
  let ?x = "switchQueuesToVFIOAP (env_of calm_os) ctx_short [qA, qC] w_fresh"
  have "fst ?x \<noteq> None" by code_simp
  then obtain e where e: "?x = (Some e, snd ?x)" by (cases "fst ?x") (auto simp: prod_eq_iff)
  have "distinct [qA, qC]" by simp
  moreover note calm_back
  ultimately have "sim_K (snd ?x) = sim_K w_fresh"
    using switchQueuesToVFIOAP_rollback [OF calm_env _ _ _ _ e] fresh_zcrypt sim_queue_members by simp
  with \<open>fst ?x \<noteq> None\<close> show ?thesis by simp
qed

section \<open>Unprepare\<close>




lemma mdev_AC:
  assumes "map_of (s_mdevs w) ''u-1'' = Some ([''02'', ''01''], [''0002''], [''0002''])"
  obtains m where "k_mdev (sim_K w) ''u-1'' = Some m" "matrix_rows m = {qA, qC}"
proof -
  let ?m = "\<lparr>md_adapters = {''02'', ''01''}, md_domains = {''0002''}, md_control = {''0002''}\<rparr>"
  have "k_mdev (sim_K w) ''u-1'' = Some ?m" using assms sample_ok(3) by (simp add: sim_K_def)
  moreover have "matrix_rows ?m = {qA, qC}" by (auto simp: matrix_rows_def matrix_of_def)
  ultimately show ?thesis by (rule that)
qed


text \<open>
  C5. The lifecycle closes: prepare a claim on queues that are with zcrypt, use it, and
  unprepare it, and the kernel is exactly as before: every queue back on zcrypt without an
  override, every device as it was. The kernel is to let the device's matrix be read and
  take the queues back; the claim is to have at least one queue.
\<close>

theorem Prepare_Unprepare_restores_kernel:
  assumes "node_env env K Q F" and "state_dirs s" and "claim_names_ok claim"
    and "allocated_set s (claim_results claim) \<subseteq> Q" and "allocated_set s (claim_results claim) \<noteq> {}"
    and "prepare_checks env s claim = Inr (a, False, cfg)"
    and "k_mdev (K w) (claim_UID claim) = None" and "\<forall>q \<in> allocated_set s (claim_results claim). on_zcrypt (K w) q"
    and "Prepare env ctx s claim w = (Inr devs, w1)" and "Unprepare env ctx' s (claim_UID claim) w1 = (None, w2)"
    and "\<And>v. K v = K w1 \<Longrightarrow> \<exists>qs. ReadMatrix (e_os env) (claim_UID claim) v = Inr qs"
    and "\<And>q v. q \<in> allocated_set s (claim_results claim) \<Longrightarrow> fst (SwitchToZcrypt (e_os env) (APID q) (APQI q) v) = None"
  shows "K w2 = K w"
proof -
  let ?u = "claim_UID claim" and ?S = "allocated_set s (claim_results claim)"
  note an = node.axioms(1) [OF node_env.axioms(1) [OF assms(1)]]
  note bus = ap_node.axioms(1) [OF an]
  have u: "claim_uid ?u" using assms(3) by (simp add: claim_names_ok_def)
  note fr1 = node_env.Prepare_K_frame [OF assms(1-4,9)]
  obtain m where m: "k_mdev (K w1) ?u = Some m" "matrix_of m = ?S"
    using node_env.Prepare_K_device [OF assms(1-4,6,9)] by blast
  have rows: "matrix_rows m = ?S" using m(2) assms(5) by (auto simp: matrix_rows_def matrix_of_def)
  obtain v1 v2 v3 qs where v: "K v2 = K w1"
    and qs: "qs = (if Exists (e_os env) ?u v2 then (case ReadMatrix (e_os env) ?u v2 of Inl e \<Rightarrow> [] | Inr qs \<Rightarrow> qs) else [])"
    and K3: "K v3 = set_mdev ?u None (K w1)"
    and w2: "w2 = (if qs \<noteq> [] then rollback (e_os env) qs v3
        else if Exists (e_os env) ?u w1 \<or> ClaimMetadataExists (e_os env) (pluginDataDir s) ?u w1
        then snd (DrainOrphanedVFIOAP (e_os env) v3) else v3)"
    by (rule node_env.Unprepare_cases [OF assms(1,2) u assms(10)]) (rule that)
  obtain xs where xs: "ReadMatrix (e_os env) ?u v2 = Inr xs" using assms(11) [OF v] by blast
  have "Exists (e_os env) ?u v2" using ap_node.Exists_iff [OF an u] m(1) v by simp
  then have "qs = xs" using qs xs by simp
  then have set_qs: "distinct qs" "set qs = ?S" using ap_node.ReadMatrix_rows [OF an _ xs] m(1) v rows by auto
  then have r: "w2 = rollback (e_os env) qs v3" using w2 assms(5) by auto
  have returned: "on_zcrypt (K w2) q" if "q \<in> ?S" for q
    unfolding r using that set_qs assms(4,12) by (intro ap_bus.rollback_zcrypt [OF bus]) auto
  have "differ_at ?S (K v3) (K w2)" using ap_bus.rollback_frame [OF bus, of qs v3] set_qs assms(4) r by simp
  then have "differ_claim ?u ?S (K w1) (K w2)" "k_mdev (K w2) ?u = None"
    using K3 differ_claim_set_mdev [of ?u ?S "K w1"] differ_at_claim differ_claim_trans
    by (metis order_refl, simp add: differ_at_def kstate_simps)
  then have "differ_at ?S (K w) (K w2)"
    using differ_claim_mdev [OF _ differ_claim_trans [OF fr1]] assms(7) by simp
  then show ?thesis using returned assms(8) by (intro differ_at_zcrypt) auto
qed

lemma calm_readable:
  assumes "k_mdev (sim_K v) u = Some m" "\<forall>q \<in> matrix_rows m. hex_apqn q"
  shows "\<exists>qs. ReadMatrix calm_os u v = Inr qs"
proof -
  obtain as ds cs where m: "claim_uid u" "map_of (s_mdevs v) u = Some (as, ds, cs)"
    "m = \<lparr>md_adapters = set as, md_domains = set ds, md_control = set cs\<rparr>"
    using claim_uid_cases [OF assms(1)] by auto
  then have h: "list_all hex_apqn (rows_of (as, ds, cs))" using assms(2) rows_of_set by (simp add: list_all_iff)
  then have "os_ReadFile calm_os (Join [VFIOAPMatrixPath, u, ''matrix'']) v = Inr (matrix_text (rows_of (as, ds, cs)))"
    using m by (simp add: calm_os_def sim_read_def target_simps claim_uid_plain plain_consts)
  then show ?thesis using h by (simp add: ReadMatrix_def matrix_lines_text list_all_iff)
qed

theorem Prepare_Unprepare_restores_kernel_witness:
  "sim_K (snd (Unprepare (env_of calm_os) ctx_live st_sample ''u-1'' (snd (Prepare (env_of calm_os) ctx_live st_sample claim_AC w_fresh))))
   = sim_K w_fresh"
proof -
  let ?p = "Prepare (env_of calm_os) ctx_live st_sample claim_AC w_fresh"
  let ?x = "Unprepare (env_of calm_os) ctx_live st_sample ''u-1'' (snd ?p)"
  have u: "claim_UID claim_AC = ''u-1''" by code_simp
  have "\<not> isl (fst ?p)" by code_simp
  then obtain devs where p: "?p = (Inr devs, snd ?p)" by (cases "fst ?p") (auto simp: prod_eq_iff)
  have x: "Unprepare (env_of calm_os) ctx_live st_sample (claim_UID claim_AC) (snd ?p) = (None, snd ?x)"
    unfolding u prod_eq_iff fst_conv snd_conv by (intro conjI refl) code_simp
  have "case prepare_checks (env_of calm_os) st_sample claim_AC of Inl e \<Rightarrow> False | Inr (a, hc, cfg) \<Rightarrow> \<not> hc" by code_simp
  then obtain a cfg where c: "prepare_checks (env_of calm_os) st_sample claim_AC = Inr (a, False, cfg)"
    by (auto split: sum.splits prod.splits)
  have none: "k_mdev (sim_K w_fresh) (claim_UID claim_AC) = None" by (simp add: sim_K_def w_fresh_def)
  have "map_of (s_mdevs (snd ?p)) ''u-1'' = Some ([''02'', ''01''], [''0002''], [''0002''])" by code_simp
  then obtain m where m: "k_mdev (sim_K (snd ?p)) ''u-1'' = Some m" "matrix_rows m = {qA, qC}"
    by (rule mdev_AC)
  have "\<forall>q \<in> {qA, qC}. hex_apqn q" using sim_apqns_wf sim_queue_members wf_hex_apqn by blast
  then have rd: "\<exists>qs. ReadMatrix (e_os (env_of calm_os)) (claim_UID claim_AC) v = Inr qs" if "sim_K v = sim_K (snd ?p)" for v
    using calm_readable [of v "''u-1''" m] m that u by simp
  show ?thesis
    by (rule Prepare_Unprepare_restores_kernel [OF calm_env sample_ok(1,2) _ _ c none _ p x rd])
       (use sample_queues sim_queue_members fresh_zcrypt calm_back in auto)
qed

section \<open>The limits\<close>

text \<open>
  A limit of the error path: when the kernel refuses to create the mediated device,
  \<open>Prepare\<close> fails with the claim's queues already on vfio-ap and leaves them there, and the
  \<open>Unprepare\<close> that follows takes the claim for a container claim, reports success and
  leaves them there too. Only the drain at the next start of the driver frees them.
\<close>

definition w_nocreate :: sim where
  "w_nocreate = w_fresh\<lparr>s_fail := [mdevCreatePath]\<rparr>"

theorem failed_create_strands_queues:
  "isl (fst (Prepare (env_of sim_os) ctx_live st_sample claim_AC w_nocreate))
   \<and> fst (Unprepare (env_of sim_os) ctx_live st_sample ''u-1'' (snd (Prepare (env_of sim_os) ctx_live st_sample claim_AC w_nocreate))) = None
   \<and> on_vfio (sim_K (snd (Unprepare (env_of sim_os) ctx_live st_sample ''u-1'' (snd (Prepare (env_of sim_os) ctx_live st_sample claim_AC w_nocreate))))) qA
   \<and> on_zcrypt (sim_K (snd (DrainOrphanedVFIOAP sim_os
       (snd (Unprepare (env_of sim_os) ctx_live st_sample ''u-1'' (snd (Prepare (env_of sim_os) ctx_live st_sample claim_AC w_nocreate))))))) qA"
  unfolding sim_shapes by code_simp

text \<open>
  A limit of the retry: if assigning the control domains fails and the half-built device
  cannot be removed, the next \<open>Prepare\<close> finds the matrix complete, keeps the device and
  reports success, and the guest has no control domain although the claim's mode asks for
  them.
\<close>

definition w_nocontrol :: sim where
  "w_nocontrol = w_fresh\<lparr>s_fail := [Join [VFIOAPMatrixPath, ''u-1'', ''assign_control_domain''], Join [VFIOAPMatrixPath, ''u-1'', ''remove'']]\<rparr>"

theorem retry_keeps_missing_control_domains:
  "isl (fst (Prepare (env_of sim_os) ctx_live st_sample claim_AC w_nocontrol))
   \<and> \<not> isl (fst (Prepare (env_of sim_os) ctx_live st_sample claim_AC
        ((snd (Prepare (env_of sim_os) ctx_live st_sample claim_AC w_nocontrol))\<lparr>s_fail := []\<rparr>)))
   \<and> map_of (s_mdevs (snd (Prepare (env_of sim_os) ctx_live st_sample claim_AC
        ((snd (Prepare (env_of sim_os) ctx_live st_sample claim_AC w_nocontrol))\<lparr>s_fail := []\<rparr>)))) ''u-1''
      = Some ([''02'', ''01''], [''0002''], [])"
  by code_simp

end
