(* ===== verification/State_Witness.thy ===== *)
theory State_Witness
  imports Claim_Props
begin

text \<open>Concrete runs of the operations of \<open>Allocation_Props\<close>.\<close>

definition inv_sample :: "Device list gomap" where
  "inv_sample = [(''card01'', [dev_sample qA, dev_sample qB]), (''card02'', [dev_sample qC])]"

text \<open>The same inventory as another scan may deliver it.\<close>

definition inv_shuffled :: "Device list gomap" where
  "inv_shuffled = [(''card02'', [dev_sample qC]),
     (''card01'', [(dev_sample qB)\<lparr>dev_Attributes := rev (dev_Attributes (dev_sample qB))\<rparr>, dev_sample qA])]"

definition st_new :: DeviceState where
  "st_new = New_state ''node'' ''cex.ibm.com'' ''/var/run/cdi'' ''/var/lib/plugin''"

lemma inv_wf: "wf_inventory inv_sample" "wf_inventory inv_shuffled"
  by code_simp+

lemma inv_same: "same_inventory inv_sample inv_shuffled"
  unfolding same_inventory_def
proof
  show "mset (map fst inv_sample) = mset (map fst inv_shuffled)"
    by (simp add: inv_sample_def inv_shuffled_def)
  have "card_devices inv_shuffled ''card01'' = [(dev_sample qB)\<lparr>dev_Attributes := rev (dev_Attributes (dev_sample qB))\<rparr>, dev_sample qA]"
    "card_devices inv_sample ''card01'' = [dev_sample qA, dev_sample qB]"
    "card_devices inv_shuffled ''card02'' = card_devices inv_sample ''card02''"
    by code_simp+
  moreover have "canon ((dev_sample qB)\<lparr>dev_Attributes := rev (dev_Attributes (dev_sample qB))\<rparr>) = canon (dev_sample qB)"
    by code_simp
  ultimately show "\<forall>c\<in>set (map fst inv_sample). mset (map canon (card_devices inv_sample c)) = mset (map canon (card_devices inv_shuffled c))"
    by (simp add: inv_sample_def)
qed

text \<open>An adapter index that changes under an otherwise unchanged inventory.\<close>

abbreviation (input) apid_2 :: DeviceAttribute where
  "apid_2 \<equiv> \<lparr>StringValue = Some ''02'', IntValue = None\<rparr>"

theorem CompareAndUpdate_state_witness:
  "map_of (allocatable (snd (CompareAndUpdate (env_of sim_os) inv_sample st_new))) ''cex-02-0002'' = Some (dev_sample qC)
   \<and> updateCount (snd (CompareAndUpdate (env_of sim_os) inv_sample st_new)) = 1
   \<and> fst (CompareAndUpdate (env_of sim_os) (with_attr ''cex-01-0002'' ''cex.ibm.com/apid'' apid_2 inv_sample)
        (snd (CompareAndUpdate (env_of sim_os) inv_sample st_new)))"
proof -
  let ?x = "CompareAndUpdate (env_of sim_os) inv_sample st_new"
  let ?k = "''cex.ibm.com/apid''" and ?a = "\<lparr>StringValue = Some ''01'', IntValue = None\<rparr>"
  let ?m = "with_attr ''cex-01-0002'' ?k apid_2 inv_sample"
  have "fst ?x" by code_simp
  then obtain s where x: "?x = (True, s)" by (metis prod.collapse)
  have s: "previousHash s = computeDevicesHash (env_of sim_os) inv_sample \<and> updateCount s = wrap64 (updateCount st_new + 1)"
    "map_of (allocatable s) n = Some d \<longleftrightarrow> d \<in> set (inventory_devices inv_sample) \<and> dev_Name d = n" for n d
    using CompareAndUpdate_state [OF env_of_ok(1) inv_wf(1), of sim_os st_new] unfolding x prod.case bool.case by blast+
  have c: "dev_sample qC \<in> set (inventory_devices inv_sample)" "dev_Name (dev_sample qC) = ''cex-02-0002''"
    "wrap64 (updateCount st_new + 1) = 1" by code_simp+
  have a: "dev_sample qA \<in> set (inventory_devices inv_sample)" "dev_Name (dev_sample qA) = ''cex-01-0002''"
    "map_of (dev_Attributes (dev_sample qA)) ?k = Some ?a" by code_simp+
  have "other_value ?a apid_2" by (simp add: other_value_def)
  then have "changed_inventory inv_sample ?m" unfolding changed_inventory_def using a by metis
  moreover have "wf_inventory ?m" by code_simp
  moreover have "inj_on (e_sha256 (env_of sim_os)) X" for X by (simp add: env_of_def inj_on_def)
  ultimately have "fst (CompareAndUpdate (env_of sim_os) ?m s)"
    using CompareAndUpdate_state [OF env_of_ok(1), of ?m sim_os s] inv_wf(1) s(1) by blast
  then show ?thesis using s c unfolding x by simp
qed

theorem CompareAndUpdate_order_independent_witness:
  "fst (CompareAndUpdate (env_of sim_os) inv_sample st_new)
   \<and> \<not> fst (CompareAndUpdate (env_of sim_os) inv_shuffled (snd (CompareAndUpdate (env_of sim_os) inv_sample st_new)))"
proof -
  let ?x = "CompareAndUpdate (env_of sim_os) inv_sample st_new"
  have "fst ?x" by code_simp
  then show ?thesis
    using CompareAndUpdate_order_independent [OF inv_wf inv_same prod.collapse [symmetric], of "env_of sim_os" st_new] by simp
qed

theorem Prepare_effects_need_vm_claim_witness:
  "snd (Prepare (env_of sim_os) ctx_live st_sample claim_AC w_fresh) \<noteq> w_fresh
   \<and> rectangle (allocated_set st_sample (claim_results claim_AC))"
proof -
  let ?w = "snd (Prepare (env_of sim_os) ctx_live st_sample claim_AC w_fresh)"
  have "s_mdevs ?w \<noteq> s_mdevs w_fresh" by code_simp
  then have "?w \<noteq> w_fresh" by auto
  then show ?thesis
    using Prepare_effects_need_vm_claim [of "env_of sim_os" ctx_live st_sample claim_AC w_fresh]
    by (auto simp: claim_results_def)
qed

text \<open>A claim without a result of this driver, with every gate closed, is given an empty device.\<close>

lemma Prepare_without_results_ungated:
  "map_of (s_mdevs (snd (Prepare ((env_of sim_os)\<lparr>e_gate := (\<lambda>_. False)\<rparr>) ctx_live st_sample (claim_sample ''u-1'' []) w_fresh))) ''u-1''
   = Some ([], [], [])"
  by code_simp

end
