(* ===== verification/Health.thy ===== *)
theory Health
  imports Go_Prelude
begin

text \<open>
  \<open>internal/health/health.go\<close>: the heartbeat of the scan loop, the watchdog that logs its
  staleness, and the verdict of the liveness service. A \<open>time.Duration\<close> is a 64-bit count
  of nanoseconds, a moment of the monotonic clock an integer; clock readings are arguments.
  Listening and the gRPC server are library code: \<open>listen\<close> is what \<open>net.Listen\<close> answers.
\<close>

section \<open>Durations\<close>

text \<open>Integer division truncates towards zero; \<open>time.Since\<close> saturates.\<close>

definition quot64 :: "int \<Rightarrow> int \<Rightarrow> int" where
  "quot64 x d = (if x < 0 then - ((- x) div d) else x div d)"

definition sat64 :: "int \<Rightarrow> int" where
  "sat64 x = max (- (2 ^ 63)) (min (2 ^ 63 - 1) x)"

definition second :: int where "second = 1000000000"

definition Truncate :: "int \<Rightarrow> int \<Rightarrow> int" where
  "Truncate x d = d * quot64 x d"

definition staleMultiple :: int where "staleMultiple = 10"
definition watchdogChecksPerThreshold :: int where "watchdogChecksPerThreshold = 4"

definition StaleAfter :: "int \<Rightarrow> int" where
  "StaleAfter scanInterval = wrap64 (staleMultiple * scanInterval)"

section \<open>The heartbeat\<close>

text \<open>\<open>None\<close> is the nil pointer, otherwise the time of the last stamp.\<close>

type_synonym Heartbeat = "int option"

definition NewHeartbeat :: "int \<Rightarrow> Heartbeat" where
  "NewHeartbeat now = Some now"

definition Stamp :: "int \<Rightarrow> Heartbeat \<Rightarrow> Heartbeat" where
  "Stamp now h = (case h of None \<Rightarrow> None | Some t \<Rightarrow> Some now)"

definition Age :: "int \<Rightarrow> Heartbeat \<Rightarrow> int" where
  "Age now h = (case h of None \<Rightarrow> 0 | Some t \<Rightarrow> sat64 (now - t))"

section \<open>The watchdog\<close>

text \<open>Its two log lines.\<close>

datatype watch_line = WentStale int int | Recovered

fun watch_ticks :: "int \<Rightarrow> bool \<Rightarrow> int list \<Rightarrow> watch_line list" where
  "watch_ticks staleAfter stale [] = []"
| "watch_ticks staleAfter stale (age # ages) =
     (if \<not> stale \<and> age > staleAfter then WentStale (Truncate age second) staleAfter # watch_ticks staleAfter True ages
      else if stale \<and> age \<le> staleAfter then Recovered # watch_ticks staleAfter False ages
      else watch_ticks staleAfter stale ages)"

text \<open>
  \<open>samples\<close> are the clock and the heartbeat at each tick until the context ends.
  \<open>time.NewTicker\<close> panics on an interval that is not positive: \<open>None\<close>.
\<close>

definition NewTicker :: "int \<Rightarrow> int option" where
  "NewTicker d = (if d \<le> 0 then None else Some d)"

definition Watch :: "int \<Rightarrow> (int \<times> Heartbeat) list \<Rightarrow> watch_line list option" where
  "Watch staleAfter samples =
     (case NewTicker (quot64 staleAfter watchdogChecksPerThreshold) of
        None \<Rightarrow> None
      | Some ticker \<Rightarrow> Some (watch_ticks staleAfter False (map (\<lambda>(now, hb). Age now hb) samples)))"

section \<open>The liveness service\<close>

record Server =
  srv_staleAfter :: int
  srv_addr :: string

definition listenHost :: string where "listenHost = []"

definition JoinHostPort :: "string \<Rightarrow> string \<Rightarrow> string" where
  "JoinHostPort host port =
     (if CHR '':'' \<in> set host then ''['' @ host @ '']:'' @ port else host @ '':'' @ port)"

text \<open>\<open>Inr None\<close> is the nil server of a disabled service.\<close>

definition Start :: "(string \<Rightarrow> goerr + string) \<Rightarrow> int \<Rightarrow> int \<Rightarrow> goerr + Server option" where
  "Start listen port staleAfter =
     (if port < 0 then Inr None
      else (let addr = JoinHostPort listenHost (Itoa port) in
            case listen addr of
              Inl err \<Rightarrow> Inl (Wrapf ''listen for health checks on %s: %w'' [FStr addr] err)
            | Inr bound \<Rightarrow> Inr (Some \<lparr>srv_staleAfter = staleAfter, srv_addr = bound\<rparr>)))"

definition Addr :: "Server option \<Rightarrow> string" where
  "Addr s = (case s of None \<Rightarrow> [] | Some srv \<Rightarrow> srv_addr srv)"

datatype serving_status = SERVING | NOT_SERVING

definition Check :: "Server \<Rightarrow> int \<Rightarrow> Heartbeat \<Rightarrow> string \<Rightarrow> goerr + serving_status" where
  "Check s now hb service =
     (if service = [] \<or> service = ''liveness'' then
        Inr (if Age now hb > srv_staleAfter s then NOT_SERVING else SERVING)
      else Inl (Errorf ''unknown service %q'' [FStr service]))"

section \<open>Properties\<close>

lemma StaleAfter_no_wrap:
  assumes "0 < scanInterval" and "scanInterval \<le> (2 ^ 63 - 1) div 10"
  shows "StaleAfter scanInterval = 10 * scanInterval" and "Watch (StaleAfter scanInterval) samples \<noteq> None"
proof -
  show "StaleAfter scanInterval = 10 * scanInterval"
    using assms by (simp add: StaleAfter_def staleMultiple_def wrap64_id)
  then show "Watch (StaleAfter scanInterval) samples \<noteq> None"
    using assms by (simp add: Watch_def NewTicker_def quot64_def watchdogChecksPerThreshold_def)
qed

text \<open>
  C40. The threshold of every sensible interval: for a positive scan interval up to a tenth
  of the range of a duration, ten intervals do not wrap around, the watchdog's ticker does
  not panic, and it samples at least four times per threshold and less often than the scan
  loop stamps.
\<close>

theorem StaleAfter_bounds:
  assumes "0 < scanInterval" and "scanInterval \<le> (2 ^ 63 - 1) div 10"
  shows "StaleAfter scanInterval = 10 * scanInterval \<and> Watch (StaleAfter scanInterval) samples \<noteq> None
    \<and> 4 * quot64 (StaleAfter scanInterval) watchdogChecksPerThreshold \<le> StaleAfter scanInterval
    \<and> scanInterval < quot64 (StaleAfter scanInterval) watchdogChecksPerThreshold"
  using assms StaleAfter_no_wrap [OF assms] by (auto simp: quot64_def watchdogChecksPerThreshold_def)

theorem StaleAfter_bounds_witness:
  "StaleAfter (30 * second) = 300 * second \<and> Watch (StaleAfter (30 * second)) [(400 * second, Some 0)] \<noteq> None"
proof -
  have "0 < 30 * second" "30 * second \<le> (2 ^ 63 - 1) div 10" by (simp_all add: second_def)
  then have "StaleAfter (30 * second) = 10 * (30 * second) \<and> Watch (StaleAfter (30 * second)) [(400 * second, Some 0)] \<noteq> None"
    using StaleAfter_bounds [of "30 * second" "[(400 * second, Some 0)]"] by blast
  then show ?thesis by (elim conjE) simp
qed

text \<open>
  Outside these bounds the process dies: nothing rejects an interval of zero, a negative one
  or one whose tenfold wraps around, and the ticker panics on it.
\<close>

lemma scan_interval_unchecked:
  "Watch (StaleAfter 0) samples = None" "Watch (StaleAfter (- second)) samples = None"
  "Watch (StaleAfter ((2 ^ 63 - 1) div 10 + 1)) samples = None"
  by code_simp+

text \<open>
  The lines of a watchdog that remembers nothing but the previous sample: a line at every
  sample whose side of the threshold differs from that of the sample before it.
\<close>

definition edge_line :: "int \<Rightarrow> int \<Rightarrow> int \<Rightarrow> watch_line list" where
  "edge_line staleAfter before age =
     (if (before > staleAfter) = (age > staleAfter) then []
      else if age > staleAfter then [WentStale (Truncate age second) staleAfter] else [Recovered])"

lemma watch_ticks_edges:
  "stale = (before > staleAfter) \<Longrightarrow>
   watch_ticks staleAfter stale ages = concat (map2 (edge_line staleAfter) (before # ages) ages)"
proof (induction ages arbitrary: stale before)
  case (Cons age ages)
  then show ?case using Cons.IH [of "staleAfter < age" age] by (cases "staleAfter < age") (auto simp: edge_line_def)
qed simp

text \<open>
  C35. The watchdog logs exactly the edges: one line for every sample at which the heartbeat
  crosses the threshold, starting from fresh, and none otherwise. Read as a whole, the lines
  alternate.
\<close>

theorem Watch_reports_edges:
  assumes "Watch staleAfter samples = Some lines"
  shows "lines = concat (map2 (edge_line staleAfter) (staleAfter # map (\<lambda>(now, hb). Age now hb) samples)
            (map (\<lambda>(now, hb). Age now hb) samples))
    \<and> (\<forall>i. Suc i < length lines \<longrightarrow> (lines ! Suc i = Recovered) = (lines ! i \<noteq> Recovered))
    \<and> (lines \<noteq> [] \<longrightarrow> hd lines \<noteq> Recovered)"
proof -
  have l: "lines = watch_ticks staleAfter False (map (\<lambda>(now, hb). Age now hb) samples)"
    using assms by (simp add: Watch_def split: option.splits)
  have first: "watch_ticks d st ages \<noteq> [] \<Longrightarrow> (hd (watch_ticks d st ages) = Recovered) = st" for d st ages
    by (induction ages arbitrary: st) auto
  have alt: "Suc i < length (watch_ticks d st ages) \<Longrightarrow>
      (watch_ticks d st ages ! Suc i = Recovered) = (watch_ticks d st ages ! i \<noteq> Recovered)" for d st ages i
  proof (induction ages arbitrary: st i)
    case (Cons a ages)
    have "(watch_ticks d b ages ! 0 = Recovered) = b" if "0 < length (watch_ticks d b ages)" for b
      using first [of d b ages] that by (simp add: hd_conv_nth)
    then show ?case using Cons by (cases i) auto
  qed simp
  show ?thesis using watch_ticks_edges [of False staleAfter staleAfter] first [of staleAfter False] alt [of _ staleAfter False] l by auto
qed

theorem Watch_reports_edges_witness:
  "\<exists>lines. Watch 8 [(5, Some 0), (9, Some 0), (12, Some 0), (13, Some 10)] = Some lines \<and> length lines = 2 \<and> hd lines \<noteq> Recovered"
proof -
  let ?w = "Watch 8 [(5, Some 0), (9, Some 0), (12, Some 0), (13, Some 10)]"
  have "case ?w of None \<Rightarrow> False | Some ls \<Rightarrow> length ls = 2" by code_simp
  then obtain ls where "?w = Some ls" "length ls = 2" by (auto split: option.splits)
  then show ?thesis using Watch_reports_edges [of 8 _ ls, OF \<open>?w = Some ls\<close>] by (intro exI [of _ ls]) force
qed

end
