(* ===== verification/Driver.thy ===== *)
theory Driver
  imports Devicestate Apscanner Health
begin

text \<open>
  \<open>internal/driver/driver.go\<close>: startup, the scan loop, the two claim RPCs, background
  errors and the device health stream.

  The kubelet plugin helper is library code and a parameter: whether it starts, and what a
  publish answers. \<open>scanTrigger\<close> is a channel of capacity one, so it is the flag whether
  a request is pending. The clock readings are arguments. A scan reads the world at one
  moment.
\<close>

section \<open>Types\<close>

record 'w helper =
  h_Start :: "'w \<Rightarrow> goerr option \<times> 'w"
  h_PublishResources :: "Device list list gomap \<Rightarrow> 'w \<Rightarrow> goerr option \<times> 'w"

record Config =
  c_DriverName :: string
  c_NodeName :: string
  c_MachineID :: string
  c_SysinfoPath :: string
  c_ScanInterval :: int
  c_Heartbeat :: Heartbeat
  c_KubeletRegistrarDirectoryPath :: string
  c_PluginDataDirectoryPath :: string
  c_CDIRoot :: string

record Driver =
  d_state :: DeviceState
  d_machineID :: string
  d_mkvpTracker :: MKVPTracker
  d_scanTrigger :: bool
  d_heartbeat :: Heartbeat

record PluginDevice =
  kp_Requests :: "string list"
  kp_PoolName :: string
  kp_DeviceName :: string
  kp_CDIDeviceIDs :: "string list"

section \<open>Startup\<close>

text \<open>
  The reconciliation before anything is served: queues first, then the files, each error
  only logged.
\<close>

definition reconcile :: "'w os \<Rightarrow> Config \<Rightarrow> 'w \<Rightarrow> 'w" where
  "reconcile os cfg w =
     (let w1 = snd (DrainOrphanedVFIOAP os w);
          w2 = snd (GCStaleClaimSpecs os (c_CDIRoot cfg) (Exists os) w1)
      in snd (GCStaleClaimMetadata os (c_PluginDataDirectoryPath cfg) (Exists os) w2))"

definition resolve_machineID :: "'w os \<Rightarrow> Config \<Rightarrow> 'w \<Rightarrow> goerr + string" where
  "resolve_machineID os cfg w =
     (if c_MachineID cfg = [] then
        (case MachineID os (c_SysinfoPath cfg) w of
           Inl err \<Rightarrow> Inl (Wrapf ''resolve machine ID: %w'' [] err)
         | Inr machineID \<Rightarrow> Inr machineID)
      else Inr (c_MachineID cfg))"

definition New :: "'w env \<Rightarrow> 'w helper \<Rightarrow> Config \<Rightarrow> 'w \<Rightarrow> (goerr + Driver) \<times> 'w" where
  "New env h cfg w =
     (case resolve_machineID (e_os env) cfg w of
        Inl err \<Rightarrow> (Inl err, w)
      | Inr machineID \<Rightarrow>
          (let w1 = reconcile (e_os env) cfg w;
               state = New_state (c_NodeName cfg) (c_DriverName cfg) (c_CDIRoot cfg) (c_PluginDataDirectoryPath cfg)
           in case Scan (e_os env) machineID w1 NewMKVPTracker of
                (Inl err, tracker) \<Rightarrow> (Inl (Wrapf ''initial device scan: %w'' [] err), w1)
              | (Inr devicesByCard, tracker) \<Rightarrow>
                  (let state1 = snd (CompareAndUpdate env devicesByCard state) in
                   case h_Start h w1 of
                     (Some err, w2) \<Rightarrow> (Inl err, w2)
                   | (None, w2) \<Rightarrow>
                       (case h_PublishResources h (DriverResources state1) w2 of
                          (Some err, w3) \<Rightarrow> (Inl err, w3)
                        | (None, w3) \<Rightarrow>
                            (Inr \<lparr>d_state = state1, d_machineID = machineID, d_mkvpTracker = tracker,
                                  d_scanTrigger = False, d_heartbeat = c_Heartbeat cfg\<rparr>, w3)))))"

section \<open>The scan loop\<close>

definition triggerScan :: "Driver \<Rightarrow> Driver" where
  "triggerScan d = (if d_scanTrigger d then d else d\<lparr>d_scanTrigger := True\<rparr>)"

definition scanAndPublish :: "'w env \<Rightarrow> 'w helper \<Rightarrow> Driver \<Rightarrow> 'w \<Rightarrow> goerr option \<times> Driver \<times> 'w" where
  "scanAndPublish env h d w =
     (case Scan (e_os env) (d_machineID d) w (d_mkvpTracker d) of
        (Inl err, tracker) \<Rightarrow> (Some (Wrapf ''scan AP queues: %w'' [] err), d\<lparr>d_mkvpTracker := tracker\<rparr>, w)
      | (Inr devicesByCard, tracker) \<Rightarrow>
          (let d1 = d\<lparr>d_mkvpTracker := tracker\<rparr> in
           case CompareAndUpdate env devicesByCard (d_state d1) of
             (True, state) \<Rightarrow>
               (let d2 = d1\<lparr>d_state := state\<rparr> in
                case h_PublishResources h (DriverResources state) w of
                  (Some err, w1) \<Rightarrow> (Some (Wrapf ''publish resources: %w'' [] err), d2, w1)
                | (None, w1) \<Rightarrow> (None, d2, w1))
           | (False, state) \<Rightarrow> (None, d1\<lparr>d_state := state\<rparr>, w)))"

definition runScanCycle :: "'w env \<Rightarrow> 'w helper \<Rightarrow> int \<Rightarrow> Driver \<Rightarrow> 'w \<Rightarrow> Driver \<times> 'w" where
  "runScanCycle env h now d w =
     (case scanAndPublish env h d w of
        (err, d1, w1) \<Rightarrow> (d1\<lparr>d_heartbeat := Stamp now (d_heartbeat d1)\<rparr>, w1))"

section \<open>The claim RPCs\<close>

definition plugin_device :: "PreparedDevice \<Rightarrow> PluginDevice" where
  "plugin_device pd = \<lparr>kp_Requests = pd_RequestNames pd, kp_PoolName = pd_PoolName pd,
     kp_DeviceName = pd_DeviceName pd, kp_CDIDeviceIDs = pd_CdiDeviceIds pd\<rparr>"

definition prepareResourceClaim ::
  "'w env \<Rightarrow> ctx \<Rightarrow> Driver \<Rightarrow> ResourceClaim \<Rightarrow> 'w \<Rightarrow> (goerr + PluginDevice list) \<times> 'w" where
  "prepareResourceClaim env ctx d claim w =
     (case Prepare env ctx (d_state d) claim w of
        (Inl err, w1) \<Rightarrow> (Inl (Wrapf ''error preparing devices for claim %v: %w'' [FStr (claim_UID claim)] err), w1)
      | (Inr preparedDevices, w1) \<Rightarrow> (Inr (map plugin_device preparedDevices), w1))"

definition unprepareResourceClaim :: "'w env \<Rightarrow> ctx \<Rightarrow> Driver \<Rightarrow> string \<Rightarrow> 'w \<Rightarrow> goerr option \<times> 'w" where
  "unprepareResourceClaim env ctx d uid w =
     (case Unprepare env ctx (d_state d) uid w of
        (Some err, w1) \<Rightarrow> (Some (Wrapf ''error unpreparing devices for claim %v: %w'' [FStr uid] err), w1)
      | (None, w1) \<Rightarrow> (None, w1))"

text \<open>
  The loop over the claims of one call, filling the result map by UID. The context is the
  call's; \<open>ctxs i\<close> is what it answers while the \<open>i\<close>-th claim is handled.
\<close>

fun rpc_loop :: "(nat \<Rightarrow> 'c \<Rightarrow> 'w \<Rightarrow> 'r \<times> 'w) \<Rightarrow> ('c \<Rightarrow> string) \<Rightarrow> nat \<Rightarrow> 'c list \<Rightarrow> 'r gomap \<Rightarrow> 'w \<Rightarrow> 'r gomap \<times> 'w" where
  "rpc_loop handle uid i [] result w = (result, w)"
| "rpc_loop handle uid i (c # cs) result w =
     (case handle i c w of (r, w1) \<Rightarrow> rpc_loop handle uid (Suc i) cs (AList.update (uid c) r result) w1)"

definition PrepareResourceClaims ::
  "'w env \<Rightarrow> (nat \<Rightarrow> ctx) \<Rightarrow> Driver \<Rightarrow> ResourceClaim list \<Rightarrow> 'w \<Rightarrow> (goerr + PluginDevice list) gomap \<times> Driver \<times> 'w" where
  "PrepareResourceClaims env ctxs d claims w =
     (case rpc_loop (\<lambda>i claim. prepareResourceClaim env (ctxs i) d claim) claim_UID 0 claims [] w of
        (result, w1) \<Rightarrow> (result, triggerScan d, w1))"

definition UnprepareResourceClaims ::
  "'w env \<Rightarrow> (nat \<Rightarrow> ctx) \<Rightarrow> Driver \<Rightarrow> string list \<Rightarrow> 'w \<Rightarrow> goerr option gomap \<times> Driver \<times> 'w" where
  "UnprepareResourceClaims env ctxs d claims w =
     (case rpc_loop (\<lambda>i uid. unprepareResourceClaim env (ctxs i) d uid) (\<lambda>uid. uid) 0 claims [] w of
        (result, w1) \<Rightarrow> (result, triggerScan d, w1))"

section \<open>Background errors\<close>

text \<open>
  \<open>recoverable\<close> is \<open>errors.Is(err, kubeletplugin.ErrRecoverable)\<close>, a sentinel of the
  library; the result is the cause the context is cancelled with, if it is.
\<close>

definition HandleError :: "(goerr \<Rightarrow> bool) \<Rightarrow> bool \<Rightarrow> goerr \<Rightarrow> goerr option" where
  "HandleError recoverable hasCancel err =
     (if \<not> recoverable err \<and> hasCancel then Some (Wrapf ''fatal background error: %w'' [] err) else None)"

section \<open>Device health\<close>

record DeviceHealth =
  dh_PoolName :: string
  dh_DeviceName :: string
  dh_Unknown :: bool
  dh_LastUpdated :: int

definition unknownHealthReport :: "'w env \<Rightarrow> DeviceState \<Rightarrow> int \<Rightarrow> DeviceHealth list" where
  "unknownHealthReport env s now =
     (let pools = DriverResources s in
      concat (map (\<lambda>poolName.
        map (\<lambda>device. \<lparr>dh_PoolName = poolName, dh_DeviceName = dev_Name device, dh_Unknown = True, dh_LastUpdated = now\<rparr>)
          (concat (case map_of pools poolName of None \<Rightarrow> [] | Some slices \<Rightarrow> slices)))
        (e_order env ''health'' (map fst pools))))"

text \<open>
  \<open>WatchHealthStatus\<close> by what happens to it: the receiver takes a report, the ticker
  fires, or the context ends. It is either offering a report, which it built when it came
  back to the send, or waiting for the ticker (\<open>None\<close>); \<open>tick\<close> says whether the ticker's
  channel, which holds one tick, is full. \<open>Taken\<close> and \<open>Ticked\<close> carry the state and the
  clock at their moment, from which the next report is built when they lead to one.
\<close>

datatype watch_event = Taken DeviceState int | Ticked DeviceState int | CtxDone

fun watch_loop :: "'w env \<Rightarrow> DeviceHealth list option \<Rightarrow> bool \<Rightarrow> watch_event list \<Rightarrow> DeviceHealth list list" where
  "watch_loop env offer tick [] = []"
| "watch_loop env offer tick (CtxDone # es) = []"
| "watch_loop env None tick (Taken s now # es) = watch_loop env None tick es"
| "watch_loop env (Some report) tick (Taken s now # es) =
     report # watch_loop env (if tick then Some (unknownHealthReport env s now) else None) False es"
| "watch_loop env None tick (Ticked s now # es) = watch_loop env (Some (unknownHealthReport env s now)) False es"
| "watch_loop env (Some report) tick (Ticked s now # es) = watch_loop env (Some report) True es"

definition WatchHealthStatus :: "'w env \<Rightarrow> DeviceState \<Rightarrow> int \<Rightarrow> watch_event list \<Rightarrow> DeviceHealth list list" where
  "WatchHealthStatus env s now es = watch_loop env (Some (unknownHealthReport env s now)) False es"

end
