(* ===== verification/Driver_Props.thy ===== *)
theory Driver_Props
  imports Driver Allocation_Props Scan_Props
begin

text \<open>
  The running driver as a step relation: the scan loop's goroutine, which goes through a
  cycle in several steps, and the claim RPCs, which the kubelet calls at any moment in
  between. A claim is handled under the state lock and is one step; the scan request that
  ends a call is another.
\<close>

section \<open>The process\<close>

text \<open>Where the scan loop is.\<close>

datatype pc =
    Idle
  | Updating "goerr + Device list gomap"
  | Publishing "Device list list gomap"
  | Stamping
  | Stopped

text \<open>
  The process, with three history variables: the resources last published, whether a
  publish has failed, and whether a call has returned since the last scan began.
\<close>

record 'w proc =
  p_driver :: Driver
  p_world :: 'w
  p_pc :: pc
  p_published :: "Device list list gomap"
  p_failed :: bool
  p_asked :: bool

definition scan_result :: "'w env \<Rightarrow> 'w proc \<Rightarrow> (goerr + Device list gomap) \<times> MKVPTracker" where
  "scan_result env p = Scan (e_os env) (d_machineID (p_driver p)) (p_world p) (d_mkvpTracker (p_driver p))"

inductive step :: "'w env \<Rightarrow> 'w helper \<Rightarrow> 'w proc \<Rightarrow> 'w proc \<Rightarrow> bool" for env :: "'w env" and h :: "'w helper" where
  tick: "p_pc p = Idle \<Longrightarrow> scan_result env p = (r, t) \<Longrightarrow>
    step env h p (p\<lparr>p_driver := (p_driver p)\<lparr>d_mkvpTracker := t\<rparr>, p_pc := Updating r, p_asked := False\<rparr>)"
| trigger: "p_pc p = Idle \<Longrightarrow> d_scanTrigger (p_driver p) \<Longrightarrow> scan_result env p = (r, t) \<Longrightarrow>
    step env h p (p\<lparr>p_driver := (p_driver p)\<lparr>d_scanTrigger := False, d_mkvpTracker := t\<rparr>, p_pc := Updating r, p_asked := False\<rparr>)"
| scan_failed: "p_pc p = Updating (Inl err) \<Longrightarrow> step env h p (p\<lparr>p_pc := Stamping\<rparr>)"
| unchanged: "p_pc p = Updating (Inr m) \<Longrightarrow> CompareAndUpdate env m (d_state (p_driver p)) = (False, s) \<Longrightarrow>
    step env h p (p\<lparr>p_driver := (p_driver p)\<lparr>d_state := s\<rparr>, p_pc := Stamping\<rparr>)"
| changed: "p_pc p = Updating (Inr m) \<Longrightarrow> CompareAndUpdate env m (d_state (p_driver p)) = (True, s) \<Longrightarrow>
    step env h p (p\<lparr>p_driver := (p_driver p)\<lparr>d_state := s\<rparr>, p_pc := Publishing (DriverResources s)\<rparr>)"
| published: "p_pc p = Publishing r \<Longrightarrow> h_PublishResources h r (p_world p) = (None, w) \<Longrightarrow>
    step env h p (p\<lparr>p_world := w, p_pc := Stamping, p_published := r\<rparr>)"
| publish_failed: "p_pc p = Publishing r \<Longrightarrow> h_PublishResources h r (p_world p) = (Some err, w) \<Longrightarrow>
    step env h p (p\<lparr>p_world := w, p_pc := Stamping, p_failed := True\<rparr>)"
| stamp: "p_pc p = Stamping \<Longrightarrow>
    step env h p (p\<lparr>p_driver := (p_driver p)\<lparr>d_heartbeat := Stamp now (d_heartbeat (p_driver p))\<rparr>, p_pc := Idle\<rparr>)"
| stop: "p_pc p = Idle \<Longrightarrow> step env h p (p\<lparr>p_pc := Stopped\<rparr>)"
| prepare: "prepareResourceClaim env ctx (p_driver p) claim (p_world p) = (res, w) \<Longrightarrow> step env h p (p\<lparr>p_world := w\<rparr>)"
| unprepare: "unprepareResourceClaim env ctx (p_driver p) uid (p_world p) = (err, w) \<Longrightarrow> step env h p (p\<lparr>p_world := w\<rparr>)"
| return: "step env h p (p\<lparr>p_driver := triggerScan (p_driver p), p_asked := True\<rparr>)"

inductive_cases stepE: "step env h p q"

definition started :: "'w env \<Rightarrow> 'w helper \<Rightarrow> Config \<Rightarrow> 'w \<Rightarrow> 'w proc \<Rightarrow> bool" where
  "started env h cfg w p \<longleftrightarrow> (\<exists>d w'. New env h cfg w = (Inr d, w') \<and>
     p = \<lparr>p_driver = d, p_world = w', p_pc = Idle, p_published = DriverResources (d_state d), p_failed = False, p_asked = False\<rparr>)"

inductive reachable :: "'w env \<Rightarrow> 'w helper \<Rightarrow> Config \<Rightarrow> 'w \<Rightarrow> 'w proc \<Rightarrow> bool" for env h cfg w where
  init: "started env h cfg w p \<Longrightarrow> reachable env h cfg w p"
| more: "reachable env h cfg w p \<Longrightarrow> step env h p q \<Longrightarrow> reachable env h cfg w q"

section \<open>Invariants\<close>

text \<open>A property of the start that every step keeps holds of every reachable process.\<close>

locale process_invariant =
  fixes env :: "'w env" and h :: "'w helper" and I :: "'w proc \<Rightarrow> bool"
  assumes start_inv: "started env h cfg w p \<Longrightarrow> I p"
    and step_inv: "I p \<Longrightarrow> step env h p q \<Longrightarrow> I q"
begin

lemma reachable_inv: "reachable env h cfg w p \<Longrightarrow> I p"
  by (induction rule: reachable.induct) (auto intro: start_inv step_inv)

end

text \<open>While nothing has failed, what is published is what the state holds, unless a publish is under way.\<close>

definition inv_published :: "'w proc \<Rightarrow> bool" where
  "inv_published p \<longleftrightarrow>
     (case p_pc p of
        Publishing r \<Rightarrow> r = driverResources (d_state (p_driver p))
      | _ \<Rightarrow> p_failed p \<or> p_published p = driverResources (d_state (p_driver p)))"

text \<open>The devices offered are the devices \<open>Prepare\<close> accepts.\<close>

definition offered :: "DeviceState \<Rightarrow> string set" where
  "offered s = {n. \<exists>p slices ds d. map_of (driverResources s) p = Some slices \<and> ds \<in> set slices \<and> d \<in> set ds \<and> dev_Name d = n}"

definition state_consistent :: "DeviceState \<Rightarrow> bool" where
  "state_consistent s \<longleftrightarrow> offered s = dom (map_of (allocatable s))"

definition inv_trigger :: "'w proc \<Rightarrow> bool" where
  "inv_trigger p \<longleftrightarrow> (p_asked p \<longrightarrow> d_scanTrigger (p_driver p))"

lemma CompareAndUpdate_False: "CompareAndUpdate env m s = (False, s') \<Longrightarrow> s' = s"
  by (auto simp: CompareAndUpdate_def Let_def split: if_splits)

lemma dom_fold_update: "dom (map_of (fold (\<lambda>x. AList.update (k x) (v x)) xs m)) = k ` set xs \<union> dom (map_of m)"
  by (induction xs arbitrary: m) (auto simp: dom_update update_conv')

lemma ran_pools:
  assumes "inj f"
  shows "map_of (fold (\<lambda>c. AList.update (f c) (g c)) cs []) p = Some x \<longleftrightarrow> (\<exists>c \<in> set cs. p = f c \<and> x = g c)"
proof (induction cs rule: rev_induct)
  case (snoc c cs)
  show ?case
  proof (cases "p = f c")
    case True
    then have "map_of (fold (\<lambda>c. AList.update (f c) (g c)) (cs @ [c]) []) p = Some (g c)" by (simp add: update_conv')
    moreover have "(\<exists>c' \<in> set (cs @ [c]). p = f c' \<and> x = g c') \<longleftrightarrow> x = g c" using True injD [OF assms] by auto
    ultimately show ?thesis by (metis option.inject)
  next
    case False
    then show ?thesis using snoc by (simp add: update_conv')
  qed
qed simp

lemma CompareAndUpdate_consistent:
  assumes "env_ok env" "state_consistent s" "CompareAndUpdate env m s = (b, s')"
  shows "state_consistent s'"
proof (cases b)
  case False
  then have "s' = s" using assms(3) CompareAndUpdate_False [of env m s s'] by simp
  then show ?thesis using assms(2) by simp
next
  case True
  have o: "set (e_order env site xs) = set xs" for site xs using assms(1) by (simp add: env_ok_def perm_oracle_set)
  let ?name = "\<lambda>c. nodeName s @ ''-'' @ c"
  let ?ds = "concat (map (card_devices m) (e_order env ''allocatable'' (map fst m)))"
  have s': "allocatable s' = fold (\<lambda>d. AList.update (dev_Name d) d) ?ds []"
    "driverResources s' = fold (\<lambda>c. AList.update (?name c) [card_devices m c]) (e_order env ''pools'' (map fst m)) []"
    using assms(3) True by (auto simp: CompareAndUpdate_def Let_def fold_concat_map split: if_splits)
  have "inj ?name" by (simp add: inj_def)
  then have pools: "map_of (driverResources s') p = Some x \<longleftrightarrow> (\<exists>c \<in> set (map fst m). p = ?name c \<and> x = [card_devices m c])" for p x
    unfolding s'(2) by (simp only: ran_pools o)
  have off: "n \<in> offered s' \<longleftrightarrow> (\<exists>c \<in> keys. \<exists>d \<in> set (card_devices m c). dev_Name d = n)" if "keys = set (map fst m)" for n keys
  proof
    assume "n \<in> offered s'"
    then show "\<exists>c \<in> keys. \<exists>d \<in> set (card_devices m c). dev_Name d = n"
      unfolding offered_def mem_Collect_eq pools that [symmetric] by (metis empty_iff empty_set set_ConsD)
  next
    assume "\<exists>c \<in> keys. \<exists>d \<in> set (card_devices m c). dev_Name d = n"
    then show "n \<in> offered s'"
      unfolding offered_def mem_Collect_eq pools that [symmetric] by (metis list.set_intros(1))
  qed
  define keys where "keys = set (map fst m)"
  have "dom (map_of (allocatable s')) = dev_Name ` (\<Union>c \<in> keys. set (card_devices m c))"
    unfolding s'(1) dom_fold_update keys_def by (simp add: o)
  moreover have "offered s' = dev_Name ` (\<Union>c \<in> keys. set (card_devices m c))"
    by (rule set_eqI) (simp add: off [OF keys_def] image_iff eq_commute)
  ultimately show ?thesis by (simp add: state_consistent_def)
qed

interpretation published: process_invariant env h inv_published for env :: "'w env" and h
proof
  show "inv_published p" if "started env h cfg w p" for cfg and w :: 'w and p
    using that by (auto simp: started_def inv_published_def DriverResources_def)
next
  fix p q :: "'w proc" assume i: "inv_published p" and s: "step env h p q"
  from s i show "inv_published q"
    by (cases rule: step.cases)
       (auto simp: inv_published_def DriverResources_def triggerScan_def dest!: CompareAndUpdate_False split: pc.splits)
qed

interpretation trigger: process_invariant env h inv_trigger for env :: "'w env" and h
proof
  show "inv_trigger p" if "started env h cfg w p" for cfg and w :: 'w and p
    using that by (auto simp: started_def inv_trigger_def)
next
  fix p q :: "'w proc" assume i: "inv_trigger p" and s: "step env h p q"
  from s i show "inv_trigger q"
    by (cases rule: step.cases) (auto simp: inv_trigger_def triggerScan_def)
qed

lemma consistent_invariant:
  assumes "env_ok env"
  shows "process_invariant env h (\<lambda>p. state_consistent (d_state (p_driver p)))"
proof
  have "state_consistent (New_state n dn c pd)" for n dn c pd
    by (simp add: state_consistent_def New_state_def offered_def)
  then show "state_consistent (d_state (p_driver p))" if "started env h cfg w p" for cfg w p
    using that CompareAndUpdate_consistent [OF assms]
    by (auto simp: started_def New_def Let_def split: sum.splits prod.splits option.splits) (metis prod.collapse)
next
  fix p q assume i: "state_consistent (d_state (p_driver p))" and s: "step env h p q"
  from s i show "state_consistent (d_state (p_driver q))"
    by (cases rule: step.cases) (auto simp: triggerScan_def dest: CompareAndUpdate_consistent [OF assms])
qed

lemma two_steps: "r x y \<Longrightarrow> r y z \<Longrightarrow> r\<^sup>*\<^sup>* x z"
  by (auto intro: rtranclp.rtrancl_into_rtrancl)

section \<open>A concrete process\<close>

definition helper_ok :: "'w helper" where
  "helper_ok = \<lparr>h_Start = (\<lambda>w. (None, w)), h_PublishResources = (\<lambda>r w. (None, w))\<rparr>"

definition cfg_sample :: Config where
  "cfg_sample = \<lparr>c_DriverName = ''cex'', c_NodeName = ''node'', c_MachineID = ''m'', c_SysinfoPath = ''/proc/sysinfo'',
     c_ScanInterval = 30 * second, c_Heartbeat = Some 0, c_KubeletRegistrarDirectoryPath = ''/reg'', c_PluginDataDirectoryPath = ''/data'', c_CDIRoot = ''/cdi''\<rparr>"

definition mem_env :: "string gomap env" where
  "mem_env = \<lparr>e_os = mem_os, e_gate = (\<lambda>_. True), e_sha256 = (\<lambda>s. ''h'' @ s), e_order = (\<lambda>_ xs. xs), e_qorder = (\<lambda>xs. xs)\<rparr>"

definition start_proc :: "Driver \<Rightarrow> 'w \<Rightarrow> 'w proc" where
  "start_proc d w = \<lparr>p_driver = d, p_world = w, p_pc = Idle, p_published = DriverResources (d_state d), p_failed = False, p_asked = False\<rparr>"

lemma mem_env_ok: "env_ok mem_env"
  by (simp add: env_ok_def mem_env_def perm_oracle_def)

lemma mem_started:
  obtains d where "fst (New mem_env helper_ok cfg_sample w_bus) = Inr d"
    "started mem_env helper_ok cfg_sample w_bus (start_proc d (snd (New mem_env helper_ok cfg_sample w_bus)))"
    "map (\<lambda>(n, d). n) (allocatable (d_state d)) = [''m-01-0003'', ''m-01-0002''] \<or>
     map (\<lambda>(n, d). n) (allocatable (d_state d)) = [''m-01-0002'', ''m-01-0003'']"
proof -
  let ?x = "New mem_env helper_ok cfg_sample w_bus"
  have "case fst ?x of Inl e \<Rightarrow> False | Inr d \<Rightarrow> map (\<lambda>(n, d). n) (allocatable (d_state d)) = [''m-01-0003'', ''m-01-0002''] \<or>
     map (\<lambda>(n, d). n) (allocatable (d_state d)) = [''m-01-0002'', ''m-01-0003'']" by code_simp
  then obtain d where d: "fst ?x = Inr d" "map (\<lambda>(n, d). n) (allocatable (d_state d)) = [''m-01-0003'', ''m-01-0002''] \<or>
     map (\<lambda>(n, d). n) (allocatable (d_state d)) = [''m-01-0002'', ''m-01-0003'']" by (auto split: sum.splits)
  moreover have "started mem_env helper_ok cfg_sample w_bus (start_proc d (snd ?x))"
    unfolding started_def start_proc_def using d(1) by (metis prod.collapse)
  ultimately show ?thesis by (intro that)
qed

section \<open>Properties\<close>

text \<open>
  C16. What the API server was last told is what the driver will serve: in every reachable
  state of the running driver, whatever RPCs came in between, when the scan loop rests and
  no publish has failed, the published pools are the state's, and a device is offered in
  them exactly when \<open>Prepare\<close> accepts it as allocatable.
\<close>

theorem published_is_served:
  assumes "env_ok env" and "reachable env h cfg w p" and "p_pc p = Idle" and "\<not> p_failed p"
  shows "p_published p = driverResources (d_state (p_driver p))
    \<and> offered (d_state (p_driver p)) = dom (map_of (allocatable (d_state (p_driver p))))"
  using published.reachable_inv [OF assms(2)] process_invariant.reachable_inv [OF consistent_invariant [OF assms(1)] assms(2)] assms(3,4)
  by (simp add: inv_published_def state_consistent_def)

theorem published_is_served_witness:
  "\<exists>p. reachable mem_env helper_ok cfg_sample w_bus p \<and> ''m-01-0002'' \<in> offered (d_state (p_driver p))
     \<and> p_published p = driverResources (d_state (p_driver p))"
proof -
  obtain d where s: "started mem_env helper_ok cfg_sample w_bus (start_proc d (snd (New mem_env helper_ok cfg_sample w_bus)))"
    and a: "map (\<lambda>(n, d). n) (allocatable (d_state d)) = [''m-01-0003'', ''m-01-0002''] \<or>
     map (\<lambda>(n, d). n) (allocatable (d_state d)) = [''m-01-0002'', ''m-01-0003'']"
    by (rule mem_started)
  let ?p = "start_proc d (snd (New mem_env helper_ok cfg_sample w_bus))"
  have r: "reachable mem_env helper_ok cfg_sample w_bus ?p" using s by (rule reachable.init)
  have "''m-01-0002'' \<in> dom (map_of (allocatable (d_state d)))"
    using a by (auto simp: dom_map_of_conv_image_fst image_iff split: prod.splits)
  then show ?thesis
    using published_is_served [OF mem_env_ok r] r by (intro exI [of _ ?p]) (simp add: start_proc_def)
qed

text \<open>
  C17. No scan request is lost: once a claim call has returned, and until a scan begins, the
  request stays pending in the trigger channel, however many calls are coalesced into it;
  and a resting scan loop can take it up.
\<close>

theorem scan_request_not_lost:
  assumes "reachable env h cfg w p" and "p_asked p"
  shows "d_scanTrigger (p_driver p)
    \<and> (p_pc p = Idle \<longrightarrow> (\<exists>q r. step env h p q \<and> p_pc q = Updating r \<and> \<not> d_scanTrigger (p_driver q) \<and> \<not> p_asked q))"
proof -
  have t: "d_scanTrigger (p_driver p)" using trigger.reachable_inv [OF assms(1)] assms(2) by (simp add: inv_trigger_def)
  obtain r tr where "scan_result env p = (r, tr)" by (metis prod.exhaust)
  then have "step env h p (p\<lparr>p_driver := (p_driver p)\<lparr>d_scanTrigger := False, d_mkvpTracker := tr\<rparr>, p_pc := Updating r, p_asked := False\<rparr>)"
    if "p_pc p = Idle" using that t by (intro step.trigger)
  then show ?thesis using t by fastforce
qed

theorem scan_request_not_lost_witness:
  "\<exists>p. reachable mem_env helper_ok cfg_sample w_bus p \<and> p_asked p \<and> d_scanTrigger (p_driver p)"
proof -
  obtain d where s: "started mem_env helper_ok cfg_sample w_bus (start_proc d (snd (New mem_env helper_ok cfg_sample w_bus)))"
    by (rule mem_started)
  let ?p = "start_proc d (snd (New mem_env helper_ok cfg_sample w_bus))"
  have "reachable mem_env helper_ok cfg_sample w_bus (?p\<lparr>p_driver := triggerScan (p_driver ?p), p_asked := True\<rparr>)"
    by (intro reachable.more [OF reachable.init [OF s]] step.return)
  then show ?thesis using scan_request_not_lost by fastforce
qed

text \<open>
  C18. The cycle the code runs is a run of the step relation: \<open>runScanCycle\<close>, executed in
  one piece from a resting loop, ends in a state the step relation reaches with the same
  driver, the same world and the loop at rest again, on every path, errors included.
\<close>

theorem runScanCycle_is_a_run:
  assumes "p_pc p = Idle" and "runScanCycle env h now (p_driver p) (p_world p) = (d', w')"
  shows "\<exists>q. (step env h)\<^sup>*\<^sup>* p q \<and> p_driver q = d' \<and> p_world q = w' \<and> p_pc q = Idle"
proof -
  obtain r t where sc: "scan_result env p = (r, t)" by (metis prod.exhaust)
  let ?p1 = "p\<lparr>p_driver := (p_driver p)\<lparr>d_mkvpTracker := t\<rparr>, p_pc := Updating r, p_asked := False\<rparr>"
  have s1: "step env h p ?p1" using assms(1) sc by (rule step.tick)
  have fin: "\<exists>q. (step env h)\<^sup>*\<^sup>* p q \<and> p_driver q = (p_driver p2)\<lparr>d_heartbeat := Stamp now (d_heartbeat (p_driver p2))\<rparr>
      \<and> p_world q = p_world p2 \<and> p_pc q = Idle" if "(step env h)\<^sup>*\<^sup>* ?p1 p2" "p_pc p2 = Stamping" for p2
    using that s1 step.stamp [OF that(2), of env h now]
    by (intro exI [of _ "p2\<lparr>p_driver := (p_driver p2)\<lparr>d_heartbeat := Stamp now (d_heartbeat (p_driver p2))\<rparr>, p_pc := Idle\<rparr>"])
       (auto intro: rtranclp.rtrancl_into_rtrancl converse_rtranclp_into_rtranclp)
  show ?thesis
  proof (cases r)
    case (Inl e)
    then have "step env h ?p1 (?p1\<lparr>p_pc := Stamping\<rparr>)" by (intro step.scan_failed) simp
    then show ?thesis
      using fin [of "?p1\<lparr>p_pc := Stamping\<rparr>"] assms(2) sc Inl by (auto simp: runScanCycle_def scanAndPublish_def scan_result_def)
  next
    case (Inr m)
    obtain b s where cu: "CompareAndUpdate env m (d_state (p_driver p)) = (b, s)" by (metis prod.exhaust)
    show ?thesis
    proof (cases b)
      case False
      then have "step env h ?p1 (?p1\<lparr>p_driver := (p_driver ?p1)\<lparr>d_state := s\<rparr>, p_pc := Stamping\<rparr>)"
        using cu Inr by (intro step.unchanged) simp_all
      then show ?thesis
        using fin [of "?p1\<lparr>p_driver := (p_driver ?p1)\<lparr>d_state := s\<rparr>, p_pc := Stamping\<rparr>"] assms(2) sc Inr cu False
        by (auto simp: runScanCycle_def scanAndPublish_def scan_result_def Let_def)
    next
      case True
      let ?p2 = "?p1\<lparr>p_driver := (p_driver ?p1)\<lparr>d_state := s\<rparr>, p_pc := Publishing (DriverResources s)\<rparr>"
      have s2: "step env h ?p1 ?p2" using cu Inr True by (intro step.changed) simp_all
      obtain e w1 where pub: "h_PublishResources h (DriverResources s) (p_world p) = (e, w1)" by (metis prod.exhaust)
      obtain p3 where p3: "step env h ?p2 p3" "p_driver p3 = p_driver ?p2" "p_world p3 = w1" "p_pc p3 = Stamping"
        using pub step.published [of ?p2 "DriverResources s" h w1 env] step.publish_failed [of ?p2 "DriverResources s" h _ w1 env]
        by (cases e) fastforce+
      have "(step env h)\<^sup>*\<^sup>* ?p1 p3" using s2 p3(1) by (rule two_steps)
      then show ?thesis
        using fin [of p3] p3(2-4) assms(2) sc Inr cu True pub
        by (cases e) (auto simp: runScanCycle_def scanAndPublish_def scan_result_def Let_def)
    qed
  qed
qed

theorem runScanCycle_is_a_run_witness:
  "\<exists>d q. fst (New mem_env helper_ok cfg_sample w_bus) = Inr d \<and> (step mem_env helper_ok)\<^sup>*\<^sup>* (start_proc d w_bus) q
     \<and> d_heartbeat (p_driver q) = Some 5"
proof -
  obtain d where d: "fst (New mem_env helper_ok cfg_sample w_bus) = Inr d" by (rule mem_started)
  have "case fst (New mem_env helper_ok cfg_sample w_bus) of Inl e \<Rightarrow> False
      | Inr d \<Rightarrow> d_heartbeat (fst (runScanCycle mem_env helper_ok 5 d w_bus)) = Some 5" by code_simp
  then have "d_heartbeat (fst (runScanCycle mem_env helper_ok 5 d w_bus)) = Some 5" using d by simp
  moreover obtain d' w' where "runScanCycle mem_env helper_ok 5 d w_bus = (d', w')" by (metis prod.exhaust)
  ultimately show ?thesis
    using runScanCycle_is_a_run [of "start_proc d w_bus" mem_env helper_ok 5 d' w'] d by (auto simp: start_proc_def)
qed

text \<open>The world in which a call handles its \<open>i\<close>-th claim: the earlier claims have been handled.\<close>

fun world_before :: "(nat \<Rightarrow> 'c \<Rightarrow> 'w \<Rightarrow> 'r \<times> 'w) \<Rightarrow> nat \<Rightarrow> 'c list \<Rightarrow> nat \<Rightarrow> 'w \<Rightarrow> 'w" where
  "world_before handle k [] i w = w"
| "world_before handle k (c # cs) 0 w = w"
| "world_before handle k (c # cs) (Suc i) w = world_before handle (Suc k) cs i (snd (handle k c w))"

lemma rpc_loop_other:
  "u \<notin> uid ` set cs \<Longrightarrow> map_of (fst (rpc_loop handle uid k cs result w)) u = map_of result u"
  by (induction cs arbitrary: k result w) (auto simp: update_conv' split: prod.splits)

lemma rpc_loop_nth:
  assumes "distinct (map uid cs)" "i < length cs"
  shows "map_of (fst (rpc_loop handle uid k cs result w)) (uid (cs ! i))
       = Some (fst (handle (k + i) (cs ! i) (world_before handle k cs i w)))"
  using assms
proof (induction cs arbitrary: k i result w)
  case (Cons c cs)
  obtain r w1 where h: "handle k c w = (r, w1)" by (metis prod.exhaust)
  show ?case
  proof (cases i)
    case 0
    then show ?thesis using Cons.prems h by (simp add: rpc_loop_other update_conv')
  next
    case (Suc j)
    then show ?thesis using Cons.IH [of j "Suc k"] Cons.prems h by simp
  qed
qed simp

lemma rpc_loop_dom: "dom (map_of (fst (rpc_loop handle uid k cs result w))) = uid ` set cs \<union> dom (map_of result)"
  by (induction cs arbitrary: k result w) (auto simp: dom_update update_conv' split: prod.splits)

text \<open>
  C32. One answer per claim: a \<open>PrepareResourceClaims\<close> call answers for exactly the claims
  it was given, and the answer for each is that of preparing it in the world its
  predecessors left, whether they succeeded or failed. The driver's state is untouched but
  for the scan request.
\<close>

theorem PrepareResourceClaims_answers:
  assumes "distinct (map claim_UID claims)" and "PrepareResourceClaims env ctxs d claims w = (result, d', w')"
  shows "dom (map_of result) = claim_UID ` set claims \<and> d' = d\<lparr>d_scanTrigger := True\<rparr>
    \<and> (\<forall>i < length claims. map_of result (claim_UID (claims ! i))
        = Some (fst (prepareResourceClaim env (ctxs i) d (claims ! i)
            (world_before (\<lambda>i claim. prepareResourceClaim env (ctxs i) d claim) 0 claims i w))))"
proof -
  have r: "result = fst (rpc_loop (\<lambda>i claim. prepareResourceClaim env (ctxs i) d claim) claim_UID 0 claims [] w)"
    "d' = triggerScan d"
    using assms(2) by (auto simp: PrepareResourceClaims_def split: prod.splits)
  have "d' = d\<lparr>d_scanTrigger := True\<rparr>" using r(2) by (cases d) (auto simp: triggerScan_def)
  then show ?thesis
    using rpc_loop_nth [OF assms(1), of _ "\<lambda>i claim. prepareResourceClaim env (ctxs i) d claim" 0 "[]" w]
    by (simp add: r(1) rpc_loop_dom)
qed

text \<open>
  The health stream speaks of exactly the published devices: a report has one entry for
  every device of every pool under the pool and device name it is published with, and every
  entry says that the health is unknown.
\<close>

theorem unknownHealthReport_covers_published:
  assumes "env_ok env"
  shows "(\<lambda>r. (dh_PoolName r, dh_DeviceName r)) ` set (unknownHealthReport env s now)
      = {(p, dev_Name d) | p slices ds d. map_of (driverResources s) p = Some slices \<and> ds \<in> set slices \<and> d \<in> set ds}
    \<and> (\<forall>r \<in> set (unknownHealthReport env s now). dh_Unknown r \<and> dh_LastUpdated r = now)"
proof -
  let ?pools = "driverResources s"
  have "set (e_order env ''health'' (map fst ?pools)) = dom (map_of ?pools)"
    using assms by (simp add: env_ok_def perm_oracle_set dom_map_of_conv_image_fst)
  then show ?thesis
    by (auto simp: unknownHealthReport_def DriverResources_def Let_def image_iff) force+
qed

end
