(* ===== verification/Driver_Witness.thy ===== *)
theory Driver_Witness
  imports State_Witness Driver_Props
begin

text \<open>Concrete runs of the claim calls and the health report of \<open>Driver_Props\<close>.\<close>

theorem collectAllocatedAPQNs_matrix_witness:
  "\<exists>as ds al. collectAllocatedAPQNs st_sample (claim_results claim_AC) = Inr (as, ds, al) \<and> cross (set as) (set ds) = {qA, qC}"
proof -
  have "\<not> isl (collectAllocatedAPQNs st_sample (claim_results claim_AC))" by code_simp
  then obtain as ds al where "collectAllocatedAPQNs st_sample (claim_results claim_AC) = Inr (as, ds, al)"
    by (cases "collectAllocatedAPQNs st_sample (claim_results claim_AC)") auto
  then show ?thesis
    using collectAllocatedAPQNs_matrix [of st_sample "claim_results claim_AC"] sample_queues by simp
qed

definition d_sample :: Driver where
  "d_sample = \<lparr>d_state = st_sample, d_machineID = ''cex'', d_mkvpTracker = NewMKVPTracker, d_scanTrigger = False, d_heartbeat = None\<rparr>"

text \<open>A claim without an allocation, and one that can be prepared.\<close>

definition claims_sample :: "ResourceClaim list" where
  "claims_sample = [(claim_sample ''u-0'' [])\<lparr>claim_Allocation := None\<rparr>, claim_AC]"

theorem PrepareResourceClaims_answers_witness:
  "\<exists>result d' w'. PrepareResourceClaims (env_of sim_os) (\<lambda>_. ctx_live) d_sample claims_sample w_fresh = (result, d', w')
     \<and> dom (map_of result) = {''u-0'', ''u-1''} \<and> d_scanTrigger d'
     \<and> (\<exists>e. map_of result ''u-0'' = Some (Inl e)) \<and> (\<exists>ds. map_of result ''u-1'' = Some (Inr ds))"
proof -
  let ?prep = "\<lambda>i claim. prepareResourceClaim (env_of sim_os) ctx_live d_sample claim"
  obtain result d' w' where r: "PrepareResourceClaims (env_of sim_os) (\<lambda>_. ctx_live) d_sample claims_sample w_fresh = (result, d', w')"
    by (metis prod.exhaust)
  have u: "map claim_UID claims_sample = [''u-0'', ''u-1'']" "length claims_sample = 2" by code_simp+
  have dist: "distinct (map claim_UID claims_sample)" unfolding u(1) by simp
  note a = PrepareResourceClaims_answers [OF dist r, unfolded u(2)]
  have n: "claim_UID (claims_sample ! 0) = ''u-0''" "claim_UID (claims_sample ! 1) = ''u-1''" by code_simp+
  have d: "dom (map_of result) = {''u-0'', ''u-1''}" "d_scanTrigger d'"
    using a u(1) list.set_map [of claim_UID claims_sample] by auto
  have x: "isl (fst (?prep 0 (claims_sample ! 0) (world_before ?prep 0 claims_sample 0 w_fresh)))"
    "\<not> isl (fst (?prep 1 (claims_sample ! 1) (world_before ?prep 0 claims_sample 1 w_fresh)))"
    by code_simp+
  have "map_of result ''u-0'' = Some (fst (?prep 0 (claims_sample ! 0) (world_before ?prep 0 claims_sample 0 w_fresh)))"
    "map_of result ''u-1'' = Some (fst (?prep 1 (claims_sample ! 1) (world_before ?prep 0 claims_sample 1 w_fresh)))"
    using a n by (metis zero_less_numeral, metis one_less_numeral_iff semiring_norm(76))
  then have "(\<exists>e. map_of result ''u-0'' = Some (Inl e)) \<and> (\<exists>ds. map_of result ''u-1'' = Some (Inr ds))"
    using x by (metis isl_def sum.collapse(2))
  then show ?thesis using r d by blast
qed

theorem unknownHealthReport_covers_published_witness:
  "\<exists>r \<in> set (unknownHealthReport (env_of sim_os) (snd (CompareAndUpdate (env_of sim_os) inv_sample st_new)) 7).
     dh_PoolName r = ''node-card02'' \<and> dh_DeviceName r = ''cex-02-0002'' \<and> dh_Unknown r"
proof -
  let ?s = "snd (CompareAndUpdate (env_of sim_os) inv_sample st_new)"
  have "case map_of (driverResources ?s) ''node-card02'' of None \<Rightarrow> False | Some sl \<Rightarrow> list_ex (list_ex (\<lambda>d. dev_Name d = ''cex-02-0002'')) sl"
    by code_simp
  then have "(''node-card02'', ''cex-02-0002'') \<in> {(p, dev_Name d) | p slices ds d. map_of (driverResources ?s) p = Some slices \<and> ds \<in> set slices \<and> d \<in> set ds}"
    by (auto simp: list_ex_iff split: option.splits) metis
  then have "(''node-card02'', ''cex-02-0002'') \<in> (\<lambda>r. (dh_PoolName r, dh_DeviceName r)) ` set (unknownHealthReport (env_of sim_os) ?s 7)"
    using unknownHealthReport_covers_published [OF env_of_ok(1), of sim_os ?s 7] by simp
  then obtain r where "r \<in> set (unknownHealthReport (env_of sim_os) ?s 7)" "dh_PoolName r = ''node-card02''" "dh_DeviceName r = ''cex-02-0002''"
    by auto
  then show ?thesis using unknownHealthReport_covers_published [OF env_of_ok(1), of sim_os ?s 7] by blast
qed

end
