(* ===== verification/Reconcile.thy ===== *)
theory Reconcile
  imports Node_Sim Driver_Props
begin

text \<open>
  The reconciliation at startup: the drain and the two collectors on one node. Both
  collectors are instances of \<open>stale_gc\<close>, with the mediated device of a claim as the sign
  that it is alive.
\<close>

section \<open>Paths\<close>

lemma path_of_Split: "path_of (Split slash r) = slash # r"
proof (induction r)
  case (Cons x xs)
  then show ?case by (cases "Split slash xs") (auto simp: path_of_Cons)
qed (simp add: path_of_Cons)

lemma Split_no_slash: "e \<in> set (Split c r) \<Longrightarrow> c \<notin> set e"
proof (induction r arbitrary: e)
  case (Cons x xs)
  then show ?case by (cases "Split c xs") (auto split: if_splits)
qed simp

lemma under_Split:
  assumes "\<forall>c \<in> set cs. slash \<notin> set c" "under (path_of cs) q"
  shows "\<exists>es. Split slash q = [] # cs @ es"
proof (cases "q = path_of cs")
  case True
  then show ?thesis using Split_path_of [OF assms(1)] by simp
next
  case False
  then obtain r where "q = path_of cs @ slash # r" using assms(2) by (auto simp: under_def HasPrefix_iff prefix_def)
  then have "q = path_of (cs @ Split slash r)" by (simp add: path_of_append path_of_Split)
  moreover have "\<forall>c \<in> set (cs @ Split slash r). slash \<notin> set c" using assms(1) Split_no_slash by auto
  ultimately show ?thesis using Split_path_of by simp
qed

lemma under_refl [simp]: "under p p"
  by (simp add: under_def)

text \<open>A data directory by its components.\<close>

lemma claim_metadata_path_of:
  assumes "root = path_of ds" "ds \<noteq> []" "\<forall>c \<in> set ds. plain c" "plain u"
  shows "claim_metadata_dir root u = path_of (ds @ [metadataSubDir, u])"
  using assms by (simp add: claim_metadata_dir_def Join_path_of)

lemma metadata_dirs_apart:
  assumes "data_dir root" "plain u" "plain v" "under (claim_metadata_dir root u) q" "under (claim_metadata_dir root v) q"
  shows "u = v"
proof -
  obtain ds where ds: "root = path_of ds" "ds \<noteq> []" "\<forall>c \<in> set ds. plain c" using data_dirE [OF assms(1)] by metis
  have sp: "\<exists>es. Split slash q = [] # (ds @ [metadataSubDir, x]) @ es" if "plain x" "under (claim_metadata_dir root x) q" for x
  proof (rule under_Split)
    show "\<forall>c \<in> set (ds @ [metadataSubDir, x]). slash \<notin> set c"
      using ds(3) that(1) plain_metadata_consts(1) by (auto simp: plain_def)
    show "under (path_of (ds @ [metadataSubDir, x])) q" using that claim_metadata_path_of [OF ds] by simp
  qed
  obtain es fs where "Split slash q = [] # (ds @ [metadataSubDir, u]) @ es" "Split slash q = [] # (ds @ [metadataSubDir, v]) @ fs"
    using sp [OF assms(2,4)] sp [OF assms(3,5)] by blast
  then show ?thesis by simp
qed

lemma spec_path_of:
  assumes "root = path_of ds" "ds \<noteq> []" "\<forall>c \<in> set ds. plain c" "plain u"
  shows "cdi_file_path root u = path_of (ds @ [cdi_prefix @ u @ ''.json''])"
  using assms plain_spec_name [OF assms(4)] by (simp add: cdi_file_path_def cdi_prefix_def Join_path_of)

lemma spec_claim_uid_path:
  assumes "data_dir root" "plain u"
  shows "spec_claim_uid (cdi_file_path root u) = u"
proof -
  obtain ds where ds: "root = path_of ds" "ds \<noteq> []" "\<forall>c \<in> set ds. plain c" using data_dirE [OF assms(1)] by metis
  have "Base (cdi_file_path root u) = cdi_prefix @ u @ ''.json''"
    unfolding spec_path_of [OF ds assms(2)] using ds(3) plain_spec_name [OF assms(2)]
    by (intro Base_path_of) (auto simp: plain_def cdi_prefix_def)
  then show ?thesis by (simp add: spec_claim_uid_def TrimSuffix_def HasSuffix_def)
qed

section \<open>The collectors\<close>

text \<open>
  What the two listings of the startup contain: specs named after a claim, and directories
  named after one.
\<close>

definition spec_listed :: "string \<Rightarrow> string \<Rightarrow> bool" where
  "spec_listed root p \<longleftrightarrow> claim_uid (spec_claim_uid p) \<and> p = cdi_file_path root (spec_claim_uid p)"

definition entry_listed :: "dir_entry \<Rightarrow> bool" where
  "entry_listed e \<longleftrightarrow> entry_is_dir e \<longrightarrow> claim_uid (entry_name e)"

definition after_drain :: "'w os \<Rightarrow> 'w \<Rightarrow> 'w" where
  "after_drain os w = snd (DrainOrphanedVFIOAP os w)"

definition after_specs :: "'w os \<Rightarrow> Config \<Rightarrow> 'w \<Rightarrow> 'w" where
  "after_specs os cfg w = snd (GCStaleClaimSpecs os (c_CDIRoot cfg) (Exists os) (after_drain os w))"

definition listed_specs :: "'w os \<Rightarrow> Config \<Rightarrow> 'w \<Rightarrow> string list" where
  "listed_specs os cfg w =
     (case os_Glob os (Join [c_CDIRoot cfg, cdi_prefix @ ''*.json'']) (after_drain os w) of Inl e \<Rightarrow> [] | Inr ps \<Rightarrow> ps)"

definition listed_entries :: "'w os \<Rightarrow> Config \<Rightarrow> 'w \<Rightarrow> dir_entry list" where
  "listed_entries os cfg w =
     (case os_ReadDir os (Join [c_PluginDataDirectoryPath cfg, metadataSubDir]) (after_specs os cfg w) of Inl e \<Rightarrow> [] | Inr es \<Rightarrow> es)"

definition listings_ok :: "'w os \<Rightarrow> Config \<Rightarrow> 'w \<Rightarrow> bool" where
  "listings_ok os cfg w \<longleftrightarrow> list_all (spec_listed (c_CDIRoot cfg)) (listed_specs os cfg w) \<and> list_all entry_listed (listed_entries os cfg w)"

definition spec_owner :: "string \<Rightarrow> string option" where
  "spec_owner p = (if spec_claim_uid p = [] then None else Some (spec_claim_uid p))"

definition entry_owner :: "dir_entry \<Rightarrow> string option" where
  "entry_owner e = (if entry_is_dir e then Some (entry_name e) else None)"

lemma gc_spec_files_loop: "gc_spec_files os live ps w = gc_loop spec_owner (os_Remove os) live ps w"
  by (induction ps arbitrary: w) (auto simp: spec_owner_def Let_def)

lemma gc_metadata_entries_loop:
  "gc_metadata_entries os root live es w = gc_loop entry_owner (\<lambda>e. os_RemoveAll os (Join [root, entry_name e])) live es w"
  by (induction es arbitrary: w) (auto simp: entry_owner_def)

text \<open>The two directories of a configuration: clean paths outside sysfs, the specs not among the metadata.\<close>

definition driver_dirs :: "string \<Rightarrow> string \<Rightarrow> bool" where
  "driver_dirs root data \<longleftrightarrow> data_dir root \<and> data_dir data \<and> \<not> under (Join [data, metadataSubDir]) root"

lemma prefix_under: "\<forall>c \<in> set (ds @ es). slash \<notin> set c \<Longrightarrow> under (path_of ds) (path_of (ds @ es))"
  by (cases es) (auto simp: under_def HasPrefix_iff path_of_append path_of_Cons)

lemma driver_dirs_apart:
  assumes d: "driver_dirs root data" and u: "plain u" and v: "plain v"
  shows "\<not> under (claim_metadata_dir data v) (cdi_file_path root u)"
proof
  assume un: "under (claim_metadata_dir data v) (cdi_file_path root u)"
  obtain ds where ds: "root = path_of ds" "ds \<noteq> []" "\<forall>c \<in> set ds. plain c" using d data_dirE unfolding driver_dirs_def by metis
  obtain es where es: "data = path_of es" "es \<noteq> []" "\<forall>c \<in> set es. plain c" using d data_dirE unfolding driver_dirs_def by metis
  have ns: "\<forall>c \<in> set (es @ [metadataSubDir, v]). slash \<notin> set c" "\<forall>c \<in> set (ds @ [cdi_prefix @ u @ ''.json'']). slash \<notin> set c"
    using ds(3) es(3) v plain_metadata_consts(1) plain_spec_name [OF u] by (auto simp: plain_def cdi_prefix_def)
  have "under (path_of (es @ [metadataSubDir, v])) (path_of (ds @ [cdi_prefix @ u @ ''.json'']))"
    using un unfolding claim_metadata_path_of [OF es v] spec_path_of [OF ds u] .
  then obtain fs where "[] # (ds @ [cdi_prefix @ u @ ''.json'']) = [] # (es @ [metadataSubDir, v]) @ fs"
    using under_Split [OF ns(1)] Split_path_of [OF ns(2)] by metis
  then obtain gs where gs: "ds = (es @ [metadataSubDir]) @ gs"
    by (cases fs rule: rev_cases) (auto simp: append_eq_append_conv2 simp del: append_assoc simp flip: append_assoc)
  have "under (path_of (es @ [metadataSubDir])) root"
    unfolding ds(1) gs using prefix_under [of "es @ [metadataSubDir]" gs] ns(2) gs by simp
  then show False using d es plain_metadata_consts(1) by (simp add: driver_dirs_def Join_path_of)
qed

text \<open>A node with these directories.\<close>

locale driver_node = node os K Q F for os :: "'w os" and K :: "'w \<Rightarrow> kstate" and Q F +
  fixes root :: string and data :: string
  assumes dirs: "driver_dirs root data"
begin

lemma root_dir: "data_dir root" and data_dir: "data_dir data"
  using dirs by (simp_all add: driver_dirs_def)

lemma Exists_K: "claim_uid u \<Longrightarrow> K w' = K w \<Longrightarrow> Exists os u w' = Exists os u w"
  by (simp add: Exists_iff)

lemma spec_owner_path: "claim_uid u \<Longrightarrow> spec_owner (cdi_file_path root u) = Some u"
  using spec_claim_uid_path [OF root_dir, of u] by (auto simp: claim_uid_def spec_owner_def plain_def)

lemma spec_listed_outside: "spec_listed root p \<Longrightarrow> outside_sys p \<and> (\<exists>u. claim_uid u \<and> spec_owner p = Some u \<and> p = cdi_file_path root u)"
proof -
  assume "spec_listed root p"
  then obtain u where u: "claim_uid u" "p = cdi_file_path root u" by (auto simp: spec_listed_def)
  then show ?thesis using spec_outside_sys [OF root_dir claim_uid_plain [OF u(1)]] spec_owner_path [OF u(1)] by auto
qed

lemma entry_dir_Join: "plain n \<Longrightarrow> Join [Join [data, metadataSubDir], n] = claim_metadata_dir data n"
proof -
  assume n: "plain n"
  obtain ds where ds: "data = path_of ds" "ds \<noteq> []" "\<forall>c \<in> set ds. plain c" using data_dirE [OF data_dir] by metis
  then have "Join [data, metadataSubDir] = path_of (ds @ [metadataSubDir])" by (simp add: Join_path_of)
  then show ?thesis using claim_metadata_path_of [OF ds n] n ds(3) by (simp add: Join_path_of)
qed

end

sublocale driver_node \<subseteq> specs: stale_gc spec_owner "os_Remove os" "Exists os" F "\<lambda>p. {p}" "spec_listed root"
proof
  fix p r and w w' :: 'w and q assume g: "spec_listed root p"
  note o = conjunct1 [OF spec_listed_outside [OF g]]
  show "F w' q = F w q" if "os_Remove os p w = (r, w')" "q \<notin> {p}" using file_remove [OF o that(1)] that(2) by (simp split: if_splits)
  show "F w' q = None" if "os_Remove os p w = (None, w')" "q \<in> {p}" using file_remove [OF o that(1)] that(2) by simp
  show "F w' q = None" if "os_Remove os p w = (r, w')" "F w q = None" using file_remove [OF o that(1)] that(2) by (simp split: if_splits)
  show "Exists os u w' = Exists os u w" if "os_Remove os p w = (r, w')" "spec_listed root j" "spec_owner j = Some u" for j u
    using Exists_K [of u w' w] remove_K [OF o that(1)] spec_listed_outside [OF that(2)] that(3) by auto
qed

sublocale driver_node \<subseteq> metas: stale_gc entry_owner "\<lambda>e. os_RemoveAll os (Join [Join [data, metadataSubDir], entry_name e])"
    "Exists os" F "\<lambda>e. {q. under (claim_metadata_dir data (entry_name e)) q}" "\<lambda>e. entry_is_dir e \<and> entry_listed e"
proof
  fix e r and w w' :: 'w and q assume g: "entry_is_dir e \<and> entry_listed e"
  then have n: "plain (entry_name e)" by (simp add: entry_listed_def claim_uid_def)
  note o = claim_dir_outside_sys [OF data_dir n] and j = entry_dir_Join [OF n]
  show "F w' q = F w q" if "os_RemoveAll os (Join [Join [data, metadataSubDir], entry_name e]) w = (r, w')"
    "q \<notin> {q. under (claim_metadata_dir data (entry_name e)) q}"
    using file_remove_all_other [OF o that(1) [unfolded j]] that(2) by simp
  show "F w' q = None" if "os_RemoveAll os (Join [Join [data, metadataSubDir], entry_name e]) w = (None, w')"
    "q \<in> {q. under (claim_metadata_dir data (entry_name e)) q}"
    using file_remove_all [OF o that(1) [unfolded j]] that(2) by simp
  show "F w' q = None" if "os_RemoveAll os (Join [Join [data, metadataSubDir], entry_name e]) w = (r, w')" "F w q = None"
    using file_remove_all_none [OF o that(1) [unfolded j] that(2)] .
  show "Exists os u w' = Exists os u w" if "os_RemoveAll os (Join [Join [data, metadataSubDir], entry_name e]) w = (r, w')"
    "entry_is_dir d \<and> entry_listed d" "entry_owner d = Some u" for d u
    using Exists_K [of u w' w] remove_all_K [OF o that(1) [unfolded j]] that(2,3) by (auto simp: entry_listed_def entry_owner_def)
qed

lemma gc_loop_owned: "gc_loop owner remove live is w = gc_loop owner remove live (filter (\<lambda>i. owner i \<noteq> None) is) w"
  by (induction "is" arbitrary: w) (auto split: option.splits)

lemma gc_loop_keeps:
  assumes "\<And>i w r w'. i \<in> set is \<Longrightarrow> remove i w = (r, w') \<Longrightarrow> K w' = K w"
  shows "K (gc_loop owner remove live is w) = K w"
  using assms
proof (induction "is" arbitrary: w)
  case (Cons i "is")
  have "K (snd (remove i w)) = K w" using Cons.prems [of i w "fst (remove i w)"] by simp
  moreover have "K (gc_loop owner remove live is v) = K v" for v
  proof (rule Cons.IH)
    show "K w' = K w" if "j \<in> set is" "remove j w = (r, w')" for j w r w'
      using Cons.prems [of j w r w'] that by simp
  qed
  ultimately show ?case by (auto split: option.splits)
qed simp

text \<open>Each collector is the generic loop over what its listing returned.\<close>

lemma after_specs_loop:
  "after_specs os cfg w = gc_loop spec_owner (os_Remove os) (Exists os) (listed_specs os cfg w) (after_drain os w)"
  by (simp add: after_specs_def listed_specs_def GCStaleClaimSpecs_def gc_spec_files_loop split: sum.split)

lemma reconcile_loop:
  "reconcile os cfg w = gc_loop entry_owner (\<lambda>e. os_RemoveAll os (Join [Join [c_PluginDataDirectoryPath cfg, metadataSubDir], entry_name e]))
     (Exists os) (filter (\<lambda>e. entry_owner e \<noteq> None) (listed_entries os cfg w)) (after_specs os cfg w)"
proof -
  have "reconcile os cfg w = snd (GCStaleClaimMetadata os (c_PluginDataDirectoryPath cfg) (Exists os) (after_specs os cfg w))"
    by (simp add: reconcile_def after_specs_def after_drain_def Let_def)
  moreover have "snd (GCStaleClaimMetadata os root live v) = gc_loop entry_owner (\<lambda>e. os_RemoveAll os (Join [Join [root, metadataSubDir], entry_name e])) live
      (case os_ReadDir os (Join [root, metadataSubDir]) v of Inl e \<Rightarrow> [] | Inr es \<Rightarrow> es) v" for root live v
    by (simp add: GCStaleClaimMetadata_def gc_metadata_entries_loop Let_def split: sum.split)
  ultimately show ?thesis by (simp only: listed_entries_def gc_loop_owned [symmetric])
qed

context driver_node
begin

lemma specs_stale: "claim_uid u \<Longrightarrow> specs.stale w (cdi_file_path root u) \<longleftrightarrow> k_mdev (K w) u = None"
  by (simp add: specs.stale_def spec_owner_path Exists_iff)

lemma metas_stale: "claim_uid (entry_name e) \<Longrightarrow> entry_is_dir e \<Longrightarrow> metas.stale w e \<longleftrightarrow> k_mdev (K w) (entry_name e) = None"
  by (simp add: metas.stale_def entry_owner_def Exists_iff)

lemma spec_not_metadata: "claim_uid u \<Longrightarrow> claim_uid v \<Longrightarrow> \<not> under (claim_metadata_dir data v) (cdi_file_path root u)"
  using driver_dirs_apart [OF dirs] claim_uid_plain by blast

lemma listed:
  assumes "listings_ok os cfg w" and "c_CDIRoot cfg = root"
  shows listed_spec: "\<forall>p \<in> set (listed_specs os cfg w). spec_listed root p"
    and listed_entry: "\<forall>e \<in> set (filter (\<lambda>e. entry_owner e \<noteq> None) (listed_entries os cfg w)). entry_is_dir e \<and> entry_listed e"
  using assms by (auto simp: listings_ok_def list_all_iff entry_owner_def)

lemma after_specs_K:
  assumes "listings_ok os cfg w" and "c_CDIRoot cfg = root"
  shows "K (after_specs os cfg w) = K (after_drain os w)"
  unfolding after_specs_loop using remove_K spec_listed_outside listed_spec [OF assms] by (intro gc_loop_keeps) blast

lemma reconcile_K:
  assumes "listings_ok os cfg w" and "c_CDIRoot cfg = root" and "c_PluginDataDirectoryPath cfg = data"
  shows "K (reconcile os cfg w) = K (after_drain os w)"
proof -
  have "K v' = K v" if "e \<in> set (filter (\<lambda>e. entry_owner e \<noteq> None) (listed_entries os cfg w))"
    "os_RemoveAll os (Join [Join [data, metadataSubDir], entry_name e]) v = (x, v')" for e v x v'
  proof -
    have "plain (entry_name e)" using listed_entry [OF assms(1,2)] that(1) by (simp add: entry_listed_def claim_uid_def)
    then show ?thesis using remove_all_K [OF claim_dir_outside_sys [OF data_dir]] that(2) entry_dir_Join by simp
  qed
  then have "K (reconcile os cfg w) = K (after_specs os cfg w)"
    unfolding reconcile_loop assms(3) by (intro gc_loop_keeps) blast
  then show ?thesis using after_specs_K [OF assms(1,2)] by simp
qed

lemma drain_mdev: "k_mdev (K (after_drain os w)) u = k_mdev (K w) u"
  using drain_keeps_mdevs by (simp add: after_drain_def)

lemma drain_files: "F (after_drain os w) = F w"
  using drain_F [of w "fst (DrainOrphanedVFIOAP os w)" "after_drain os w"] by (simp add: after_drain_def fun_eq_iff)

lemma reconcile_keeps_live:
  assumes l: "listings_ok os cfg w" "c_CDIRoot cfg = root" and d: "c_PluginDataDirectoryPath cfg = data"
    and u: "claim_uid u" "k_mdev (K w) u \<noteq> None"
    and q: "q = cdi_file_path root u \<or> under (claim_metadata_dir data u) q"
  shows "F (reconcile os cfg w) q = F w q"
proof -
  let ?w1 = "after_drain os w" and ?w2 = "after_specs os cfg w"
  have "q \<notin> {p}" if pp: "p \<in> set (listed_specs os cfg w)" "specs.stale ?w1 p" for p
  proof -
    have "spec_listed root p" using listed_spec [OF l] pp(1) by blast
    then obtain v where v: "claim_uid v" "p = cdi_file_path root v" unfolding spec_listed_def by blast
    then have "v \<noteq> u" using pp(2) specs_stale [OF v(1), of "after_drain os w"] u(2) drain_mdev [of w v] by auto
    then have "p \<noteq> cdi_file_path root u" using v spec_owner_path [OF v(1)] spec_owner_path [OF u(1)] by auto
    moreover have "\<not> under (claim_metadata_dir data u) p" using spec_not_metadata v u(1) by blast
    ultimately show ?thesis using q by auto
  qed
  then have F2: "F ?w2 q = F w q"
    unfolding after_specs_loop drain_files [symmetric, of w] using specs.gc_safe [OF listed_spec [OF l]] by simp
  have "\<not> under (claim_metadata_dir data (entry_name e)) q"
    if "e \<in> set (filter (\<lambda>e. entry_owner e \<noteq> None) (listed_entries os cfg w))" "metas.stale ?w2 e" for e
  proof -
    have e: "claim_uid (entry_name e)" "entry_is_dir e" using listed_entry [OF l] that(1) by (auto simp: entry_listed_def)
    then have "entry_name e \<noteq> u" using that(2) metas_stale u(2) after_specs_K [OF l] drain_mdev by auto
    then show ?thesis
      using q spec_not_metadata [OF u(1) e(1)] metadata_dirs_apart [OF data_dir claim_uid_plain [OF u(1)] claim_uid_plain [OF e(1)]] by blast
  qed
  then show ?thesis unfolding reconcile_loop d using F2 metas.gc_safe [OF listed_entry [OF l], of ?w2 q] by simp
qed

text \<open>When every removal succeeds, or fails because the file is gone, nothing listed of a dead claim is left.\<close>

lemma reconcile_removes_spec:
  assumes l: "listings_ok os cfg w" "c_CDIRoot cfg = root" and d: "c_PluginDataDirectoryPath cfg = data"
    and ok: "\<And>p v. p \<in> set (listed_specs os cfg w) \<Longrightarrow> fst (os_Remove os p v) = None \<or> F v p = None"
    and u: "k_mdev (K w) (spec_claim_uid p) = None" and p: "p \<in> set (listed_specs os cfg w)"
  shows "F (reconcile os cfg w) p = None"
proof -
  have "spec_listed root p" using listed_spec [OF l] p by blast
  then obtain v where v: "claim_uid v" "p = cdi_file_path root v" "v = spec_claim_uid p" unfolding spec_listed_def by blast
  have "F (after_specs os cfg w) p = None" unfolding after_specs_loop
  proof (rule specs.gc_complete [OF listed_spec [OF l] _ p])
    show "specs.stale (after_drain os w) p"
      using specs_stale [OF v(1), of "after_drain os w"] u [folded v(3)] drain_mdev [of w v] unfolding v(2) [symmetric] by simp
  qed (use ok in auto)
  then show ?thesis unfolding reconcile_loop d by (rule metas.gc_keeps_none [OF listed_entry [OF l]])
qed

lemma reconcile_removes_metadata:
  assumes l: "listings_ok os cfg w" "c_CDIRoot cfg = root" and d: "c_PluginDataDirectoryPath cfg = data"
    and ok: "\<And>e v. e \<in> set (listed_entries os cfg w) \<Longrightarrow> entry_is_dir e \<Longrightarrow> fst (os_RemoveAll os (claim_metadata_dir data (entry_name e)) v) = None"
    and e: "e \<in> set (listed_entries os cfg w)" "entry_is_dir e" and u: "k_mdev (K w) (entry_name e) = None"
    and q: "under (claim_metadata_dir data (entry_name e)) q"
  shows "F (reconcile os cfg w) q = None"
  unfolding reconcile_loop d
proof (rule metas.gc_complete [OF listed_entry [OF l]])
  show e': "e \<in> set (filter (\<lambda>e. entry_owner e \<noteq> None) (listed_entries os cfg w))" using e by (simp add: entry_owner_def)
  then have c: "claim_uid (entry_name e)" using listed_entry [OF l] e(2) by (auto simp: entry_listed_def)
  then show "metas.stale (after_specs os cfg w) e" using metas_stale e(2) u after_specs_K [OF l] drain_mdev by simp
  show "q \<in> {q. under (claim_metadata_dir data (entry_name e)) q}" using q by simp
  show "fst (os_RemoveAll os (Join [Join [data, metadataSubDir], entry_name i]) v) = None \<or>
      (\<forall>q \<in> {q. under (claim_metadata_dir data (entry_name i)) q}. F v q = None)"
    if "i \<in> set (filter (\<lambda>e. entry_owner e \<noteq> None) (listed_entries os cfg w))" for i v
  proof -
    have i: "entry_is_dir i" "plain (entry_name i)" "i \<in> set (listed_entries os cfg w)"
      using listed_entry [OF l] that by (auto simp: entry_listed_def claim_uid_def)
    then show ?thesis using ok [OF i(3,1)] entry_dir_Join [OF i(2)] by simp
  qed
qed

end

section \<open>Properties\<close>

interpretation sim_driver: driver_node sim_os sim_K "set sim_apqns" sim_F "''/var/run/cdi''" "''/var/lib/plugin''"
proof
  show "driver_dirs ''/var/run/cdi'' ''/var/lib/plugin''" by code_simp
qed

lemma driver_nodeI: "node os K Q F \<Longrightarrow> driver_dirs root data \<Longrightarrow> driver_node os K Q F root data"
  by (simp add: driver_node_def driver_node_axioms_def)

text \<open>
  C14. A restart does not disturb running virtual machines: the reconciliation at startup,
  which drains orphaned queues and removes stale files without knowing the claims, leaves
  every mediated device as it was, and the CDI spec and the metadata of every claim whose
  mediated device exists, on every path through the listings and failing removals.
\<close>

theorem reconcile_keeps_live_claims:
  assumes "node os K Q F" and "driver_dirs (c_CDIRoot cfg) (c_PluginDataDirectoryPath cfg)" and "listings_ok os cfg w"
    and "claim_uid u" and "k_mdev (K w) u \<noteq> None"
    and "q = cdi_file_path (c_CDIRoot cfg) u \<or> under (claim_metadata_dir (c_PluginDataDirectoryPath cfg) u) q"
  shows "F (reconcile os cfg w) q = F w q \<and> k_mdev (K (reconcile os cfg w)) u = k_mdev (K w) u"
  using driver_node.reconcile_keeps_live [OF driver_nodeI [OF assms(1,2)] assms(3) refl refl assms(4-6)]
    driver_node.reconcile_K [OF driver_nodeI [OF assms(1,2)] assms(3) refl refl]
    driver_node.drain_mdev [OF driver_nodeI [OF assms(1,2)]] by simp

text \<open>Two claims with files, of which only \<open>u-1\<close> has its mediated device.\<close>

definition cfg_node :: Config where
  "cfg_node = cfg_sample\<lparr>c_CDIRoot := ''/var/run/cdi'', c_PluginDataDirectoryPath := ''/var/lib/plugin''\<rparr>"

definition w_restart :: sim where
  "w_restart = \<lparr>s_queues = [(qA, ''vfio_ap'', ''vfio_ap''), (qC, ''vfio_ap'', ''vfio_ap'')],
     s_mdevs = [(''u-1'', [''01''], [''0002''], [])],
     s_files = [(cdi_file_path ''/var/run/cdi'' ''u-1'', ''s1''), (cdi_file_path ''/var/run/cdi'' ''u-2'', ''s2''),
                (claim_metadata_dir ''/var/lib/plugin'' ''u-1'' @ ''/req'', ''m1''), (claim_metadata_dir ''/var/lib/plugin'' ''u-2'' @ ''/req'', ''m2'')],
     s_fail = []\<rparr>"

lemma restart_listings: "listings_ok calm_os cfg_node w_restart" "driver_dirs (c_CDIRoot cfg_node) (c_PluginDataDirectoryPath cfg_node)"
  by code_simp+

theorem reconcile_keeps_live_claims_witness:
  "sim_F (reconcile calm_os cfg_node w_restart) (cdi_file_path ''/var/run/cdi'' ''u-1'') = Some ''s1''"
proof -
  have "k_mdev (sim_K w_restart) ''u-1'' \<noteq> None" "claim_uid ''u-1''" "c_CDIRoot cfg_node = ''/var/run/cdi''"
    "sim_F w_restart (cdi_file_path ''/var/run/cdi'' ''u-1'') = Some ''s1''"
    by (simp add: sim_K_def w_restart_def claim_uid_def plain_def) code_simp+
  then show ?thesis
    using reconcile_keeps_live_claims [OF calm_full_node restart_listings(2,1), of "''u-1''"] by simp
qed

text \<open>
  C15. A restart leaves nothing behind of a claim that is gone: when the removals succeed (or
  the file is gone already), no listed spec and no file of a listed metadata directory of a
  claim without a mediated device is left, and the kernel is as the drain left it.
\<close>

theorem reconcile_clears_dead_claims:
  assumes "node os K Q F" and "driver_dirs (c_CDIRoot cfg) (c_PluginDataDirectoryPath cfg)" and "listings_ok os cfg w"
    and "\<And>p v. p \<in> set (listed_specs os cfg w) \<Longrightarrow> fst (os_Remove os p v) = None \<or> F v p = None"
    and "\<And>e v. e \<in> set (listed_entries os cfg w) \<Longrightarrow> entry_is_dir e \<Longrightarrow>
      fst (os_RemoveAll os (claim_metadata_dir (c_PluginDataDirectoryPath cfg) (entry_name e)) v) = None"
  shows "K (reconcile os cfg w) = K (snd (DrainOrphanedVFIOAP os w))
    \<and> (\<forall>p \<in> set (listed_specs os cfg w). k_mdev (K w) (spec_claim_uid p) = None \<longrightarrow> F (reconcile os cfg w) p = None)
    \<and> (\<forall>e \<in> set (listed_entries os cfg w). entry_is_dir e \<and> k_mdev (K w) (entry_name e) = None \<longrightarrow>
        (\<forall>q. under (claim_metadata_dir (c_PluginDataDirectoryPath cfg) (entry_name e)) q \<longrightarrow> F (reconcile os cfg w) q = None))"
proof -
  note d = driver_nodeI [OF assms(1,2)]
  show ?thesis
    using driver_node.reconcile_K [OF d assms(3) refl refl] driver_node.reconcile_removes_spec [OF d assms(3) refl refl assms(4)]
      driver_node.reconcile_removes_metadata [OF d assms(3) refl refl assms(5)]
    unfolding after_drain_def by blast
qed

theorem reconcile_clears_dead_claims_witness:
  "sim_F (reconcile calm_os cfg_node w_restart) (cdi_file_path ''/var/run/cdi'' ''u-2'') = None
   \<and> sim_F (reconcile calm_os cfg_node w_restart) (claim_metadata_dir ''/var/lib/plugin'' ''u-2'' @ ''/req'') = None"
proof -
  have rm: "fst (os_Remove calm_os p v) = None \<or> sim_F v p = None" for p v
    by (auto simp: calm_os_def masked_files sim_remove_def sim_F_def)
  have rma: "fst (os_RemoveAll calm_os p v) = None" for p v
    by (simp add: calm_os_def masked_files sim_removeall_def)
  have p: "cdi_file_path ''/var/run/cdi'' ''u-2'' \<in> set (listed_specs calm_os cfg_node w_restart)"
    "spec_claim_uid (cdi_file_path ''/var/run/cdi'' ''u-2'') = ''u-2''"
    "\<lparr>entry_name = ''u-2'', entry_is_dir = True\<rparr> \<in> set (listed_entries calm_os cfg_node w_restart)"
    "c_PluginDataDirectoryPath cfg_node = ''/var/lib/plugin''"
    "under (claim_metadata_dir ''/var/lib/plugin'' ''u-2'') (claim_metadata_dir ''/var/lib/plugin'' ''u-2'' @ ''/req'')"
    by code_simp+
  have "k_mdev (sim_K w_restart) ''u-2'' = None" by (simp add: sim_K_def w_restart_def)
  then show ?thesis
    using reconcile_clears_dead_claims [OF calm_full_node restart_listings(2,1)] rm rma p by force
qed

end
