(* ===== verification/Crash_Recovery.thy ===== *)
theory Crash_Recovery
  imports Claim_Props Reconcile
begin

text \<open>
  A crash of the driver in the middle of a claim, and the restart after it.

  \<open>Ap_Kernel\<close> turns an operating system into one under which the driver dies after a given
  number of writes. Here the whole node keeps its laws under that construction, so
  \<open>Prepare\<close> may be cut off after any number of its writes, to sysfs or to files, and the
  reconciliation of the next start runs on what it left.
\<close>

section \<open>A node on which the driver dies\<close>

lemma crash_os_sel [simp]:
  "os_Stat (crash_os os) p wn = os_Stat os p (fst wn)"
  "os_ReadFile (crash_os os) p wn = os_ReadFile os p (fst wn)"
  "os_ReadDir (crash_os os) p wn = os_ReadDir os p (fst wn)"
  "os_Glob (crash_os os) p wn = os_Glob os p (fst wn)"
  "os_WriteFile (crash_os os) p d m wn = dying (os_WriteFile os p d m) wn"
  "os_MkdirAll (crash_os os) p fm wn = dying (os_MkdirAll os p fm) wn"
  "os_Remove (crash_os os) p wn = dying (os_Remove os p) wn"
  "os_RemoveAll (crash_os os) p wn = dying (os_RemoveAll os p) wn"
  by (cases wn; simp add: crash_os_def)+

lemma ap_node_crash:
  assumes a: "ap_node os K Q"
  shows "ap_node (crash_os os) (K \<circ> fst) Q"
proof (rule ap_node.intro [OF ap_bus_crash [OF ap_node.axioms(1) [OF a]]], unfold_locales)
  fix q :: APQN and w :: "'a \<times> nat" and s
  assume "q \<in> Q" "os_ReadFile (crash_os os) (override_path q) w = Inr s"
  then show "TrimSpace s = k_override ((K \<circ> fst) w) q" using ap_node.override_read [OF a] by simp
next
  fix w :: "'a \<times> nat" and ps assume "os_Glob (crash_os os) apQueueOverrideGlob w = Inr ps"
  then show "\<exists>qs. distinct qs \<and> set qs = Q \<and> ps = map override_path qs" using ap_node.override_glob [OF a] by simp
next
  fix u and w :: "'a \<times> nat" assume "claim_uid u"
  then show "(os_Stat (crash_os os) (Join [VFIOAPMatrixPath, u]) w = None) = (k_mdev ((K \<circ> fst) w) u \<noteq> None)"
    using ap_node.mdev_stat [OF a] by simp
next
  fix w :: "'a \<times> nat" and u assume "k_mdev ((K \<circ> fst) w) u \<noteq> None"
  then show "claim_uid u" using ap_node.mdev_uid [OF a] by simp
next
  fix w :: "'a \<times> nat" and es u assume "os_ReadDir (crash_os os) VFIOAPMatrixPath w = Inr es" "k_mdev ((K \<circ> fst) w) u \<noteq> None"
  then show "\<exists>e\<in>set es. entry_is_dir e \<and> entry_name e = u" using ap_node.mdev_list [OF a, of "fst w"] by simp
next
  fix w :: "'a \<times> nat" and e u assume "os_ReadDir (crash_os os) VFIOAPMatrixPath w = Inl e" "errors_Is_NotExist e"
  then show "k_mdev ((K \<circ> fst) w) u = None" using ap_node.mdev_list_absent [OF a, of "fst w"] by simp
next
  fix w :: "'a \<times> nat" and u m s
  assume "k_mdev ((K \<circ> fst) w) u = Some m" "os_ReadFile (crash_os os) (Join [VFIOAPMatrixPath, u, ''matrix'']) w = Inr s"
  then show "\<exists>qs. s = matrix_text qs \<and> distinct qs \<and> set qs = matrix_rows m \<and> (\<forall>q\<in>set qs. hex_apqn q)"
    using ap_node.matrix_read [OF a, of "fst w" u m s] by simp
next
  fix u and w :: "'a \<times> nat" and s assume "plain u" "k_mdev ((K \<circ> fst) w) u = None"
  then show "os_ReadFile (crash_os os) (Join [VFIOAPMatrixPath, u, ''matrix'']) w \<noteq> Inr s"
    using ap_node.matrix_absent [OF a, of u "fst w" s] by simp
next
  fix p and w :: "'a \<times> nat" and es entry assume "os_ReadDir (crash_os os) p w = Inr es" "entry \<in> set es"
  then show "plain (entry_name entry)" using ap_node.dir_names [OF a, of p "fst w"] by simp
next
  fix u md r and w w' :: "'a \<times> nat" assume "claim_uid u" "os_WriteFile (crash_os os) mdevCreatePath u md w = (r, w')"
  then show "(K \<circ> fst) w' = (if r = None then set_mdev u (Some empty_mdev) ((K \<circ> fst) w) else (K \<circ> fst) w)"
    by (auto dest!: dying_cases dest: ap_node.create_write [OF a])
next
  fix u md r and w w' :: "'a \<times> nat"
  assume "claim_uid u" "os_WriteFile (crash_os os) (Join [VFIOAPMatrixPath, u, ''remove'']) ''1'' md w = (r, w')"
  then show "(K \<circ> fst) w' = (if r = None then set_mdev u None ((K \<circ> fst) w) else (K \<circ> fst) w)"
    by (auto dest!: dying_cases dest: ap_node.remove_write [OF a])
next
  fix w w' :: "'a \<times> nat" and u m v md r
  assume m: "k_mdev ((K \<circ> fst) w) u = Some m"
  note laws = ap_node.assign_adapter_write [OF a] ap_node.assign_domain_write [OF a] ap_node.assign_control_write [OF a]
  show "(K \<circ> fst) w' = (if r = None then set_mdev u (Some (m\<lparr>md_adapters := insert v (md_adapters m)\<rparr>)) ((K \<circ> fst) w) else (K \<circ> fst) w)"
    if "os_WriteFile (crash_os os) (Join [VFIOAPMatrixPath, u, ''assign_adapter'']) (''0x'' @ v) md w = (r, w')"
    using that m by (auto dest!: dying_cases dest: laws(1))
  show "(K \<circ> fst) w' = (if r = None then set_mdev u (Some (m\<lparr>md_domains := insert v (md_domains m)\<rparr>)) ((K \<circ> fst) w) else (K \<circ> fst) w)"
    if "os_WriteFile (crash_os os) (Join [VFIOAPMatrixPath, u, ''assign_domain'']) (''0x'' @ v) md w = (r, w')"
    using that m by (auto dest!: dying_cases dest: laws(2))
  show "(K \<circ> fst) w' = (if r = None then set_mdev u (Some (m\<lparr>md_control := insert v (md_control m)\<rparr>)) ((K \<circ> fst) w) else (K \<circ> fst) w)"
    if "os_WriteFile (crash_os os) (Join [VFIOAPMatrixPath, u, ''assign_control_domain'']) (''0x'' @ v) md w = (r, w')"
    using that m by (auto dest!: dying_cases dest: laws(3))
qed

lemma file_store_crash:
  assumes s: "file_store os F reg"
  shows "file_store (crash_os os) (F \<circ> fst) reg"
proof
  fix p and w w' :: "'a \<times> nat" and d m r q e
  assume reg: "reg p"
  show "(F \<circ> fst) w p = Some d" if "os_ReadFile (crash_os os) p w = Inr d"
    using that file_store.file_read [OF s reg] by simp
  show "(F \<circ> fst) w' = ((F \<circ> fst) w)(p \<mapsto> d)" if "os_WriteFile (crash_os os) p d m w = (None, w')"
    using that by (auto dest!: dying_cases dest: file_store.file_write [OF s reg])
  show "(F \<circ> fst) w' q = (F \<circ> fst) w q" if "os_WriteFile (crash_os os) p d m w = (Some e, w')" "q \<noteq> p"
    using that by (auto dest!: dying_cases dest: file_store.file_write_failed [OF s reg])
  show "(F \<circ> fst) w' = (F \<circ> fst) w" if "os_MkdirAll (crash_os os) p m w = (r, w')"
    using that by (auto dest!: dying_cases dest: file_store.file_mkdir [OF s reg])
  show "(F \<circ> fst) w' = (if r = None then ((F \<circ> fst) w)(p := None) else (F \<circ> fst) w)" if "os_Remove (crash_os os) p w = (r, w')"
    using that by (auto dest!: dying_cases dest: file_store.file_remove [OF s reg])
  show "(F \<circ> fst) w p = None" if "os_Remove (crash_os os) p w = (Some e, w')" "os_IsNotExist e"
  proof -
    have "os_Remove os p (fst w) = (Some e, fst w')" using that by (auto dest!: dying_cases)
    then show ?thesis using file_store.file_remove_absent [OF s reg] that(2) by simp
  qed
  show "(F \<circ> fst) w' = (\<lambda>q. if under p q then None else (F \<circ> fst) w q)" if "os_RemoveAll (crash_os os) p w = (None, w')"
    using that file_store.file_remove_all [OF s reg, of "fst w" "fst w'"] by (auto simp: comp_def dest!: dying_cases)
  show "(F \<circ> fst) w' q = (F \<circ> fst) w q \<or> under p q \<and> (F \<circ> fst) w' q = None" if "os_RemoveAll (crash_os os) p w = (Some e, w')"
    using that by (auto dest!: dying_cases dest: file_store.file_remove_all_failed [OF s reg])
qed

lemma node_crash:
  assumes n: "node os K Q F"
  shows "node (crash_os os) (K \<circ> fst) Q (F \<circ> fst)"
proof (rule node.intro [OF ap_node_crash [OF node.axioms(1) [OF n]] file_store_crash [OF node.axioms(2) [OF n]]], unfold_locales)
  fix p :: string and w w' :: "'a \<times> nat" and d m r
  show "(K \<circ> fst) w' = (K \<circ> fst) w" if "outside_sys p" "os_WriteFile (crash_os os) p d m w = (r, w')"
    using that by (auto dest!: dying_cases dest: node.write_K [OF n])
  show "(K \<circ> fst) w' = (K \<circ> fst) w" if "outside_sys p" "os_MkdirAll (crash_os os) p m w = (r, w')"
    using that by (auto dest!: dying_cases dest: node.mkdir_K [OF n])
  show "(K \<circ> fst) w' = (K \<circ> fst) w" if "outside_sys p" "os_Remove (crash_os os) p w = (r, w')"
    using that by (auto dest!: dying_cases dest: node.remove_K [OF n])
  show "(K \<circ> fst) w' = (K \<circ> fst) w" if "outside_sys p" "os_RemoveAll (crash_os os) p w = (r, w')"
    using that by (auto dest!: dying_cases dest: node.remove_all_K [OF n])
  show "(F \<circ> fst) w' = (F \<circ> fst) w" if "\<not> outside_sys p" "os_WriteFile (crash_os os) p d m w = (r, w')"
    using that by (auto dest!: dying_cases dest: node.write_F [OF n])
qed

section \<open>A dead driver does nothing more\<close>

lemma dying_dead [simp]: "dying f (w, 0) = (Some (PathError [] EIO), (w, 0))"
  by (simp add: dying_def)

lemma dying_alive: "dying f (w, Suc n) = (fst (f w), (snd (f w), n))"
  by (simp add: dying_def split: prod.splits)

lemma SwitchToZcrypt_dead: "snd (SwitchToZcrypt (crash_os os) a b (w, 0)) = (w, 0)"
  by (simp add: SwitchToZcrypt_def unbindQueue_def Let_def)

lemma rollback_dead: "rollback (crash_os os) qs (w, 0) = (w, 0)"
  by (induction qs) (simp_all add: SwitchToZcrypt_dead)

text \<open>Where the kernel accepts a switch, the switch fails only because the driver died in it.\<close>

lemma SwitchToVFIOAP_failed_dead:
  assumes "fst (SwitchToVFIOAP os a b w) = None" and "SwitchToVFIOAP (crash_os os) a b (w, n) = (Some e, (w', n'))"
  shows "n' = 0"
proof -
  let ?id = "a @ ''.'' @ b"
  obtain r1 w1 where s1: "os_WriteFile os (driverOverridePath a b) ''vfio_ap'' sysfsWriteMode w = (r1, w1)" by (metis prod.exhaust)
  obtain r2 w2 where s2: "os_WriteFile os (deviceUnbindPath a b) ?id sysfsWriteMode w1 = (r2, w2)" by (metis prod.exhaust)
  obtain r3 w3 where s3: "os_WriteFile os DriversProbePath ?id sysfsWriteMode w2 = (r3, w3)" by (metis prod.exhaust)
  note defs = SwitchToVFIOAP_def unbindQueue_def Let_def
  have ok: "r1 = None" "r2 = None \<or> (\<exists>e. r2 = Some e \<and> errors_Is_NotExist e)" "r3 = None"
    using assms(1) s1 s2 s3 by (auto simp: defs split: option.splits if_splits)
  consider "n = 0" | "n = 1" | "n = 2" | m where "n = Suc (Suc (Suc m))"
    by (metis One_nat_def Suc_1 not0_implies_Suc)
  then show ?thesis
    using assms(2) ok s1 s2 s3
    by cases (auto simp: defs dying_alive numeral_2_eq_2 split: option.splits if_splits)
qed

lemma SwitchToZcrypt_failed_dead:
  assumes "fst (SwitchToZcrypt os a b w) = None" and "SwitchToZcrypt (crash_os os) a b (w, n) = (Some e, (w', n'))"
  shows "n' = 0"
proof -
  let ?id = "a @ ''.'' @ b"
  obtain r1 w1 where s1: "os_WriteFile os (deviceUnbindPath a b) ?id sysfsWriteMode w = (r1, w1)" by (metis prod.exhaust)
  obtain r2 w2 where s2: "os_WriteFile os (driverOverridePath a b) [nl] sysfsWriteMode w1 = (r2, w2)" by (metis prod.exhaust)
  obtain r3 w3 where s3: "os_WriteFile os DriversProbePath ?id sysfsWriteMode w2 = (r3, w3)" by (metis prod.exhaust)
  note defs = SwitchToZcrypt_def unbindQueue_def Let_def
  have ok: "r1 = None \<or> (\<exists>e. r1 = Some e \<and> errors_Is_NotExist e)" "r2 = None" "r3 = None"
    using assms(1) s1 s2 s3 by (auto simp: defs split: option.splits if_splits)
  consider "n = 0" | "n = 1" | "n = 2" | m where "n = Suc (Suc (Suc m))"
    by (metis One_nat_def Suc_1 not0_implies_Suc)
  then show ?thesis
    using assms(2) ok s1 s2 s3
    by cases (auto simp: defs dying_alive numeral_2_eq_2 split: option.splits if_splits)
qed

section \<open>The switches of a claim\<close>

text \<open>A queue that is with zcrypt, or that carries the marker the drain looks for.\<close>

definition returnable :: "kstate \<Rightarrow> APQN \<Rightarrow> bool" where
  "returnable k q \<longleftrightarrow> on_zcrypt k q \<or> k_override k q = ''vfio_ap''"

context ap_bus
begin

lemma SwitchToVFIOAP_returnable:
  assumes "q \<in> Q" "SwitchToVFIOAP os (APID q) (APQI q) w = (r, w')" "returnable (K w) p"
  shows "returnable (K w') p"
  using SwitchToVFIOAP_K [OF assms(1,2)] assms(3)
  by (auto simp: returnable_def shape_defs kstate_simps split: if_splits)

end

text \<open>
  A rollback cut short loses at most the queue it was giving back: the ones before it are on
  zcrypt, the ones after it untouched.
\<close>

definition at_most_one :: "'a set \<Rightarrow> bool" where
  "at_most_one X \<longleftrightarrow> (\<forall>p \<in> X. \<forall>q \<in> X. p = q)"

lemma at_most_one_simps [simp]: "at_most_one {}" "at_most_one {x}"
  by (simp_all add: at_most_one_def)

lemma rollback_crash:
  assumes b: "ap_bus os K Q" and "set qs \<subseteq> Q"
    and "\<And>q v. q \<in> set qs \<Longrightarrow> fst (SwitchToZcrypt os (APID q) (APQI q) v) = None"
    and "rollback (crash_os os) qs (w, n) = (w', n')"
  shows "\<exists>X. at_most_one X \<and> (\<forall>p. p \<notin> X \<longrightarrow> returnable (K w) p \<longrightarrow> returnable (K w') p)"
  using assms(2-4)
proof (induction qs arbitrary: w n)
  case Nil
  then show ?case by (intro exI [of _ "{}"]) simp
next
  case (Cons q qs)
  note cb = ap_bus_crash [OF b]
  obtain r1 w1 n1 where s: "SwitchToZcrypt (crash_os os) (APID q) (APQI q) (w, n) = (r1, (w1, n1))" by (metis prod.exhaust)
  have rest: "rollback (crash_os os) qs (w1, n1) = (w', n')" using Cons.prems(3) s by simp
  have q: "q \<in> Q" using Cons.prems(1) by simp
  have "differ_at {q} (K w) (K w1)" using ap_bus.SwitchToZcrypt_frame [OF cb q, of "(w, n)"] s by simp
  then have other: "returnable (K w1) p = returnable (K w) p" if "p \<noteq> q" for p
    using that by (simp add: differ_at_def returnable_def shape_defs)
  show ?case
  proof (cases r1)
    case None
    then have "on_zcrypt (K w1) q" using ap_bus.SwitchToZcrypt_K [OF cb q s] by (simp add: shape_defs kstate_simps)
    then have keep: "returnable (K w) p \<longrightarrow> returnable (K w1) p" for p
      using other [of p] by (cases "p = q") (auto simp: returnable_def)
    obtain X where "at_most_one X" "\<forall>p. p \<notin> X \<longrightarrow> returnable (K w1) p \<longrightarrow> returnable (K w') p"
      using Cons.IH [OF _ _ rest] Cons.prems(1,2) by auto
    then show ?thesis using keep by blast
  next
    case (Some e)
    then have "n1 = 0" using SwitchToZcrypt_failed_dead [OF Cons.prems(2) [of q]] s by simp
    then have "w' = w1" using rest by (simp add: rollback_dead)
    then show ?thesis using other by (intro exI [of _ "{q}"]) auto
  qed
qed

text \<open>
  The switching loop cut short: a loop that is not stopped by its context rolls nothing back,
  so that nothing is lost.
\<close>

lemma switch_loop_crash:
  assumes b: "ap_bus os K Q" and "set (switched @ qs) \<subseteq> Q"
    and "\<And>q v. q \<in> set qs \<Longrightarrow> fst (SwitchToVFIOAP os (APID q) (APQI q) v) = None"
    and "\<And>q v. q \<in> Q \<Longrightarrow> fst (SwitchToZcrypt os (APID q) (APQI q) v) = None"
    and "switch_loop (crash_os os) ctx k qs switched (w, n) = (r, (w', n'))"
  shows "\<exists>X. at_most_one X \<and> ((\<forall>k. ctx_Err ctx k = None) \<longrightarrow> X = {})
     \<and> (\<forall>p. p \<notin> X \<longrightarrow> returnable (K w) p \<longrightarrow> returnable (K w') p)"
  using assms(2,3,5)
proof (induction qs arbitrary: k switched w n)
  case Nil
  then show ?case by (intro exI [of _ "{}"]) simp
next
  case (Cons q qs)
  obtain r1 w1 n1 where s: "SwitchToVFIOAP (crash_os os) (APID q) (APQI q) (w, n) = (r1, (w1, n1))" by (metis prod.exhaust)
  have p1: "returnable (K w) p \<longrightarrow> returnable (K w1) p" for p
    using ap_bus.SwitchToVFIOAP_returnable [OF ap_bus_crash [OF b] _ s] Cons.prems(1) by simp
  consider e where "ctx_Err ctx k = Some e" | "ctx_Err ctx k = None" "r1 = None" | e where "ctx_Err ctx k = None" "r1 = Some e"
    by (cases "ctx_Err ctx k"; cases r1) auto
  then show ?case
  proof cases
    case 1
    then have "rollback (crash_os os) switched (w, n) = (w', n')" using Cons.prems(3) by simp
    then have "\<exists>X. at_most_one X \<and> (\<forall>p. p \<notin> X \<longrightarrow> returnable (K w) p \<longrightarrow> returnable (K w') p)"
      using rollback_crash [OF b, of switched w n w' n'] Cons.prems(1) assms(4) by (simp add: subset_eq)
    then show ?thesis using 1 by (metis option.distinct(1))
  next
    case 2
    then have "switch_loop (crash_os os) ctx (Suc k) qs (switched @ [q]) (w1, n1) = (r, (w', n'))"
      using Cons.prems(3) s by simp
    then obtain X where "at_most_one X" "(\<forall>k. ctx_Err ctx k = None) \<longrightarrow> X = {}"
      "\<forall>p. p \<notin> X \<longrightarrow> returnable (K w1) p \<longrightarrow> returnable (K w') p"
      using Cons.IH [of "switched @ [q]" "Suc k" w1 n1] Cons.prems(1,2) by auto
    then show ?thesis using p1 by blast
  next
    case 3
    then have "n1 = 0" using SwitchToVFIOAP_failed_dead [OF Cons.prems(2) [of q]] s by simp
    then have "w' = w1" using 3 Cons.prems(3) s by (simp add: rollback_dead)
    then show ?thesis using p1 by (intro exI [of _ "{}"]) simp
  qed
qed

context ap_node
begin

text \<open>The drain does nothing to a queue without the marker.\<close>

lemma drain_leaves_unmarked:
  assumes "k_override (K w) q \<noteq> ''vfio_ap''"
  defines "v \<equiv> snd (DrainOrphanedVFIOAP os w)"
  shows "k_driver (K v) q = k_driver (K w) q \<and> k_override (K v) q = k_override (K w) q"
proof (cases "fst (DrainOrphanedVFIOAP os w)")
  case (Some e)
  then show ?thesis by (auto simp: v_def DrainOrphanedVFIOAP_def split: sum.splits)
next
  case None
  then obtain live ps where ps: "os_Glob os apQueueOverrideGlob w = Inr ps" and v: "v = drain_matches os live ps w"
    by (auto simp: v_def DrainOrphanedVFIOAP_def split: sum.splits)
  from override_glob [OF ps] obtain qs where "distinct qs" "set qs = Q" "ps = map override_path qs" by blast
  then show ?thesis using v drain_matches_frame [of qs live w] assms(1) by (simp add: differ_at_def)
qed

end

section \<open>The build of the device\<close>

context node_env
begin

text \<open>After the switches, a build changes nothing but the claim's mediated device.\<close>

lemma build_mdev_rest:
  assumes u: "claim_uid u" and "switchQueuesToVFIOAP env ctx al w = (None, w1)"
    and "build_mdev env ctx u mode (as, ds, al) w = (r, w')"
  shows "\<exists>x. K w' = set_mdev u x (K w1)"
proof -
  let ?P = "\<lambda>v. \<exists>x. K v = set_mdev u x (K w1)"
  have P1: "?P w1" by (intro exI [of _ "k_mdev (K w1) u"]) (simp add: set_mdev_def)
  have more: "?P v'" if "?P v" "K v' = set_mdev u y (K v)" for v v' y
    using that by (auto simp: set_mdev_def)
  obtain r2 w2 where s2: "Create (e_os env) u w1 = (r2, w2)" by (metis prod.exhaust)
  have P2: "?P w2" using Create_K [OF u s2] P1 more [OF P1] by (cases r2) auto
  obtain r3 w3 where s3: "assignMdevMatrix env u as ds w2 = (r3, w3)" by (metis prod.exhaust)
  obtain r4 w4 where s4: "assignMdevControlDomains env u mode ds w3 = (r4, w4)" by (metis prod.exhaust)
  have destroyed: "?P (destroyPartialMdev (e_os env) u v)" if "?P v" for v
  proof (cases "fst (Destroy (e_os env) u v)")
    case None
    then show ?thesis
      using Destroy_K [OF u, of v None] more [OF that] by (metis destroyPartialMdev_def prod.collapse)
  next
    case (Some e)
    then have "K (destroyPartialMdev (e_os env) u v) = K v"
      using Destroy_K [OF u, of v "Some e"] by (metis destroyPartialMdev_def option.distinct(1) prod.collapse)
    then show ?thesis using that by simp
  qed
  show ?thesis
  proof (cases r2)
    case None
    then have "k_mdev (K w2) u = Some empty_mdev" using Create_K [OF u s2] by (simp add: kstate_simps)
    then obtain m3 where K3: "K w3 = set_mdev u (Some m3) (K w2)" using assignMdevMatrix_any [OF _ s3] by blast
    have P3: "?P w3" using more [OF P2 K3] .
    have "k_mdev (K w3) u = Some m3" using K3 by (simp add: kstate_simps)
    then obtain m4 where "K w4 = set_mdev u (Some m4) (K w3)" using assignMdevControlDomains_any [OF _ s4] by blast
    then have P4: "?P w4" using more [OF P3] by blast
    show ?thesis
      using assms(2,3) s2 s3 s4 None destroyed [OF P3] destroyed [OF P4] P4
      by (cases r3; cases r4) (auto simp: build_mdev_def)
  next
    case (Some e)
    then show ?thesis using assms(2,3) s2 P2 by (simp add: build_mdev_def)
  qed
qed

end

section \<open>Prepare cut short\<close>

definition crash_env :: "'w env \<Rightarrow> ('w \<times> nat) env" where
  "crash_env env = \<lparr>e_os = crash_os (e_os env), e_gate = e_gate env, e_sha256 = e_sha256 env,
     e_order = e_order env, e_qorder = e_qorder env\<rparr>"

lemma crash_env_sel [simp]:
  "e_os (crash_env env) = crash_os (e_os env)" "e_order (crash_env env) = e_order env" "e_qorder (crash_env env) = e_qorder env"
  by (simp_all add: crash_env_def)

lemma node_env_crash: "node_env env K Q F \<Longrightarrow> node_env (crash_env env) (K \<circ> fst) Q (F \<circ> fst)"
  using node_crash by (auto simp: node_env_def node_env_axioms_def env_ok_def)

text \<open>What is left of the queues when a build or a whole \<open>Prepare\<close> is cut short.\<close>

definition salvaged :: "ctx \<Rightarrow> kstate \<Rightarrow> kstate \<Rightarrow> bool" where
  "salvaged ctx k k' \<longleftrightarrow> (\<exists>X. at_most_one X \<and> ((\<forall>i. ctx_Err ctx i = None) \<longrightarrow> X = {})
     \<and> (\<forall>p. p \<notin> X \<longrightarrow> returnable k p \<longrightarrow> returnable k' p))"

lemma salvaged_refl [simp]: "salvaged ctx k k"
  unfolding salvaged_def by (intro exI [of _ "{}"]) simp

lemma salvaged_set_mdev [simp]: "salvaged ctx k (set_mdev u x k') = salvaged ctx k k'"
  by (simp add: salvaged_def returnable_def shape_defs kstate_simps)

lemma build_mdev_crash:
  assumes ne: "node_env env K Q F" and u: "claim_uid u" and al: "set al \<subseteq> Q" "distinct al"
    and ok: "\<And>q v. q \<in> set al \<Longrightarrow> fst (SwitchToVFIOAP (e_os env) (APID q) (APQI q) v) = None"
    and zc: "\<And>q v. q \<in> Q \<Longrightarrow> fst (SwitchToZcrypt (e_os env) (APID q) (APQI q) v) = None"
    and none: "k_mdev (K w) u = None"
    and b: "build_mdev (crash_env env) ctx u mode (as, ds, al) (w, n) = (r, (w', n'))"
  shows "salvaged ctx (K w) (K w') \<and> (k_mdev (K w') u \<noteq> None \<longrightarrow> (\<forall>q \<in> set al. on_vfio (K w') q))"
proof -
  note ce = node_env_crash [OF ne]
  note bus = ap_node.axioms(1) [OF node.axioms(1) [OF node_env.axioms(1) [OF ne]]]
  obtain r1 w1 n1 where s1: "switchQueuesToVFIOAP (crash_env env) ctx al (w, n) = (r1, (w1, n1))" by (metis prod.exhaust)
  have keep: "salvaged ctx (K w) (K w1)"
    using switch_loop_crash [OF bus, of "[]" "e_qorder env al" ctx 1 w n r1 w1 n1] s1 al(1) ok zc
      node_env.e_qorder_set(1) [OF ne] by (simp add: switchQueuesToVFIOAP_def salvaged_def)
  have "differ_at (set al) (K w) (K w1)" using node_env.switchQueues_frame [OF ce al(1) s1] by simp
  then have none1: "k_mdev (K w1) u = None" using none by (simp add: differ_at_def)
  show ?thesis
  proof (cases r1)
    case None
    then obtain x where x: "K w' = set_mdev u x (K w1)" using node_env.build_mdev_rest [OF ce u _ b] s1 by auto
    have "\<forall>q \<in> set al. on_vfio (K w1) q" using node_env.switchQueues_ok [OF ce al] s1 None by auto
    then show ?thesis using x keep by (simp add: shape_defs kstate_simps)
  next
    case (Some e)
    then have "w' = w1" using b s1 by (simp add: build_mdev_def)
    then show ?thesis using keep none1 by simp
  qed
qed

lemma Prepare_crash_shape:
  assumes ne: "node_env env K Q F" and d: "state_dirs s" "claim_names_ok claim"
    and al: "allocated_set s (claim_results claim) \<subseteq> Q"
    and none: "k_mdev (K w) (claim_UID claim) = None"
    and ok: "\<And>q v. q \<in> allocated_set s (claim_results claim) \<Longrightarrow> fst (SwitchToVFIOAP (e_os env) (APID q) (APQI q) v) = None"
    and zc: "\<And>q v. q \<in> Q \<Longrightarrow> fst (SwitchToZcrypt (e_os env) (APID q) (APQI q) v) = None"
    and p: "Prepare (crash_env env) ctx s claim (w, n) = (r, (w', n'))"
  shows "salvaged ctx (K w) (K w')
     \<and> (k_mdev (K w') (claim_UID claim) \<noteq> None \<longrightarrow> (\<forall>q \<in> allocated_set s (claim_results claim). on_vfio (K w') q))"
proof -
  let ?u = "claim_UID claim" and ?S = "allocated_set s (claim_results claim)"
  let ?good = "\<lambda>v. salvaged ctx (K w) (K v) \<and> (k_mdev (K v) ?u \<noteq> None \<longrightarrow> (\<forall>q \<in> ?S. on_vfio (K v) q))"
  note ce = node_env_crash [OF ne]
  have u: "claim_uid ?u" using d(2) by (simp add: claim_names_ok_def)
  have ensured: "?good v" if e: "ensureMdevForClaim (crash_env env) ctx s (claim_results claim) ?u mode (w, n) = (x, (v, k))" for mode x v k
  proof (cases "collectAllocatedAPQNs s (claim_results claim)")
    case (Inl err)
    then show ?thesis using e none by (simp add: ensureMdevForClaim_def)
  next
    case (Inr c)
    obtain as ds xs where c: "c = (as, ds, xs)" by (cases c)
    note st = collectAllocatedAPQNs_sets [OF Inr [unfolded c]]
    have "\<not> Exists (crash_os (e_os env)) ?u (w, n)"
      using ap_node.Exists_iff [OF node.axioms(1) [OF node_env.axioms(1) [OF ce]] u, of "(w, n)"] none by simp
    then have b: "build_mdev (crash_env env) ctx ?u mode (as, ds, xs) (w, n) = (x, (v, k))"
      using e Inr c by (simp add: ensureMdevForClaim_def)
    show ?thesis using build_mdev_crash [OF ne u _ st(4) _ zc none b] st(1) al ok by simp
  qed
  show ?thesis
  proof (cases rule: node_env.Prepare_cases [OF ce d p, case_names unchanged failed built])
    case unchanged
    then show ?thesis using none by simp
  next
    case failed
    then show ?thesis using ensured by blast
  next
    case (built a cfg w1)
    then show ?thesis using ensured [of _ None "fst w1" "snd w1"] by simp
  qed
qed

section \<open>Properties\<close>

text \<open>
  C2. What a crash during \<open>Prepare\<close> can lose. Let the driver die after any number of the
  writes of a call for a claim that has no device yet, and let any of its writes but the
  queue switches fail besides; let the next start reconcile what it finds. Then, all but at
  most one queue of the claim are back on zcrypt with no override, or on vfio-ap in the
  claim's mediated device, which a retry recognises or rebuilds; and there is no exception
  unless the context of the call has ended, so that the driver died while it was rolling its
  switches back. No other claim's device has changed. The restarted driver is to be able to
  read the overrides and matrices and to give queues back.
\<close>

theorem Prepare_crash_recovery:
  assumes "node_env env K Q F" and "state_dirs s" and "claim_names_ok claim"
    and "allocated_set s (claim_results claim) \<subseteq> Q"
    and "k_mdev (K w) (claim_UID claim) = None"
    and "\<forall>q \<in> allocated_set s (claim_results claim). on_zcrypt (K w) q \<and> \<not> claimed (K w) q"
    and "\<And>q v. q \<in> allocated_set s (claim_results claim) \<Longrightarrow> fst (SwitchToVFIOAP (e_os env) (APID q) (APQI q) v) = None"
    and "Prepare (crash_env env) ctx s claim (w, n) = (r, (w', n'))"
    and "driver_dirs (c_CDIRoot cfg) (c_PluginDataDirectoryPath cfg)" and "listings_ok (e_os env) cfg w'"
    and "\<And>q. q \<in> Q \<Longrightarrow> drainable (e_os env) q" and "fst (DrainOrphanedVFIOAP (e_os env) w') = None"
    and "\<And>u m. k_mdev (K w') u = Some m \<Longrightarrow> \<exists>qs. ReadMatrix (e_os env) u w' = Inr qs"
  defines "w'' \<equiv> reconcile (e_os env) cfg w'"
  shows "(\<exists>X. at_most_one X \<and> ((\<forall>i. ctx_Err ctx i = None) \<longrightarrow> X = {})
        \<and> (\<forall>q \<in> allocated_set s (claim_results claim) - X.
             on_zcrypt (K w'') q \<or> on_vfio (K w'') q \<and> (\<exists>m. k_mdev (K w'') (claim_UID claim) = Some m \<and> q \<in> matrix_of m)))
      \<and> (\<forall>v. v \<noteq> claim_UID claim \<longrightarrow> k_mdev (K w'') v = k_mdev (K w) v)"
proof -
  let ?u = "claim_UID claim" and ?S = "allocated_set s (claim_results claim)" and ?os = "e_os env"
  note nd = node_env.axioms(1) [OF assms(1)]
  note an = node.axioms(1) [OF nd]
  have "fst (SwitchToZcrypt ?os (APID q) (APQI q) v) = None" if "q \<in> Q" for q v
    using assms(11) [OF that] by (simp add: drainable_def)
  note shape = Prepare_crash_shape [OF assms(1-5,7) this assms(8)]
  obtain X where X: "at_most_one X" "(\<forall>i. ctx_Err ctx i = None) \<longrightarrow> X = {}"
    "\<forall>p. p \<notin> X \<longrightarrow> returnable (K w) p \<longrightarrow> returnable (K w') p" using shape by (auto simp: salvaged_def)
  obtain v where v: "DrainOrphanedVFIOAP ?os w' = (None, v)" using assms(12) by (metis prod.collapse)
  have K: "K w'' = K v"
    using driver_node.reconcile_K [OF driver_nodeI [OF nd assms(9)] assms(10) refl refl] v
    by (simp add: w''_def after_drain_def)
  have fr: "differ_claim ?u ?S (K w) (K w')"
    using node_env.Prepare_K_frame [OF node_env_crash [OF assms(1)] assms(2-4,8)] by simp
  have mdevs: "k_mdev (K v) = k_mdev (K w')" using ap_node.drain_keeps_mdevs [OF an, of w'] v by simp
  note safe = ap_node.drain_frame [OF an assms(13) v]
  have "on_zcrypt (K v) q \<or> on_vfio (K v) q \<and> (\<exists>m. k_mdev (K v) ?u = Some m \<and> q \<in> matrix_of m)" if q: "q \<in> ?S" "q \<notin> X" for q
  proof (cases "claimed (K w') q")
    case True
    then obtain x m where m: "k_mdev (K w') x = Some m" "q \<in> matrix_of m" by (auto simp: claimed_def)
    have "x = ?u" using m fr assms(6) q(1) unfolding claimed_def differ_claim_def by metis
    then have "on_vfio (K w') q" using shape m q(1) by simp
    then show ?thesis using safe True m \<open>x = ?u\<close> mdevs by (auto simp: differ_at_def shape_defs)
  next
    case False
    have "returnable (K w) q" using assms(6) q(1) by (simp add: returnable_def)
    then have "returnable (K w') q" using X(3) q(2) by blast
    then show ?thesis
      using ap_node.drain_returns_marked [OF an assms(11) v _ False] assms(4) q(1) safe
      by (auto simp: returnable_def differ_at_def shape_defs)
  qed
  then have "\<forall>q \<in> ?S - X. on_zcrypt (K w'') q \<or> on_vfio (K w'') q \<and> (\<exists>m. k_mdev (K w'') ?u = Some m \<and> q \<in> matrix_of m)"
    unfolding K by blast
  moreover have "\<forall>v. v \<noteq> ?u \<longrightarrow> k_mdev (K w'') v = k_mdev (K w) v" using K mdevs fr by (simp add: differ_claim_def)
  ultimately show ?thesis using X(1,2) by blast
qed

lemma calm_forward: "q \<in> set sim_apqns \<Longrightarrow> fst (SwitchToVFIOAP calm_os (APID q) (APQI q) v) = None"
  using sim_apqns_wf [of q] queue_name_def [of q, symmetric]
  by (auto simp: SwitchToVFIOAP_def unbindQueue_def calm_os_def sim_write_def
      override_path_def target_simps apqn_of_name Let_def split: prod.splits if_splits)

text \<open>
  The driver dies after four writes: the first queue is on vfio-ap, the second has only the
  marker.
\<close>

theorem Prepare_crash_recovery_witness:
  "(\<exists>w'. fst (snd (Prepare (crash_env (env_of calm_os)) ctx_live st_sample claim_AC (w_fresh, 4))) = w'
     \<and> on_vfio (sim_K w') qC \<and> k_override (sim_K w') qA = ''vfio_ap''
     \<and> on_zcrypt (sim_K (reconcile calm_os cfg_node w')) qA \<and> on_zcrypt (sim_K (reconcile calm_os cfg_node w')) qC)"
proof -
  let ?x = "Prepare (crash_env (env_of calm_os)) ctx_live st_sample claim_AC (w_fresh, 4)"
  let ?w = "fst (snd ?x)"
  have x: "?x = (fst ?x, (?w, snd (snd ?x)))" by simp
  have nodev: "s_mdevs ?w = []" "s_mdevs (reconcile calm_os cfg_node ?w) = []" by code_simp+
  have "listings_ok calm_os cfg_node ?w" "fst (DrainOrphanedVFIOAP calm_os ?w) = None" by code_simp+
  moreover have "\<forall>q \<in> {qA, qC}. on_zcrypt (sim_K w_fresh) q \<and> \<not> claimed (sim_K w_fresh) q"
    using fresh_zcrypt by (auto simp: claimed_def sim_K_def w_fresh_def)
  moreover have "k_mdev (sim_K w_fresh) (claim_UID claim_AC) = None" by (simp add: sim_K_def w_fresh_def)
  moreover have "\<And>u m. k_mdev (sim_K ?w) u = Some m \<Longrightarrow> \<exists>qs. ReadMatrix calm_os u ?w = Inr qs"
    unfolding sim_K_def nodev by (simp split: if_splits)
  moreover have "\<And>q v. q \<in> {qA, qC} \<Longrightarrow> fst (SwitchToVFIOAP calm_os (APID q) (APQI q) v) = None"
    using calm_forward [OF sim_queue_members(1)] calm_forward [OF sim_queue_members(3)] by auto
  ultimately have "\<forall>q \<in> {qA, qC}. on_zcrypt (sim_K (reconcile calm_os cfg_node ?w)) q \<or>
      (\<exists>m. k_mdev (sim_K (reconcile calm_os cfg_node ?w)) (claim_UID claim_AC) = Some m)"
    using Prepare_crash_recovery [OF calm_env sample_ok(1,2) _ _ _ _ x restart_listings(2)] sample_queues
      sim_queue_members calm_drainable by (simp add: ctx_live_def) blast
  then have "\<forall>q \<in> {qA, qC}. on_zcrypt (sim_K (reconcile calm_os cfg_node ?w)) q"
    unfolding sim_K_def nodev by (simp split: if_splits)
  moreover have "on_vfio (sim_K ?w) qC" unfolding sim_shapes by code_simp
  moreover have "k_override (sim_K ?w) qA = ''vfio_ap''" unfolding sim_K_fields by code_simp
  ultimately show ?thesis by blast
qed

text \<open>
  The exception is real: the context ends after the first queue, and the driver dies in the
  rollback between the second and the third write. The queue stays without a driver and
  without the marker, also after the restart.
\<close>

lemma Prepare_crash_in_rollback:
  fixes x defines "x \<equiv> fst (snd (Prepare (crash_env (env_of calm_os)) ctx_short st_sample claim_AC (w_fresh, 5)))"
  shows "\<not> recoverable (sim_K x) qC" and "\<not> recoverable (sim_K (reconcile calm_os cfg_node x)) qC"
  unfolding x_def sim_shapes by code_simp+

text \<open>
  C3. The way back has one crash point that is not covered. A driver that dies while it gives a
  queue back leaves it recoverable exactly unless it dies between the second and the third
  write, when the marker has been cleared and the probe has not been sent: the queue is then
  bound to no driver and carries no marker, and the drain of the next start leaves it so.
\<close>

theorem SwitchToZcrypt_crash_window:
  assumes "ap_node os K Q" and "q \<in> Q" and "on_vfio (K w) q"
    and "fst (SwitchToZcrypt os (APID q) (APQI q) w) = None"
    and "SwitchToZcrypt (crash_os os) (APID q) (APQI q) (w, n) = (r, (w', n'))"
  shows "(recoverable (K w') q \<longleftrightarrow> n \<noteq> 2)
      \<and> (n = 2 \<longrightarrow> \<not> recoverable (K (snd (DrainOrphanedVFIOAP os w'))) q)"
proof -
  note bus = ap_node.axioms(1) [OF assms(1)]
  let ?id = "queue_name q" and ?p = "driverOverridePath (APID q) (APQI q)"
  obtain r1 w1 where s1: "os_WriteFile os (deviceUnbindPath (APID q) (APQI q)) ?id sysfsWriteMode w = (r1, w1)" by (metis prod.exhaust)
  obtain r2 w2 where s2: "os_WriteFile os ?p [nl] sysfsWriteMode w1 = (r2, w2)" by (metis prod.exhaust)
  obtain r3 w3 where s3: "os_WriteFile os DriversProbePath ?id sysfsWriteMode w2 = (r3, w3)" by (metis prod.exhaust)
  note defs = SwitchToZcrypt_def unbindQueue_def Let_def queue_name_def
  have r1: "r1 = None"
    using assms(3,4) s1 ap_bus.unbind_enoent [OF bus assms(2), of sysfsWriteMode w _ w1]
    by (auto simp: defs shape_defs split: option.splits if_splits)
  have r23: "r2 = None" "r3 = None"
    using assms(4) s1 s2 s3 r1 by (auto simp: defs split: option.splits prod.splits)
  have K1: "K w1 = set_driver q [] (K w)" using ap_bus.unbind_write [OF bus assms(2) s1] r1 by simp
  have K2: "K w2 = set_override q [] (K w1)"
    using ap_bus.override_write [OF bus assms(2) s2] r23 by (simp add: TrimSpace_def is_space_def)
  have K3: "K w3 = probe_queue q (K w2)"
    using ap_bus.probe_write [OF bus assms(2) _ s3] r23 by (simp add: K2 kstate_simps)
  consider "n = 0" | "n = 1" | "n = 2" | m where "n = Suc (Suc (Suc m))"
    by (metis One_nat_def Suc_1 not0_implies_Suc)
  then have "w' = (if n = 0 then w else if n = 1 then w1 else if n = 2 then w2 else w3)"
    using assms(5) s1 s2 s3 r1 r23 by cases (auto simp: defs dying_alive numeral_2_eq_2)
  then have rec: "recoverable (K w') q \<longleftrightarrow> n \<noteq> 2"
    using assms(3) by (auto simp: K1 K2 K3 probe_queue_def shape_defs kstate_simps)
  have "\<not> recoverable (K (snd (DrainOrphanedVFIOAP os w'))) q" if "n = 2"
    using ap_node.drain_leaves_unmarked [OF assms(1), of w' q] rec that by (simp add: recoverable_def)
  with rec show ?thesis by simp
qed

theorem SwitchToZcrypt_crash_window_witness:
  "recoverable (sim_K (fst (snd (SwitchToZcrypt (crash_os calm_os) ''01'' ''0003'' (w_orphan, 1))))) qB
   \<and> \<not> recoverable (sim_K (fst (snd (SwitchToZcrypt (crash_os calm_os) ''01'' ''0003'' (w_orphan, 2))))) qB
   \<and> \<not> recoverable (sim_K (snd (DrainOrphanedVFIOAP calm_os
        (fst (snd (SwitchToZcrypt (crash_os calm_os) ''01'' ''0003'' (w_orphan, 2))))))) qB"
proof -
  let ?x = "\<lambda>n. SwitchToZcrypt (crash_os calm_os) ''01'' ''0003'' (w_orphan, n)"
  have "on_vfio (sim_K w_orphan) qB" unfolding sim_shapes by code_simp
  moreover have "fst (SwitchToZcrypt calm_os ''01'' ''0003'' w_orphan) = None" by code_simp
  ultimately have "(recoverable (sim_K (fst (snd (?x n)))) qB \<longleftrightarrow> n \<noteq> 2)
      \<and> (n = 2 \<longrightarrow> \<not> recoverable (sim_K (snd (DrainOrphanedVFIOAP calm_os (fst (snd (?x n)))))) qB)" for n
    using SwitchToZcrypt_crash_window [OF calm_node sim_queue_members(2), of w_orphan n "fst (?x n)" "fst (snd (?x n))" "snd (snd (?x n))"]
    by simp
  from this [of 1] this [of 2] show ?thesis by simp
qed

end
