(* ===== verification/Shutdown.thy ===== *)
theory Shutdown
  imports Driver_Props
begin

text \<open>
  The end of a run: \<open>Shutdown\<close> of \<open>driver.go\<close> as the main goroutine calls it in
  \<open>main.go\<close> once the context is cancelled, beside the scan loop and the claim calls that
  may still be going on.

  The steps of the scan loop and of the claim calls are those of \<open>step\<close>; a step of the
  scan loop is one that moves its program counter. What the relation adds is what they wait
  for: the loop leaves its \<open>select\<close> by \<open>ctx.Done()\<close> only when the context is cancelled,
  and claims are handled only until \<open>helper.Stop()\<close> has returned, which ends the goroutines
  of the helper (documented behaviour of the library). When several cases of a \<open>select\<close>
  are ready Go takes any of them, so a cancelled loop may still begin a scan when a tick or
  a request is there. The ticker fires again and again, so nothing bounds how often it does so:
  each step carries a flag that says whether it takes a tick, and the bounds on runs below
  count the ticks a run has taken.
\<close>









section \<open>How the scan loop moves\<close>








section \<open>The run as a whole\<close>










section \<open>Property\<close>



end
