(* ===== verification/Preflight.thy ===== *)
theory Preflight
  imports Sysfs Mdev Features "HOL-Library.Multiset"
begin

text \<open>
  \<open>internal/preflight\<close>: the prerequisite checks at startup (\<open>preflight.go\<close>,
  \<open>checks.go\<close>). The environment variable, \<open>uname\<close> and the feature gate are arguments; the
  detail of a check is an error value where the code prints one. A body that panics gives
  \<open>Inl\<close> of the panic value.
\<close>

section \<open>preflight.go: types\<close>

datatype Severity = SeverityWarn | SeverityError
datatype Status = StatusOK | StatusWarn | StatusError

type_synonym detail = "goerr option"

record 'w check =
  ck_name :: string
  ck_severity :: Severity
  ck_body :: "'w \<Rightarrow> string + Status \<times> detail"
  ck_gate :: string

section \<open>checks.go\<close>

definition sysBusAPPath :: string where "sysBusAPPath = ''/sys/bus/ap''"
definition sysClassMdevBusPath :: string where "sysClassMdevBusPath = ''/sys/class/mdev_bus''"
definition apQueueDirGlob :: string where "apQueueDirGlob = ''/sys/bus/ap/devices/card*/*.*''"

definition checkPathPresent :: "'w os \<Rightarrow> string \<Rightarrow> 'w \<Rightarrow> Status \<times> detail" where
  "checkPathPresent os path w =
     (case os_Stat os path w of
        Some err \<Rightarrow> (StatusError, Some (if os_IsNotExist err then Errorf ''path does not exist'' [] else err))
      | None \<Rightarrow> (StatusOK, None))"

definition checkVFIOAPMatrix :: "'w os \<Rightarrow> 'w \<Rightarrow> Status \<times> detail" where
  "checkVFIOAPMatrix os w =
     (case os_Stat os VFIOAPMatrixPath w of
        Some err \<Rightarrow> (StatusError, Some (if os_IsNotExist err then Errorf ''matrix path missing - load vfio_ap kernel module'' [] else err))
      | None \<Rightarrow> (StatusOK, None))"

definition unixString :: "string \<Rightarrow> string" where
  "unixString b = takeWhile (\<lambda>c. c \<noteq> CHR 0x00) b"

text \<open>For diagnosis only; the text of a \<open>uname\<close> error is left out.\<close>

definition kernelRelease :: "goerr + string \<Rightarrow> farg list" where
  "kernelRelease uname = (case uname of Inl err \<Rightarrow> [FStr ''uname failed''] | Inr release \<Rightarrow> [FStr (unixString release)])"

definition checkDriverOverride :: "goerr + string \<Rightarrow> 'w os \<Rightarrow> 'w \<Rightarrow> Status \<times> detail" where
  "checkDriverOverride uname os w =
     (case os_Glob os apQueueDirGlob w of
        Inl err \<Rightarrow> (StatusError, Some err)
      | Inr [] \<Rightarrow> (StatusWarn, Some (Errorf ''no AP queues to probe, kernel %s'' (kernelRelease uname)))
      | Inr (queueDir # _) \<Rightarrow>
          (let override = Join [queueDir, ''driver_override''] in
           case os_Stat os override w of
             Some err \<Rightarrow>
               (StatusError, Some (if os_IsNotExist err
                  then Errorf ''no driver_override under %s, kernel %s lacks AP-bus driver_override'' (FStr queueDir # kernelRelease uname)
                  else err))
           | None \<Rightarrow> (StatusOK, Some (Errorf ''%s, kernel %s'' (FStr override # kernelRelease uname)))))"

definition maskResetCmd :: string where
  "maskResetCmd = ''chzdev --type ap apmask=+0x00-0xff aqmask=+0x00-0xff''"

definition maskAllOnes :: "string \<Rightarrow> bool" where
  "maskAllOnes m =
     (let digits = TrimPrefix (TrimPrefix m ''0x'') ''0X'' in
      digits \<noteq> [] \<and> list_all (\<lambda>c. c = CHR ''f'' \<or> c = CHR ''F'') digits)"

definition truncateMask :: "string \<Rightarrow> string" where
  "truncateMask m = (if length m \<le> 18 then m else take 18 m @ ''...'')"

definition checkZcryptMasks :: "'w os \<Rightarrow> 'w \<Rightarrow> Status \<times> detail" where
  "checkZcryptMasks os w =
     (case ReadCurrentMasks os w of
        Inl err \<Rightarrow> (StatusError, Some (Wrapf ''cannot read masks: %v'' [] err))
      | Inr (ap, aq) \<Rightarrow>
          if \<not> maskAllOnes ap \<or> \<not> maskAllOnes aq
          then (StatusError, Some (Errorf ''apmask=%s aqmask=%s - a mask that is not all-1s makes every driver_override write fail with EINVAL; reset with: %s''
                  [FStr (truncateMask ap), FStr (truncateMask aq), FStr maskResetCmd]))
          else (StatusOK, Some (Errorf ''apmask=%s aqmask=%s'' [FStr (truncateMask ap), FStr (truncateMask aq)])))"

definition preflight_registry :: "goerr + string \<Rightarrow> 'w os \<Rightarrow> 'w check list" where
  "preflight_registry uname os =
     [\<lparr>ck_name = ''/sys/bus/ap present'', ck_severity = SeverityError,
       ck_body = (\<lambda>w. Inr (checkPathPresent os sysBusAPPath w)), ck_gate = []\<rparr>,
      \<lparr>ck_name = ''vfio_ap loaded (/sys/devices/vfio_ap/matrix present)'', ck_severity = SeverityError,
       ck_body = (\<lambda>w. Inr (checkVFIOAPMatrix os w)), ck_gate = VirtualMachineWorkload\<rparr>,
      \<lparr>ck_name = ''mdev support (/sys/class/mdev_bus present)'', ck_severity = SeverityError,
       ck_body = (\<lambda>w. Inr (checkPathPresent os sysClassMdevBusPath w)), ck_gate = VirtualMachineWorkload\<rparr>,
      \<lparr>ck_name = ''driver_override on AP queues'', ck_severity = SeverityError,
       ck_body = (\<lambda>w. Inr (checkDriverOverride uname os w)), ck_gate = []\<rparr>,
      \<lparr>ck_name = ''zcrypt masks all-1s (driver_override precondition)'', ck_severity = SeverityError,
       ck_body = (\<lambda>w. Inr (checkZcryptMasks os w)), ck_gate = []\<rparr>]"

section \<open>preflight.go: the run\<close>

text \<open>\<open>raw\<close> is the value of the variable, empty when it is not set: skip mode, and whether the value is recognized.\<close>

definition skipModeFromEnv :: "string \<Rightarrow> bool \<times> bool" where
  "skipModeFromEnv raw =
     (if raw = [] then (False, True)
      else if ToLower (TrimSpace raw) \<in> set [''1'', ''true'', ''yes''] then (True, True)
      else (False, False))"

definition mapSeverity :: "Status \<Rightarrow> Severity \<Rightarrow> Status" where
  "mapSeverity reported sev = (if reported = StatusError \<and> sev = SeverityWarn then StatusWarn else reported)"

definition runOne :: "'w check \<Rightarrow> 'w \<Rightarrow> Status \<times> detail" where
  "runOne c w =
     (case ck_body c w of
        Inl r \<Rightarrow> (StatusError, Some (Errorf ''panic: %v'' [FStr r]))
      | Inr (s, d) \<Rightarrow> (mapSeverity s (ck_severity c), d))"

text \<open>The skipped checks by gate, in the order the gates first occur.\<close>

fun add_skip :: "string \<Rightarrow> string \<Rightarrow> string list gomap \<Rightarrow> string list gomap" where
  "add_skip gate name [] = [(gate, [name])]"
| "add_skip gate name ((g, ns) # skipped) =
     (if g = gate then (g, ns @ [name]) # skipped else (g, ns) # add_skip gate name skipped)"

fun partition_loop :: "(string \<Rightarrow> bool) \<Rightarrow> 'w check list \<Rightarrow> 'w check list \<Rightarrow> string list gomap \<Rightarrow> 'w check list \<times> string list gomap" where
  "partition_loop gate [] active skipped = (active, skipped)"
| "partition_loop gate (c # cs) active skipped =
     (if ck_gate c = [] \<or> gate (ck_gate c) then partition_loop gate cs (active @ [c]) skipped
      else partition_loop gate cs active (add_skip (ck_gate c) (ck_name c) skipped))"

definition partitionByGate :: "(string \<Rightarrow> bool) \<Rightarrow> 'w check list \<Rightarrow> 'w check list \<times> string list gomap" where
  "partitionByGate gate checks = partition_loop gate checks [] []"

text \<open>The report: one line per check, the lines for the skipped gates, and the counts.\<close>

record preflight_report =
  rp_skipped :: "string list gomap"
  rp_lines :: "(string \<times> Status \<times> detail) list"
  rp_ok :: nat
  rp_warn :: nat
  rp_error :: nat

fun run_checks :: "bool \<Rightarrow> 'w check list \<Rightarrow> 'w \<Rightarrow> preflight_report \<Rightarrow> preflight_report" where
  "run_checks skip [] w rep = rep"
| "run_checks skip (c # cs) w rep =
     (case runOne c w of (status0, detail) \<Rightarrow>
        (let status = (if status0 = StatusError \<and> skip then StatusWarn else status0);
             rep1 = (case status of
                       StatusOK \<Rightarrow> rep\<lparr>rp_ok := rp_ok rep + 1\<rparr>
                     | StatusWarn \<Rightarrow> rep\<lparr>rp_warn := rp_warn rep + 1\<rparr>
                     | StatusError \<Rightarrow> rep\<lparr>rp_error := rp_error rep + 1\<rparr>)
         in run_checks skip cs w (rep1\<lparr>rp_lines := rp_lines rep @ [(ck_name c, status, detail)]\<rparr>)))"

text \<open>The error is the number of failed checks of \<open>FatalError\<close>.\<close>

definition Run :: "string \<Rightarrow> (string \<Rightarrow> bool) \<Rightarrow> 'w check list \<Rightarrow> 'w \<Rightarrow> nat option \<times> preflight_report" where
  "Run raw gate checks w =
     (case (skipModeFromEnv raw, partitionByGate gate checks) of
        ((skip, recognized), (active, skipped)) \<Rightarrow>
          (let rep = run_checks skip active w \<lparr>rp_skipped = skipped, rp_lines = [], rp_ok = 0, rp_warn = 0, rp_error = 0\<rparr>
           in (if \<not> skip \<and> rp_error rep > 0 then Some (rp_error rep) else None, rep)))"

section \<open>Properties\<close>

lemma run_checks_counts:
  "rp_error (run_checks skip cs w rep) = rp_error rep + length (filter (\<lambda>c. \<not> skip \<and> fst (runOne c w) = StatusError) cs)
   \<and> rp_ok (run_checks skip cs w rep) + rp_warn (run_checks skip cs w rep) + rp_error (run_checks skip cs w rep)
     = rp_ok rep + rp_warn rep + rp_error rep + length cs
   \<and> map fst (rp_lines (run_checks skip cs w rep)) = map fst (rp_lines rep) @ map ck_name cs
   \<and> rp_skipped (run_checks skip cs w rep) = rp_skipped rep"
proof (induction cs arbitrary: rep)
  case (Cons c cs)
  obtain s d where o: "runOne c w = (s, d)" by (metis prod.exhaust)
  have "\<exists>rep1. run_checks skip (c # cs) w rep = run_checks skip cs w rep1
      \<and> rp_error rep1 = rp_error rep + (if \<not> skip \<and> s = StatusError then 1 else 0)
      \<and> rp_ok rep1 + rp_warn rep1 + rp_error rep1 = rp_ok rep + rp_warn rep + rp_error rep + 1
      \<and> map fst (rp_lines rep1) = map fst (rp_lines rep) @ [ck_name c] \<and> rp_skipped rep1 = rp_skipped rep"
    by (cases s; cases skip) (force simp: o Let_def)+
  then obtain rep1 where r: "run_checks skip (c # cs) w rep = run_checks skip cs w rep1"
      "rp_error rep1 = rp_error rep + (if \<not> skip \<and> s = StatusError then 1 else 0)"
      "rp_ok rep1 + rp_warn rep1 + rp_error rep1 = rp_ok rep + rp_warn rep + rp_error rep + 1"
      "map fst (rp_lines rep1) = map fst (rp_lines rep) @ [ck_name c]" "rp_skipped rep1 = rp_skipped rep" by blast
  show ?case unfolding r(1) using Cons.IH [of rep1] r(2-5) o by auto
qed simp

lemma partition_loop_active: "fst (partition_loop gate cs act sk) = act @ filter (\<lambda>c. ck_gate c = [] \<or> gate (ck_gate c)) cs"
  by (induction cs arbitrary: act sk) auto

lemma add_skip_mset: "mset (concat (map snd (add_skip g n sk))) = mset (concat (map snd sk)) + {#n#}"
  by (induction sk) auto

text \<open>Every check is either run, with its own line, or named under its disabled gate.\<close>

lemma partition_complete:
  "mset (map ck_name (fst (partition_loop gate cs act sk))) + mset (concat (map snd (snd (partition_loop gate cs act sk))))
   = mset (map ck_name act) + mset (concat (map snd sk)) + mset (map ck_name cs)"
  by (induction cs arbitrary: act sk) (auto simp: add_skip_mset)

lemma Run_complete:
  assumes "Run raw gate checks w = (res, rep)"
  shows "mset (map fst (rp_lines rep)) + mset (concat (map snd (rp_skipped rep))) = mset (map ck_name checks)
    \<and> rp_ok rep + rp_warn rep + rp_error rep = length (rp_lines rep)"
proof -
  let ?p = "partition_loop gate checks [] []"
  let ?rep0 = "\<lparr>rp_skipped = snd ?p, rp_lines = [], rp_ok = 0, rp_warn = 0, rp_error = 0\<rparr>"
  have r: "rep = run_checks (fst (skipModeFromEnv raw)) (fst ?p) w ?rep0"
    using assms by (auto simp: Run_def partitionByGate_def Let_def split: prod.splits)
  note c = run_checks_counts [of "fst (skipModeFromEnv raw)" "fst ?p" w ?rep0]
  have l: "map fst (rp_lines rep) = map ck_name (fst ?p)" using c unfolding r by simp
  then have "length (rp_lines rep) = length (fst ?p)" by (metis length_map)
  then show ?thesis using c partition_complete [of gate checks "[]" "[]"] l unfolding r by simp
qed

lemma Run_verdict:
  "fst (Run raw gate checks w) = None \<longleftrightarrow> fst (skipModeFromEnv raw) \<or>
     (\<forall>c \<in> set checks. ck_gate c = [] \<or> gate (ck_gate c) \<longrightarrow> fst (runOne c w) \<noteq> StatusError)"
proof -
  let ?skip = "fst (skipModeFromEnv raw)" and ?p = "partition_loop gate checks [] []"
  let ?rep = "run_checks ?skip (fst ?p) w \<lparr>rp_skipped = snd ?p, rp_lines = [], rp_ok = 0, rp_warn = 0, rp_error = 0\<rparr>"
  have "fst (Run raw gate checks w) = (if \<not> ?skip \<and> rp_error ?rep > 0 then Some (rp_error ?rep) else None)"
    by (cases ?skip) (simp_all add: Run_def partitionByGate_def Let_def split_beta)
  then have "fst (Run raw gate checks w) = None \<longleftrightarrow> ?skip \<or> filter (\<lambda>c. fst (runOne c w) = StatusError) (fst ?p) = []"
    using run_checks_counts [of ?skip "fst ?p" w] by (cases ?skip) simp_all
  then show ?thesis by (auto simp: partition_loop_active filter_empty_conv)
qed

text \<open>
  C38. What the preflight phase demands of a node: unless skipping was asked for, the driver
  starts exactly when the AP bus is there, when virtual machines are served also the
  vfio_ap matrix and the mdev bus, the first queue (if there is any) has
  \<open>driver_override\<close>, and both masks can be read and are all ones. A disabled path demands
  nothing.
\<close>

theorem preflight_passes_iff:
  "fst (Run raw gate (preflight_registry uname os) w) = None \<longleftrightarrow> fst (skipModeFromEnv raw) \<or>
     os_Stat os sysBusAPPath w = None
     \<and> (gate VirtualMachineWorkload \<longrightarrow> os_Stat os VFIOAPMatrixPath w = None \<and> os_Stat os sysClassMdevBusPath w = None)
     \<and> (case os_Glob os apQueueDirGlob w of Inl err \<Rightarrow> False | Inr [] \<Rightarrow> True
         | Inr (q # qs) \<Rightarrow> os_Stat os (Join [q, ''driver_override'']) w = None)
     \<and> (case ReadCurrentMasks os w of Inl err \<Rightarrow> False | Inr (ap, aq) \<Rightarrow> maskAllOnes ap \<and> maskAllOnes aq)"
proof -
  have p: "fst (checkPathPresent os path w) \<noteq> StatusError \<longleftrightarrow> os_Stat os path w = None" for path
    by (simp add: checkPathPresent_def split: option.split)
  have v: "fst (checkVFIOAPMatrix os w) \<noteq> StatusError \<longleftrightarrow> os_Stat os VFIOAPMatrixPath w = None"
    by (simp add: checkVFIOAPMatrix_def split: option.split)
  have d: "fst (checkDriverOverride uname os w) \<noteq> StatusError \<longleftrightarrow>
      (case os_Glob os apQueueDirGlob w of Inl err \<Rightarrow> False | Inr [] \<Rightarrow> True
         | Inr (q # qs) \<Rightarrow> os_Stat os (Join [q, ''driver_override'']) w = None)"
    by (simp add: checkDriverOverride_def Let_def split: sum.split list.split option.split)
  have z: "fst (checkZcryptMasks os w) \<noteq> StatusError \<longleftrightarrow>
      (case ReadCurrentMasks os w of Inl err \<Rightarrow> False | Inr (ap, aq) \<Rightarrow> maskAllOnes ap \<and> maskAllOnes aq)"
    by (simp add: checkZcryptMasks_def split: sum.split prod.split)
  have one: "fst (runOne \<lparr>ck_name = n, ck_severity = SeverityError, ck_body = (\<lambda>w. Inr (f w)), ck_gate = g\<rparr> w) = fst (f w)" for n f g
    by (simp add: runOne_def mapSeverity_def split: prod.split)
  have "VirtualMachineWorkload \<noteq> []" by (simp add: VirtualMachineWorkload_def)
  then show ?thesis
    unfolding Run_verdict preflight_registry_def by (simp add: one p v d z) blast
qed

text \<open>A node without vfio_ap that serves containers only, its masks in the kernel's form.\<close>

definition w_node :: "string gomap" where
  "w_node = [(''/sys/bus/ap/apmask'', ''0xffff'' @ [nl]), (''/sys/bus/ap/aqmask'', ''0xffff'' @ [nl])]"

theorem preflight_passes_iff_witness:
  "fst (Run [] (\<lambda>g. g \<noteq> VirtualMachineWorkload) (preflight_registry (Inr ''6.8'') mem_os) w_node) = None
   \<and> fst (Run [] (\<lambda>g. True) (preflight_registry (Inr ''6.8'') mem_os) w_node) \<noteq> None"
proof -
  have "os_Stat mem_os sysBusAPPath w_node = None" "os_Stat mem_os VFIOAPMatrixPath w_node \<noteq> None" "os_Glob mem_os apQueueDirGlob w_node = Inr []"
    "ReadCurrentMasks mem_os w_node = Inr (''0xffff'', ''0xffff'')" "maskAllOnes ''0xffff''" "\<not> fst (skipModeFromEnv [])"
    by code_simp+
  then show ?thesis
    using preflight_passes_iff [of "[]" "\<lambda>g. g \<noteq> VirtualMachineWorkload" "Inr ''6.8''" mem_os w_node]
      preflight_passes_iff [of "[]" "\<lambda>g. True" "Inr ''6.8''" mem_os w_node] by simp
qed

end
