(* ===== verification/Version.thy ===== *)
theory Version
  imports Go_Prelude
begin

text \<open>
  \<open>internal/version/version.go\<close>. The stamp of the linker and the build information of the
  Go runtime are arguments; \<open>None\<close> is a binary without build information.
\<close>

record BuildInfo =
  bi_Settings :: "(string \<times> string) list"
  bi_MainVersion :: string

text \<open>The loop over the settings; the last setting of a key counts.\<close>

fun vcs_settings :: "(string \<times> string) list \<Rightarrow> string \<times> string \<Rightarrow> string \<times> string" where
  "vcs_settings [] acc = acc"
| "vcs_settings ((key, v) # ss) (revision, modified) =
     vcs_settings ss (if key = ''vcs.revision'' then (v, modified)
                      else if key = ''vcs.modified'' then (revision, v) else (revision, modified))"

definition Get :: "string \<Rightarrow> BuildInfo option \<Rightarrow> string" where
  "Get version info =
     (if version \<noteq> [] then version
      else (case info of
              None \<Rightarrow> ''unknown''
            | Some bi \<Rightarrow>
                (case vcs_settings (bi_Settings bi) ([], []) of (revision, modified) \<Rightarrow>
                   if revision \<noteq> [] then
                     (let r = (if length revision > 12 then take 12 revision else revision) in
                      if modified = ''true'' then ''git-'' @ r @ ''-dirty'' else ''git-'' @ r)
                   else if bi_MainVersion bi \<noteq> [] \<and> bi_MainVersion bi \<noteq> ''(devel)'' then bi_MainVersion bi
                   else ''unknown'')))"

text \<open>The version is never empty, and a revision never makes it longer than 22 bytes.\<close>

lemma Get_never_empty: "Get version info \<noteq> []"
  by (auto simp: Get_def Let_def split: option.split prod.split)

lemma Get_revision_bounded:
  "fst (vcs_settings (bi_Settings bi) ([], [])) \<noteq> [] \<Longrightarrow> length (Get [] (Some bi)) \<le> 22"
  by (auto simp: Get_def Let_def split: prod.split)

end
