(* ===== verification/Startup.thy ===== *)
theory Startup
  imports Driver Preflight Version
begin

text \<open>
  \<open>cmd/cex-dra-kubeletplugin/main.go\<close>: what the process does from the parsed command line
  to its exit code. Flag parsing and the Kubernetes client are library code: the flags are
  a record, and what the client constructors answer is part of \<open>system\<close>, with the other
  things the process asks its surroundings: environment variable, kernel release, host
  name, listener, clock. \<open>sys_cause\<close> is the cause with which the context ends once the
  driver runs, \<open>sys_meanwhile\<close> what the other goroutines do to the node from where the main
  goroutine waits or they end the process, and \<open>sys_watch_runs\<close> says whether the scheduler
  lets the watchdog begin before the main goroutine is through.
\<close>

definition DriverName :: string where "DriverName = ''cex-driver.ibm.com''"

record Flags =
  f_nodeName :: string
  f_machineID :: string
  f_sysinfoPath :: string
  f_kubeconfig :: string
  f_kubeletRegistrarDirectoryPath :: string
  f_kubeletPluginsDirectoryPath :: string
  f_scanInterval :: int
  f_healthcheckPort :: int
  f_cdiRoot :: string
  f_featureGates :: string

record 'w system =
  sys_env :: "'w env"
  sys_helper :: "'w helper"
  sys_gate_order :: "string list \<Rightarrow> string list"
  sys_skip_preflight :: string
  sys_uname :: "goerr + string"
  sys_Hostname :: "goerr + string"
  sys_InClusterConfig :: "goerr + string"
  sys_BuildConfigFromFlags :: "string \<Rightarrow> goerr + string"
  sys_NewForConfig :: "string \<Rightarrow> goerr option"
  sys_listen :: "string \<Rightarrow> goerr + string"
  sys_now :: int
  sys_cause :: goerr
  sys_meanwhile :: "'w \<Rightarrow> 'w"
  sys_watch_runs :: bool

text \<open>
  How a run fails: with the preflight error, which has its own exit code, with any other
  error, or by a panic of one of its goroutines.
\<close>

datatype app_error = FatalError nat | AppError goerr | Panicked

definition validateWorkloadGates :: "(string \<Rightarrow> bool) \<Rightarrow> goerr option" where
  "validateWorkloadGates gate =
     (if \<not> gate VirtualMachineWorkload \<and> \<not> gate ContainerWorkload
      then Some (Errorf ''no workload path enabled: %s=false and %s=false leave the driver nothing to serve, so enable at least one''
                  [FStr VirtualMachineWorkload, FStr ContainerWorkload])
      else None)"

text \<open>\<open>validation.IsDNS1123Label\<close>: at most 63 bytes that match \<open>[a-z0-9]([-a-z0-9]*[a-z0-9])?\<close>.\<close>

definition is_lalnum :: "char \<Rightarrow> bool" where
  "is_lalnum c \<longleftrightarrow> CHR ''a'' \<le> c \<and> c \<le> CHR ''z'' \<or> is_digit c"

definition IsDNS1123Label :: "string \<Rightarrow> bool" where
  "IsDNS1123Label s \<longleftrightarrow> length s \<le> 63 \<and> s \<noteq> [] \<and> is_lalnum (hd s) \<and> is_lalnum (last s)
     \<and> list_all (\<lambda>c. is_lalnum c \<or> c = CHR ''-'') s"

definition maxMachineIDLen :: nat where
  "maxMachineIDLen = 63 - length ''-xx-yyyy''"

definition validateMachineID :: "string \<Rightarrow> goerr option" where
  "validateMachineID machineID =
     (if machineID = [] then None
      else if length machineID > maxMachineIDLen
      then Some (Errorf ''--machine-id %q is %d characters, at most %d fit a device name: the API caps names at 63 and the adapter-domain suffix takes 8''
                  [FStr machineID, FInt (int (length machineID)), FInt (int maxMachineIDLen)])
      else if \<not> IsDNS1123Label machineID
      then Some (Errorf ''--machine-id %q is not a DNS-1123 label, which device names must be: %s'' [FStr machineID])
      else None)"

definition newKubeClient :: "'w system \<Rightarrow> string \<Rightarrow> goerr option" where
  "newKubeClient sys kubeconfig =
     (case (if kubeconfig = [] then
              (case sys_InClusterConfig sys of
                 Inl err \<Rightarrow> Inl (Errorf ''create in-cluster client configuration: %v'' [])
               | Inr c \<Rightarrow> Inr c)
            else
              (case sys_BuildConfigFromFlags sys kubeconfig of
                 Inl err \<Rightarrow> Inl (Errorf ''create out-of-cluster client configuration: %v'' [])
               | Inr c \<Rightarrow> Inr c)) of
        Inl err \<Rightarrow> Some err
      | Inr csconfig \<Rightarrow>
          (case sys_NewForConfig sys csconfig of
             Some err \<Rightarrow> Some (Errorf ''create core client: %v'' [])
           | None \<Rightarrow> None))"

definition pluginPath :: "string \<Rightarrow> string" where
  "pluginPath kubeletPluginsDir = Join [kubeletPluginsDir, DriverName]"

definition driver_config :: "'w system \<Rightarrow> Flags \<Rightarrow> Config" where
  "driver_config sys flags =
     \<lparr>c_DriverName = DriverName, c_NodeName = f_nodeName flags, c_MachineID = f_machineID flags,
      c_SysinfoPath = f_sysinfoPath flags, c_ScanInterval = f_scanInterval flags,
      c_Heartbeat = NewHeartbeat (sys_now sys),
      c_KubeletRegistrarDirectoryPath = f_kubeletRegistrarDirectoryPath flags,
      c_PluginDataDirectoryPath = pluginPath (f_kubeletPluginsDirectoryPath flags),
      c_CDIRoot = f_cdiRoot flags\<rparr>"

text \<open>\<open>errors.Is(err, context.Canceled)\<close>.\<close>

fun errors_Is_Canceled :: "goerr \<Rightarrow> bool" where
  "errors_Is_Canceled (CtxError e) = (e = Canceled)"
| "errors_Is_Canceled (Wrapf _ _ e) = errors_Is_Canceled e"
| "errors_Is_Canceled _ = False"

text \<open>
  Two goroutines can end the process behind the back of the main one, when \<open>time.NewTicker\<close>
  gets a duration that is not positive: the watchdog, started once the health service is up
  and then concurrent to the rest, and the scan loop. Nothing waits for the watchdog, so
  that a main goroutine that is quick to return may forestall it; the scan loop is waited
  for in \<open>Shutdown\<close> and panics in any case. Serving claims and the loop's cycles are the
  steps of \<open>Driver_Props\<close>.
\<close>

definition runPlugin :: "'w system \<Rightarrow> 'w env \<Rightarrow> Flags \<Rightarrow> 'w \<Rightarrow> app_error option \<times> 'w" where
  "runPlugin sys env flags w =
     (case os_MkdirAll (e_os env) (pluginPath (f_kubeletPluginsDirectoryPath flags)) 488 w of
        (Some err, w1) \<Rightarrow> (Some (AppError (Wrapf ''create plugin directory: %w'' [] err)), w1)
      | (None, w1) \<Rightarrow>
          (let staleAfter = StaleAfter (f_scanInterval flags) in
           case Start (sys_listen sys) (f_healthcheckPort flags) staleAfter of
             Inl err \<Rightarrow> (Some (AppError err), w1)
           | Inr healthServer \<Rightarrow>
               if sys_watch_runs sys \<and> Watch staleAfter [] = None then (Some Panicked, sys_meanwhile sys w1)
               else
                 (case New env (sys_helper sys) (driver_config sys flags) w1 of
                    (Inl err, w2) \<Rightarrow> (Some (AppError err), w2)
                  | (Inr d, w2) \<Rightarrow>
                      if NewTicker (f_scanInterval flags) = None then (Some Panicked, sys_meanwhile sys w2)
                      else if errors_Is_Canceled (sys_cause sys) then (None, sys_meanwhile sys w2)
                      else (Some (AppError (sys_cause sys)), sys_meanwhile sys w2))))"

text \<open>The command's action. The gate the rest of the process sees is the registry after \<open>Set\<close>.\<close>

definition gate_of :: "registry \<Rightarrow> string \<Rightarrow> bool" where
  "gate_of r name = (Enabled (reg_gate r) name = Some True)"

definition resolve_nodeName :: "'w system \<Rightarrow> Flags \<Rightarrow> goerr + Flags" where
  "resolve_nodeName sys flags =
     (if f_nodeName flags = [] then
        (case sys_Hostname sys of
           Inl err \<Rightarrow> Inl (Wrapf ''--node-name not specified and failed to get hostname: %w'' [] err)
         | Inr hostname \<Rightarrow> Inr (flags\<lparr>f_nodeName := hostname\<rparr>))
      else Inr flags)"

definition Action :: "'w system \<Rightarrow> registry \<Rightarrow> Flags \<Rightarrow> 'w \<Rightarrow> app_error option \<times> 'w" where
  "Action sys r flags w =
     (case registry_set (sys_gate_order sys) (f_featureGates flags) r of
        (Some err, r1) \<Rightarrow> (Some (AppError err), w)
      | (None, r1) \<Rightarrow>
          (let gate = gate_of r1; env = (sys_env sys)\<lparr>e_gate := gate\<rparr> in
           case validateWorkloadGates gate of
             Some err \<Rightarrow> (Some (AppError err), w)
           | None \<Rightarrow>
               (case validateMachineID (f_machineID flags) of
                  Some err \<Rightarrow> (Some (AppError err), w)
                | None \<Rightarrow>
                    (case fst (Run (sys_skip_preflight sys) gate (preflight_registry (sys_uname sys) (e_os env)) w) of
                       Some n \<Rightarrow> (Some (FatalError n), w)
                     | None \<Rightarrow>
                         (case resolve_nodeName sys flags of
                            Inl err \<Rightarrow> (Some (AppError err), w)
                          | Inr flags1 \<Rightarrow>
                              (case newKubeClient sys (f_kubeconfig flags1) of
                                 Some err \<Rightarrow> (Some (AppError (Wrapf ''create client: %w'' [] err)), w)
                               | None \<Rightarrow>
                                   runPlugin sys env flags1 w))))))"

text \<open>The exit code: \<open>main\<close> tells the preflight error from others; a panic makes the Go runtime exit with 2.\<close>

definition main_exit :: "app_error option \<Rightarrow> nat" where
  "main_exit err = (case err of None \<Rightarrow> 0 | Some (FatalError n) \<Rightarrow> 2 | Some (AppError e) \<Rightarrow> 1 | Some Panicked \<Rightarrow> 2)"

end
