(* ===== verification/Cli.thy ===== *)
theory Cli
  imports Startup
begin

text \<open>
  The command line of \<open>main.go\<close>: the flag table of \<open>newApp\<close>, and how
  \<open>github.com/urfave/cli/v3\<close> (vendored in the repository) turns arguments and environment
  into the \<open>Flags\<close> record: \<open>PreParse\<close> stores the defaults, \<open>parseFlags\<close> goes through
  the arguments, \<open>PostParse\<close> consults the environment for flags not set there. Of the
  library only what this table uses is written out: flags of five kinds, no subcommands, no
  combined short options, no validators. The conversions of a value (\<open>strconv.ParseInt\<close>
  with base 0, \<open>time.ParseDuration\<close>, the klog values) are a parameter, as are the
  environment and what printing the help answers.
\<close>

section \<open>Flags\<close>

text \<open>The value of a flag, tagged with its kind.\<close>

datatype flag_value = StringV string | IntV int | DurationV int | BoolV bool | GenericV string

record cli_flag =
  fl_Name :: string
  fl_Aliases :: "string list"
  fl_Value :: flag_value
  fl_Sources :: "string list"

abbreviation flag_names :: "cli_flag \<Rightarrow> string list" where
  "flag_names f \<equiv> fl_Name f # fl_Aliases f"

definition mk_flag :: "string \<Rightarrow> flag_value \<Rightarrow> string \<Rightarrow> cli_flag" where
  "mk_flag name val env = \<lparr>fl_Name = name, fl_Aliases = [], fl_Value = val, fl_Sources = [env]\<rparr>"

definition KubeletPluginsDir :: string where "KubeletPluginsDir = ''/var/lib/kubelet/plugins''"
definition KubeletRegistryDir :: string where "KubeletRegistryDir = ''/var/lib/kubelet/plugins_registry''"

text \<open>The table; the last two are bridged from klog, whose own defaults are zero and empty.\<close>

definition newApp_Flags :: "cli_flag list" where
  "newApp_Flags =
    [mk_flag ''node-name'' (StringV []) ''NODE_NAME'',
     mk_flag ''machine-id'' (StringV []) ''MACHINE_ID'',
     mk_flag ''sysinfo-path'' (StringV ''/proc/sysinfo'') ''SYSINFO_PATH'',
     mk_flag ''kubeconfig'' (StringV []) ''KUBECONFIG'',
     mk_flag ''kubelet-registrar-directory-path'' (StringV KubeletRegistryDir) ''KUBELET_REGISTRAR_DIRECTORY_PATH'',
     mk_flag ''kubelet-plugins-directory-path'' (StringV KubeletPluginsDir) ''KUBELET_PLUGINS_DIRECTORY_PATH'',
     mk_flag ''healthcheck-port'' (IntV (-1)) ''HEALTHCHECK_PORT'',
     mk_flag ''scan-interval'' (DurationV (30 * second)) ''SCAN_INTERVAL'',
     mk_flag ''cdi-root'' (StringV ''/var/run/cdi'') ''CDI_ROOT'',
     mk_flag ''feature-gates'' (StringV []) ''FEATURE_GATES'',
     mk_flag ''v'' (GenericV ''0'') ''LOG_VERBOSITY'',
     mk_flag ''vmodule'' (GenericV []) ''LOG_VMODULE'']"

definition HelpFlag :: cli_flag where
  "HelpFlag = \<lparr>fl_Name = ''help'', fl_Aliases = [''h''], fl_Value = BoolV False, fl_Sources = []\<rparr>"

text \<open>The version flag \<open>newApp\<close> installs in place of the library's, without the alias \<open>-v\<close>.\<close>

definition VersionFlag :: cli_flag where
  "VersionFlag = \<lparr>fl_Name = ''version'', fl_Aliases = [], fl_Value = BoolV False, fl_Sources = []\<rparr>"

definition flagNamesInUse :: "cli_flag list \<Rightarrow> string list \<Rightarrow> bool" where
  "flagNamesInUse flags names = list_ex (\<lambda>name. list_ex (\<lambda>fl. name \<in> set (flag_names fl)) flags) names"

text \<open>\<open>setupDefaults\<close>: the help flag, then the version flag if its names are free.\<close>

definition setup_flags :: "cli_flag list \<Rightarrow> cli_flag list" where
  "setup_flags flags =
     (let flags1 = flags @ [HelpFlag] in
      if flagNamesInUse flags1 (flag_names VersionFlag) then flags1 else flags1 @ [VersionFlag])"

section \<open>Setting a flag\<close>

record converters =
  cv_ParseInt :: "string \<Rightarrow> goerr + int"
  cv_ParseDuration :: "string \<Rightarrow> goerr + int"
  cv_klog :: "string \<Rightarrow> string \<Rightarrow> goerr option"

definition set_value :: "converters \<Rightarrow> cli_flag \<Rightarrow> string \<Rightarrow> goerr + flag_value" where
  "set_value cv f val =
     (case fl_Value f of
        StringV _ \<Rightarrow> Inr (StringV val)
      | IntV _ \<Rightarrow> (case cv_ParseInt cv val of Inl err \<Rightarrow> Inl err | Inr i \<Rightarrow> Inr (IntV i))
      | DurationV _ \<Rightarrow> (case cv_ParseDuration cv val of Inl err \<Rightarrow> Inl err | Inr d \<Rightarrow> Inr (DurationV d))
      | BoolV _ \<Rightarrow> (case ParseBool val of None \<Rightarrow> Inl (Errorf ''parse error'' []) | Some b \<Rightarrow> Inr (BoolV b))
      | GenericV _ \<Rightarrow> (case cv_klog cv (fl_Name f) val of Some err \<Rightarrow> Inl err | None \<Rightarrow> Inr (GenericV val)))"

text \<open>The values by flag name, and the flags that have been set.\<close>

record flag_state =
  fs_value :: "flag_value gomap"
  fs_set :: "string list"

definition PreParse :: "cli_flag list \<Rightarrow> flag_state" where
  "PreParse flags = \<lparr>fs_value = map (\<lambda>f. (fl_Name f, fl_Value f)) flags, fs_set = []\<rparr>"

definition store_flag :: "cli_flag \<Rightarrow> flag_value \<Rightarrow> flag_state \<Rightarrow> flag_state" where
  "store_flag f v st = st\<lparr>fs_value := AList.update (fl_Name f) v (fs_value st), fs_set := fl_Name f # fs_set st\<rparr>"

definition cmd_set :: "converters \<Rightarrow> string \<Rightarrow> cli_flag \<Rightarrow> string \<Rightarrow> flag_state \<Rightarrow> goerr + flag_state" where
  "cmd_set cv fName f val st =
     (case set_value cv f val of
        Inl err \<Rightarrow> Inl (Errorf ''invalid value %q for flag -%s: %v'' [FStr val, FStr fName])
      | Inr v \<Rightarrow> Inr (store_flag f v st))"

section \<open>The arguments\<close>

text \<open>\<open>unicode.IsLetter\<close> of a byte taken as a code point: ASCII and Latin-1 letters.\<close>

definition unicode_IsLetter :: "char \<Rightarrow> bool" where
  "unicode_IsLetter c =
     (let r = of_char c :: nat in
      r \<in> {65..90} \<union> {97..122} \<union> {170, 181, 186} \<or> r \<ge> 192 \<and> r \<notin> {215, 247})"

definition lookupAppliedFlag :: "cli_flag list \<Rightarrow> string \<Rightarrow> cli_flag option" where
  "lookupAppliedFlag flags name = find (\<lambda>f. name \<in> set (flag_names f)) flags"

text \<open>The name of a flag argument and, after an equals sign, its value.\<close>

definition split_flag :: "string \<Rightarrow> string \<times> string option" where
  "split_flag s = (case Cut (CHR ''='') s of None \<Rightarrow> (s, None) | Some (name, val) \<Rightarrow> (name, Some val))"

fun is_bool_flag :: "flag_value \<Rightarrow> bool" where
  "is_bool_flag (BoolV _) = True"
| "is_bool_flag _ = False"

fun parseFlags :: "converters \<Rightarrow> cli_flag list \<Rightarrow> string list \<Rightarrow> string list \<Rightarrow> flag_state \<Rightarrow> goerr option \<times> string list \<times> flag_state" where
  "parseFlags cv flags [] posArgs st = (None, posArgs, st)"
| "parseFlags cv flags (arg # rargs) posArgs st =
     (let firstArg = TrimSpace arg in
      if firstArg = [] then parseFlags cv flags rargs (posArgs @ [arg]) st
      else if firstArg = ''--'' then (None, posArgs @ rargs, st)
      else if hd firstArg \<noteq> CHR ''-'' then parseFlags cv flags rargs (posArgs @ [firstArg]) st
      else if length firstArg = 1 then (None, posArgs @ [firstArg], st)
      else if firstArg ! 1 \<noteq> CHR ''-'' \<and> \<not> unicode_IsLetter (firstArg ! 1) then (None, posArgs @ arg # rargs, st)
      else
        (let numMinuses = (if firstArg ! 1 = CHR ''-'' then 2 else 1) in
         case split_flag (drop numMinuses firstArg) of (flagName, eqVal) \<Rightarrow>
           (case lookupAppliedFlag flags flagName of
              None \<Rightarrow> (Some (Errorf ''flag provided but not defined: -%s'' [FStr flagName]), posArgs, st)
            | Some f \<Rightarrow>
                if is_bool_flag (fl_Value f) then
                  (case cmd_set cv flagName f (case eqVal of None \<Rightarrow> ''true'' | Some v \<Rightarrow> if v = [] then ''true'' else v) st of
                     Inl err \<Rightarrow> (Some err, posArgs, st)
                   | Inr st1 \<Rightarrow> parseFlags cv flags rargs posArgs st1)
                else
                  (case eqVal of
                     Some v \<Rightarrow>
                       (case cmd_set cv flagName f v st of
                          Inl err \<Rightarrow> (Some err, posArgs, st)
                        | Inr st1 \<Rightarrow> parseFlags cv flags rargs posArgs st1)
                   | None \<Rightarrow>
                       (case rargs of
                          [] \<Rightarrow> (Some (Errorf ''flag needs an argument: %s'' [FStr firstArg]), posArgs, st)
                        | v # rargs1 \<Rightarrow>
                            (case cmd_set cv flagName f v st of
                               Inl err \<Rightarrow> (Some err, posArgs, st)
                             | Inr st1 \<Rightarrow> parseFlags cv flags rargs1 posArgs st1))))))"

section \<open>The environment\<close>

text \<open>\<open>LookupWithSource\<close> over the variables of a flag.\<close>

fun lookup_sources :: "(string \<Rightarrow> string option) \<Rightarrow> string list \<Rightarrow> string option" where
  "lookup_sources env [] = None"
| "lookup_sources env (key # keys) = (case env (TrimSpace key) of None \<Rightarrow> lookup_sources env keys | Some v \<Rightarrow> Some v)"

fun is_string_flag :: "flag_value \<Rightarrow> bool" where
  "is_string_flag (StringV _) = True"
| "is_string_flag _ = False"

definition PostParse :: "converters \<Rightarrow> (string \<Rightarrow> string option) \<Rightarrow> cli_flag \<Rightarrow> flag_state \<Rightarrow> goerr + flag_state" where
  "PostParse cv env f st =
     (if fl_Name f \<in> set (fs_set st) then Inr st
      else
        (case lookup_sources env (fl_Sources f) of
           None \<Rightarrow> Inr st
         | Some val \<Rightarrow>
             if val \<noteq> [] \<or> is_string_flag (fl_Value f) then
               (case set_value cv f val of
                  Inl err \<Rightarrow> Inl (Errorf ''could not parse %q as %T value from %s for flag %s: %s'' [FStr val, FStr (fl_Name f)])
                | Inr v \<Rightarrow> Inr (store_flag f v st))
             else if is_bool_flag (fl_Value f) then Inr (store_flag f (BoolV False) st)
             else Inr (st\<lparr>fs_set := fl_Name f # fs_set st\<rparr>)))"

fun post_parse :: "converters \<Rightarrow> (string \<Rightarrow> string option) \<Rightarrow> cli_flag list \<Rightarrow> flag_state \<Rightarrow> goerr + flag_state" where
  "post_parse cv env [] st = Inr st"
| "post_parse cv env (f # flags) st =
     (case PostParse cv env f st of Inl err \<Rightarrow> Inl err | Inr st1 \<Rightarrow> post_parse cv env flags st1)"

section \<open>Running the command\<close>

text \<open>What the destinations of the table hold.\<close>

definition string_of :: "flag_value option \<Rightarrow> string" where
  "string_of v = (case v of Some (StringV s) \<Rightarrow> s | _ \<Rightarrow> [])"

definition int_of :: "flag_value option \<Rightarrow> int" where
  "int_of v = (case v of Some (IntV i) \<Rightarrow> i | Some (DurationV d) \<Rightarrow> d | _ \<Rightarrow> 0)"

definition destinations :: "(string \<Rightarrow> flag_value option) \<Rightarrow> Flags" where
  "destinations val =
     \<lparr>f_nodeName = string_of (val ''node-name''), f_machineID = string_of (val ''machine-id''),
      f_sysinfoPath = string_of (val ''sysinfo-path''), f_kubeconfig = string_of (val ''kubeconfig''),
      f_kubeletRegistrarDirectoryPath = string_of (val ''kubelet-registrar-directory-path''),
      f_kubeletPluginsDirectoryPath = string_of (val ''kubelet-plugins-directory-path''),
      f_scanInterval = int_of (val ''scan-interval''), f_healthcheckPort = int_of (val ''healthcheck-port''),
      f_cdiRoot = string_of (val ''cdi-root''), f_featureGates = string_of (val ''feature-gates'')\<rparr>"

text \<open>
  \<open>newApp().Run\<close>: a usage error, unless help was asked for before it; help; version; the
  environment; the action, whatever positional arguments are left.
\<close>

record command_world =
  cw_converters :: converters
  cw_LookupEnv :: "string \<Rightarrow> string option"
  cw_showHelp :: "string list \<Rightarrow> goerr option"

definition app_Run :: "command_world \<Rightarrow> 'w system \<Rightarrow> registry \<Rightarrow> string list \<Rightarrow> 'w \<Rightarrow> app_error option \<times> 'w" where
  "app_Run cw sys r args w =
     (let cv = cw_converters cw; flags = setup_flags newApp_Flags in
      case parseFlags cv flags args [] (PreParse flags) of (err, posArgs, st) \<Rightarrow>
        (let help = (map_of (fs_value st) ''help'' = Some (BoolV True)) in
         case err of
           Some e \<Rightarrow> (if help then None else Some (AppError e), w)
         | None \<Rightarrow>
             if help then (map_option AppError (cw_showHelp cw posArgs), w)
             else if ''version'' \<in> set (fs_set st) then (None, w)
             else (case post_parse cv (cw_LookupEnv cw) flags st of
                     Inl e \<Rightarrow> (Some (AppError e), w)
                   | Inr st1 \<Rightarrow> Action sys r (destinations (map_of (fs_value st1))) w)))"

end
