(* ===== verification/Startup_Props.thy ===== *)
theory Startup_Props
  imports Startup Scan_Props Driver_Props
begin

text \<open>
  The process as a whole: the exit codes of the action, the liveness verdict after a scan cycle, and that the
  names the driver publishes fit the API.
\<close>

section \<open>Exit codes\<close>

text \<open>
  How a run of the plugin ends: normally only after the driver started and its context was
  cancelled, with an interval the scan loop's ticker takes; by a panic only when one of the
  two tickers does not take its interval; never with the preflight error.
\<close>

lemma runPlugin_exit:
  assumes "runPlugin sys env flags w = (res, w')"
  shows "case res of
     None \<Rightarrow> errors_Is_Canceled (sys_cause sys) \<and> 0 < f_scanInterval flags
       \<and> (\<exists>d w1 w2. New env (sys_helper sys) (driver_config sys flags) w1 = (Inr d, w2))
   | Some Panicked \<Rightarrow> Watch (StaleAfter (f_scanInterval flags)) [] = None \<or> f_scanInterval flags \<le> 0
   | Some (FatalError n) \<Rightarrow> False
   | Some (AppError e) \<Rightarrow> True"
  using assms
  by (auto simp: runPlugin_def Let_def NewTicker_def split: prod.splits option.splits sum.splits if_splits)

lemma resolve_nodeName_interval: "resolve_nodeName sys flags = Inr flags1 \<Longrightarrow> f_scanInterval flags1 = f_scanInterval flags"
  by (auto simp: resolve_nodeName_def split: if_splits sum.splits)

text \<open>The checks of the action that come before it touches anything.\<close>

definition config_ok :: "'w system \<Rightarrow> registry \<Rightarrow> Flags \<Rightarrow> bool" where
  "config_ok sys r flags =
     (case registry_set (sys_gate_order sys) (f_featureGates flags) r of
        (err, r1) \<Rightarrow> err = None \<and> validateWorkloadGates (gate_of r1) = None \<and> validateMachineID (f_machineID flags) = None)"

definition configured_gate :: "'w system \<Rightarrow> registry \<Rightarrow> Flags \<Rightarrow> string \<Rightarrow> bool" where
  "configured_gate sys r flags = gate_of (snd (registry_set (sys_gate_order sys) (f_featureGates flags) r))"

definition preflight_ok :: "'w system \<Rightarrow> registry \<Rightarrow> Flags \<Rightarrow> 'w \<Rightarrow> bool" where
  "preflight_ok sys r flags w \<longleftrightarrow>
     fst (Run (sys_skip_preflight sys) (configured_gate sys r flags) (preflight_registry (sys_uname sys) (e_os (sys_env sys))) w) = None"

lemma Action_rejects:
  assumes "\<not> config_ok sys r flags"
  shows "\<exists>e. Action sys r flags w = (Some (AppError e), w)"
  using assms by (auto simp: config_ok_def Action_def Let_def split: option.splits prod.splits)

lemma Action_aborts:
  assumes "config_ok sys r flags" "\<not> preflight_ok sys r flags w"
  shows "\<exists>n. Action sys r flags w = (Some (FatalError n), w)"
  using assms by (auto simp: config_ok_def preflight_ok_def configured_gate_def Action_def Let_def split: prod.splits)

lemma Action_runs:
  assumes "config_ok sys r flags" "preflight_ok sys r flags w" "Action sys r flags w = (res, w')"
  obtains (refused) e where "res = Some (AppError e)" "w' = w"
  | (ran) flags1 where "resolve_nodeName sys flags = Inr flags1"
      "runPlugin sys ((sys_env sys)\<lparr>e_gate := configured_gate sys r flags\<rparr>) flags1 w = (res, w')"
  using assms
  by (auto simp: config_ok_def preflight_ok_def configured_gate_def Action_def Let_def split: prod.splits option.splits sum.splits)

text \<open>
  The exit code of the action. Only a panic shares the code of a preflight abort, and a scan
  interval between one nanosecond and a tenth of the range of a duration rules it out.
\<close>

lemma Action_exit:
  assumes "Action sys r flags w = (res, w')"
  shows "(\<not> config_ok sys r flags \<longrightarrow> main_exit res = 1 \<and> w' = w)
     \<and> (config_ok sys r flags \<and> \<not> preflight_ok sys r flags w \<longrightarrow> main_exit res = 2 \<and> w' = w)
     \<and> (config_ok sys r flags \<and> preflight_ok sys r flags w \<and> 0 < f_scanInterval flags \<and> f_scanInterval flags \<le> (2 ^ 63 - 1) div 10
          \<longrightarrow> main_exit res \<in> {0, 1})
     \<and> (main_exit res = 0 \<longrightarrow> config_ok sys r flags \<and> preflight_ok sys r flags w \<and> 0 < f_scanInterval flags
          \<and> errors_Is_Canceled (sys_cause sys)
          \<and> (\<exists>flags1 d w1 w2. resolve_nodeName sys flags = Inr flags1
               \<and> New ((sys_env sys)\<lparr>e_gate := configured_gate sys r flags\<rparr>) (sys_helper sys) (driver_config sys flags1) w1 = (Inr d, w2)))"
proof (cases "config_ok sys r flags \<and> preflight_ok sys r flags w")
  case False
  then show ?thesis using Action_rejects [of sys r flags w] Action_aborts [of sys r flags w] assms
    by (cases "config_ok sys r flags") (auto simp: main_exit_def)
next
  case True
  then have ok: "config_ok sys r flags" "preflight_ok sys r flags w" by simp_all
  show ?thesis
  proof (cases rule: Action_runs [OF ok assms, case_names refused ran])
    case (refused e)
    then show ?thesis using True by (simp add: main_exit_def)
  next
    case (ran flags1)
    note i = resolve_nodeName_interval [OF ran(1)]
    show ?thesis using True ran(1) runPlugin_exit [OF ran(2)] StaleAfter_no_wrap(2) [of "f_scanInterval flags" "[]"]
      by (auto simp: main_exit_def i split: option.splits app_error.splits)
  qed
qed

text \<open>A node without vfio_ap, with the gates as shipped.\<close>

definition sys_sample :: "string gomap system" where
  "sys_sample = \<lparr>sys_env = mem_env, sys_helper = helper_ok, sys_gate_order = (\<lambda>ks. ks), sys_skip_preflight = [], sys_uname = Inr ''6.8'',
     sys_Hostname = Inr ''host'', sys_InClusterConfig = Inr ''in-cluster'', sys_BuildConfigFromFlags = (\<lambda>k. Inr k),
     sys_NewForConfig = (\<lambda>_. None), sys_listen = (\<lambda>a. Inr a), sys_now = 0, sys_cause = CtxError Canceled,
     sys_meanwhile = (\<lambda>w. w), sys_watch_runs = True\<rparr>"

definition flags_sample :: Flags where
  "flags_sample = \<lparr>f_nodeName = [], f_machineID = ''m'', f_sysinfoPath = ''/proc/sysinfo'', f_kubeconfig = [],
     f_kubeletRegistrarDirectoryPath = ''/var/lib/kubelet/plugins_registry'', f_kubeletPluginsDirectoryPath = ''/var/lib/kubelet/plugins'', f_scanInterval = 30 * second, f_healthcheckPort = -1,
     f_cdiRoot = ''/var/run/cdi'', f_featureGates = []\<rparr>"

text \<open>
  A limit of the last step: a fatal background error that wraps a cancellation counts as the
  ordinary shutdown, although only the plain cause is meant to.
\<close>

lemma fatal_error_taken_for_shutdown:
  assumes "\<not> recoverable err" and "errors_Is_Canceled err"
  shows "\<exists>c. HandleError recoverable True err = Some c \<and> c \<noteq> CtxError Canceled \<and> errors_Is_Canceled c"
  using assms by (simp add: HandleError_def)

section \<open>Liveness\<close>

text \<open>
  C39. A completed cycle keeps the process alive whatever it found: after a scan cycle at
  \<open>now\<close>, failed or not, the liveness service answers that the driver serves for exactly
  the staleness threshold, and no longer unless another cycle completes.
\<close>

theorem completed_cycle_is_live:
  assumes "runScanCycle env h now d w = (d', w')" and "d_heartbeat d \<noteq> None"
    and "now \<le> t" and "t - now < 2 ^ 63"
  shows "Check s t (d_heartbeat d') [] = Inr (if t - now \<le> srv_staleAfter s then SERVING else NOT_SERVING)"
proof -
  have "d_heartbeat (fst (snd (scanAndPublish env h d w))) = d_heartbeat d"
    by (simp add: scanAndPublish_def Let_def split: prod.split sum.split option.split bool.split)
  then have "d_heartbeat d' = Some now"
    using assms(1,2) by (auto simp: runScanCycle_def Stamp_def split: prod.splits option.splits)
  then show ?thesis using assms(3,4) by (simp add: Check_def Age_def sat64_def)
qed

theorem completed_cycle_is_live_witness:
  "\<exists>d. fst (New mem_env helper_ok cfg_sample w_bus) = Inr d
     \<and> Check \<lparr>srv_staleAfter = 300, srv_addr = []\<rparr> 304 (d_heartbeat (fst (runScanCycle mem_env helper_ok 5 d w_bus))) [] = Inr SERVING
     \<and> Check \<lparr>srv_staleAfter = 300, srv_addr = []\<rparr> 306 (d_heartbeat (fst (runScanCycle mem_env helper_ok 5 d w_bus))) [] = Inr NOT_SERVING"
proof -
  have "case fst (New mem_env helper_ok cfg_sample w_bus) of Inl e \<Rightarrow> False | Inr d \<Rightarrow> d_heartbeat d \<noteq> None" by code_simp
  then obtain d where d: "fst (New mem_env helper_ok cfg_sample w_bus) = Inr d" "d_heartbeat d \<noteq> None" by (auto split: sum.splits)
  note live = completed_cycle_is_live [OF prod.collapse [symmetric] d(2), where now = 5 and s = "\<lparr>srv_staleAfter = 300, srv_addr = []\<rparr>"]
  show ?thesis
    using d(1) live [where t = 304 and env = mem_env and h = helper_ok and w = w_bus]
      live [where t = 306 and env = mem_env and h = helper_ok and w = w_bus] by simp
qed

section \<open>Published names\<close>

definition good_id :: "string \<Rightarrow> bool" where
  "good_id m \<longleftrightarrow> IsDNS1123Label m \<and> length m \<le> maxMachineIDLen"

lemma validateMachineID_good: "validateMachineID m = None \<Longrightarrow> m \<noteq> [] \<Longrightarrow> good_id m"
  by (auto simp: validateMachineID_def good_id_def split: if_splits)

lemma lhex_lalnum: "is_lhex c \<Longrightarrow> is_lalnum c"
  by (auto simp: is_lhex_def is_lalnum_def less_eq_char_def)

text \<open>The suffix for which the bound leaves room: a name is a label whatever the queue.\<close>

lemma device_name_label:
  assumes "good_id m" and "queue_dir e"
  shows "IsDNS1123Label (device_name m (dir_apqn e))"
proof -
  have q: "length (entry_name e) = 7" "list_all is_lhex (take 2 (entry_name e))" "list_all is_lhex (drop 3 (entry_name e))"
    using assms(2) by (auto simp: queue_dir_def queuePattern_def split: if_splits)
  let ?a = "take 2 (entry_name e)" and ?d = "drop 3 (entry_name e)"
  have al: "\<forall>c \<in> set ?a \<union> set ?d. is_lalnum c" using q(2,3) lhex_lalnum by (auto simp: list_all_iff)
  have d: "?d \<noteq> []" using q(1) by simp
  then have "is_lalnum (last ?d)" using al last_in_set by blast
  then show ?thesis
    using assms(1) q(1) al d
    by (auto simp: good_id_def IsDNS1123Label_def device_name_def dir_apqn_def maxMachineIDLen_def list_all_iff)
qed

definition names_ok :: "Device list list \<Rightarrow> bool" where
  "names_ok slices \<longleftrightarrow> (\<forall>ds \<in> set slices. \<forall>d \<in> set ds. IsDNS1123Label (dev_Name d))"

definition pools_ok :: "Device list list gomap \<Rightarrow> bool" where
  "pools_ok pools \<longleftrightarrow> (\<forall>p slices. map_of pools p = Some slices \<longrightarrow> names_ok slices)"

lemma update_members: "(k', v') \<in> set (AList.update k v m) \<Longrightarrow> v' = v \<or> (k', v') \<in> set m"
  by (induction m) (auto split: if_splits)

lemma card_published_names:
  assumes "good_id m" and "card_queues os w e = Some c" and "card_published os m w c p"
  shows "names_ok [snd p]"
proof -
  obtain ct gen qs where c: "c = (e, ct, gen, filter queue_dir qs)"
    using assms(2) by (auto simp: card_queues_def split: if_splits sum.splits)
  have "IsDNS1123Label (dev_Name d)" if dm: "d \<in> set (snd p)" for d
  proof -
    obtain i where i: "i < length (snd p)" "d = snd p ! i" using dm by (metis in_set_conv_nth)
    let ?e = "filter queue_dir qs ! i"
    have l: "list_all2 (queue_device os (card_path e) ct gen m w) (filter queue_dir qs) (snd p)"
      using assms(3) by (simp add: card_published_def c)
    then have "queue_device os (card_path e) ct gen m w ?e d" "i < length (filter queue_dir qs)"
      using i by (auto simp: list_all2_conv_all_nth)
    moreover have "queue_dir ?e" using nth_mem [OF calculation(2)] by simp
    ultimately show ?thesis using device_name_label [OF assms(1)] by (simp add: queue_device_def Let_def)
  qed
  then show ?thesis by (simp add: names_ok_def)
qed

lemma scan_cards_names:
  assumes "good_id machineID" and "tracker_ok t" and "scan_cards os es machineID w acc t = (Inr m, t')"
    and "\<And>c ds. (c, ds) \<in> set acc \<Longrightarrow> names_ok [ds]"
  shows "(c, ds) \<in> set m \<Longrightarrow> names_ok [ds]"
  using assms
proof (induction es arbitrary: acc t)
  case (Cons e es)
  obtain r1 t1 where s: "scanCard os e machineID w t = (r1, t1)" by (metis prod.exhaust)
  note spec = scanCard_spec [OF Cons.prems(3) s]
  obtain x where x: "r1 = Inr x" using Cons.prems(4) s by (cases r1) auto
  have new: "names_ok [ds]" if "x = Some ds" "ds \<noteq> []" for ds
    using spec(3) [OF x] that card_published_names [OF assms(1)] by (auto split: option.splits)
  define acc1 where "acc1 = (case x of None \<Rightarrow> acc | Some ds \<Rightarrow> if ds \<noteq> [] then AList.update (entry_name e) ds acc else acc)"
  have "scan_cards os es machineID w acc1 t1 = (Inr m, t')"
    using Cons.prems(4) s x by (auto simp: acc1_def split: option.splits)
  moreover have "names_ok [ds]" if "(c, ds) \<in> set acc1" for c ds
    using that new Cons.prems(5) update_members by (auto simp: acc1_def split: option.splits if_splits dest!: update_members)
  ultimately show ?case using Cons.IH [OF Cons.prems(1) assms(1) spec(1)] by blast
qed auto

definition inventory_ok :: "Device list gomap \<Rightarrow> bool" where
  "inventory_ok m \<longleftrightarrow> (\<forall>c ds. (c, ds) \<in> set m \<longrightarrow> names_ok [ds])"

lemma Scan_names:
  assumes "good_id machineID" and "tracker_ok t" and "Scan os machineID w t = (Inr m, t')"
  shows "inventory_ok m"
  unfolding inventory_ok_def
proof (intro allI impI)
  fix c ds assume m: "(c, ds) \<in> set m"
  then obtain es t1 where sc: "scan_cards os es machineID w [] t = (Inr m, t1)"
    using assms(3) by (auto simp: Scan_def split: sum.splits prod.splits if_splits)
  show "names_ok [ds]" by (rule scan_cards_names [OF assms(1,2) sc _ m]) simp
qed

lemma fold_update_values:
  "map_of (fold (\<lambda>c. AList.update (f c) (g c)) cs acc) p = Some x \<Longrightarrow> map_of acc p = Some x \<or> (\<exists>c. x = g c)"
proof (induction cs arbitrary: acc)
  case (Cons c cs)
  then have "map_of (AList.update (f c) (g c) acc) p = Some x \<or> (\<exists>c. x = g c)" by simp
  then show ?case by (cases "p = f c") auto
qed simp

lemma CompareAndUpdate_names:
  assumes "inventory_ok m" and "pools_ok (driverResources s)" and "CompareAndUpdate env m s = (b, s')"
  shows "pools_ok (driverResources s')"
proof -
  have c: "names_ok [card_devices m c]" for c
  proof (cases "map_of m c")
    case (Some ds)
    then show ?thesis using assms(1) map_of_SomeD [OF Some] by (simp add: inventory_ok_def card_devices_def)
  qed (simp add: card_devices_def names_ok_def)
  show ?thesis
    using assms(2,3) c
    by (auto simp: CompareAndUpdate_def Let_def pools_ok_def split: if_splits dest!: fold_update_values)
qed

definition inv_names :: "'w proc \<Rightarrow> bool" where
  "inv_names p \<longleftrightarrow> tracker_ok (d_mkvpTracker (p_driver p)) \<and> (good_id (d_machineID (p_driver p)) \<longrightarrow>
     pools_ok (driverResources (d_state (p_driver p))) \<and> pools_ok (p_published p)
     \<and> (case p_pc p of Updating (Inr m) \<Rightarrow> inventory_ok m | Publishing r \<Rightarrow> pools_ok r | _ \<Rightarrow> True))"

lemma New_names:
  assumes "New env h cfg w = (Inr d, w')"
  shows "tracker_ok (d_mkvpTracker d) \<and> (good_id (d_machineID d) \<longrightarrow> pools_ok (driverResources (d_state d)))"
proof -
  obtain m w1 t s where n: "Scan (e_os env) (d_machineID d) w1 NewMKVPTracker = (Inr m, t)" "d_mkvpTracker d = t"
      "d_state d = snd (CompareAndUpdate env m s)" "driverResources s = []"
    using assms by (auto simp: New_def Let_def New_state_def split: sum.splits prod.splits option.splits)
  have "pools_ok (driverResources s)" using n(4) by (simp add: pools_ok_def)
  then show ?thesis
    using Scan_tracker_ok [OF tracker_ok_New n(1)] Scan_names [OF _ tracker_ok_New n(1)]
      CompareAndUpdate_names [of m s env "fst (CompareAndUpdate env m s)" "d_state d"] n(2,3) by (simp add: prod_eq_iff)
qed

interpretation names: process_invariant env h inv_names for env :: "'w env" and h
proof
  show "inv_names p" if "started env h cfg w p" for cfg and w :: 'w and p
    using that New_names by (fastforce simp: started_def inv_names_def DriverResources_def)
next
  fix p q :: "'w proc" assume i: "inv_names p" and s: "step env h p q"
  from s show "inv_names q"
  proof (cases rule: step.cases)
    case (tick r t)
    then show ?thesis
      using i Scan_names Scan_tracker_ok unfolding inv_names_def scan_result_def by (auto split: sum.splits)
  next
    case (trigger r t)
    then show ?thesis
      using i Scan_names Scan_tracker_ok unfolding inv_names_def scan_result_def by (auto split: sum.splits)
  next
    case (unchanged m s)
    then show ?thesis using i CompareAndUpdate_names [of m _ env False s] by (auto simp: inv_names_def)
  next
    case (changed m s)
    then show ?thesis using i CompareAndUpdate_names [of m _ env True s] by (auto simp: inv_names_def DriverResources_def)
  qed (use i in \<open>auto simp: inv_names_def triggerScan_def split: pc.splits sum.splits\<close>)
qed

lemma New_machineID: "New env h cfg w = (Inr d, w') \<Longrightarrow> c_MachineID cfg \<noteq> [] \<Longrightarrow> d_machineID d = c_MachineID cfg"
  by (auto simp: New_def resolve_machineID_def Let_def split: sum.splits prod.splits option.splits)

lemma reachable_machineID:
  assumes "reachable env h cfg w p" and "c_MachineID cfg \<noteq> []"
  shows "d_machineID (p_driver p) = c_MachineID cfg"
  using assms(1)
proof (induction rule: reachable.induct)
  case (init p)
  then show ?case using New_machineID assms(2) by (auto simp: started_def)
next
  case (more p q)
  from more(2) more.IH show ?case by (cases rule: step.cases) (auto simp: triggerScan_def)
qed

text \<open>
  C37. Every published name fits the API: with a machine ID that the startup check accepted,
  every device the running driver ever publishes has a DNS-1123 label of at most 63
  characters as its name, whatever the cards and domains; the check's bound of 55 characters
  is what the suffix leaves.
\<close>

theorem published_names_valid:
  assumes "validateMachineID (c_MachineID cfg) = None" and "c_MachineID cfg \<noteq> []" and "reachable env h cfg w p"
    and "map_of (p_published p) pool = Some slices" and "ds \<in> set slices" and "d \<in> set ds"
  shows "IsDNS1123Label (dev_Name d)"
  using names.reachable_inv [OF assms(3)] validateMachineID_good [OF assms(1,2)] reachable_machineID [OF assms(3,2)] assms(4-6)
  by (auto simp: inv_names_def pools_ok_def names_ok_def)

theorem published_names_valid_witness:
  "\<exists>p pool slices ds d. reachable mem_env helper_ok cfg_sample w_bus p \<and> map_of (p_published p) pool = Some slices
     \<and> ds \<in> set slices \<and> d \<in> set ds \<and> dev_Name d = ''m-01-0002'' \<and> IsDNS1123Label (dev_Name d)"
proof -
  obtain d where s: "started mem_env helper_ok cfg_sample w_bus (start_proc d (snd (New mem_env helper_ok cfg_sample w_bus)))"
    and n: "fst (New mem_env helper_ok cfg_sample w_bus) = Inr d" by (rule mem_started)
  let ?p = "start_proc d (snd (New mem_env helper_ok cfg_sample w_bus))"
  have "case fst (New mem_env helper_ok cfg_sample w_bus) of Inl e \<Rightarrow> False
      | Inr d \<Rightarrow> (case map_of (driverResources (d_state d)) ''node-card01'' of None \<Rightarrow> False
          | Some slices \<Rightarrow> list_ex (list_ex (\<lambda>dev. dev_Name dev = ''m-01-0002'')) slices)" by code_simp
  then obtain slices ds dev where x: "map_of (p_published ?p) ''node-card01'' = Some slices" "ds \<in> set slices" "dev \<in> set ds" "dev_Name dev = ''m-01-0002''"
    using n by (auto simp: start_proc_def DriverResources_def list_ex_iff split: option.splits)
  have r: "reachable mem_env helper_ok cfg_sample w_bus ?p" using s by (rule reachable.init)
  have "validateMachineID (c_MachineID cfg_sample) = None" "c_MachineID cfg_sample \<noteq> []" by code_simp+
  then have "IsDNS1123Label (dev_Name dev)" using x r by (intro published_names_valid [of cfg_sample])
  then show ?thesis using x r by blast
qed

end
