(* ===== verification/Cli_Props.thy ===== *)
theory Cli_Props
  imports Cli Startup_Props
begin

text \<open>
  The command line resolves by one rule: what the arguments say last, else the environment,
  else the default; and what the exit code of the process tells.
\<close>

section \<open>The table\<close>

definition app_flags :: "cli_flag list" where
  "app_flags = setup_flags newApp_Flags"

text \<open>The version flag is added: no flag of the table has its name, \<open>-v\<close> is klog's.\<close>

lemma app_flags_eq: "app_flags = newApp_Flags @ [HelpFlag, VersionFlag]"
  by code_simp

text \<open>Names and aliases are distinct, not empty, and free of equals signs and spaces; so are the variables.\<close>

lemma app_flags_distinct: "distinct (concat (map flag_names app_flags))" "distinct (map fl_Name app_flags)"
  "distinct (concat (map fl_Sources app_flags))"
  by code_simp+

lemma app_flag_names: "list_all (\<lambda>f. fl_Name f \<noteq> [] \<and> list_all (\<lambda>c. c \<noteq> CHR ''='' \<and> \<not> is_space c) (fl_Name f)) app_flags"
  by code_simp

lemma table_flags: "list_all (\<lambda>f. \<not> is_bool_flag (fl_Value f)) newApp_Flags"
  by code_simp

lemma find_first:
  assumes "distinct (concat (map g xs))" "x \<in> set xs" "a \<in> set (g x)"
  shows "find (\<lambda>y. a \<in> set (g y)) xs = Some x"
  using assms by (induction xs) auto

lemma lookup_own: "f \<in> set app_flags \<Longrightarrow> lookupAppliedFlag app_flags (fl_Name f) = Some f"
  unfolding lookupAppliedFlag_def using app_flags_distinct(1) by (intro find_first) auto

section \<open>Help and version\<close>

text \<open>An argument that names a flag: one or two dashes, its name, and possibly a value.\<close>

definition names_flag :: "string \<Rightarrow> string \<Rightarrow> bool" where
  "names_flag arg n \<longleftrightarrow> (\<exists>dashes \<in> {''-'', ''--''}. TrimSpace arg = dashes @ n \<or> (\<exists>v. TrimSpace arg = dashes @ n @ ''='' @ v))"

definition asked :: "string list \<Rightarrow> string list \<Rightarrow> bool" where
  "asked names args \<longleftrightarrow> (\<exists>arg \<in> set args. \<exists>n \<in> set names. names_flag arg n)"

lemma split_names_flag:
  assumes "length (TrimSpace arg) \<noteq> 1" "TrimSpace arg \<noteq> []" "hd (TrimSpace arg) = CHR ''-''"
    "split_flag (drop (if TrimSpace arg ! 1 = CHR ''-'' then 2 else 1) (TrimSpace arg)) = (n, v)"
  shows "names_flag arg n"
proof -
  obtain c rest where t: "TrimSpace arg = CHR ''-'' # c # rest"
    using assms(1-3) by (cases "TrimSpace arg" rule: remdups_adj.cases) auto
  define dashes where "dashes = (if c = CHR ''-'' then ''--'' else ''-'')"
  define body where "body = (if c = CHR ''-'' then rest else c # rest)"
  have "TrimSpace arg = dashes @ body" "split_flag body = (n, v)" "dashes \<in> {''-'', ''--''}"
    using assms(4) by (auto simp: t dashes_def body_def split: if_splits)
  then show ?thesis by (auto simp: names_flag_def split_flag_def split: option.splits dest: Cut_Some)
qed

text \<open>What one argument does: nothing to the values, or it sets the flag it names and the parsing goes on behind it.\<close>

lemma parseFlags_step:
  assumes "parseFlags cv flags (arg # rargs) pos st = (err, pos', st')"
  obtains (halt) "st' = st"
  | (skip) pos1 where "parseFlags cv flags rargs pos1 st = (err, pos', st')"
  | (set) f n val st1 rest where "names_flag arg n" "lookupAppliedFlag flags n = Some f" "cmd_set cv n f val st = Inr st1"
      "parseFlags cv flags rest pos st1 = (err, pos', st')" "length rest \<le> length rargs" "set rest \<subseteq> set rargs"
proof -
  obtain n eqVal where sp: "split_flag (drop (if TrimSpace arg ! 1 = CHR ''-'' then 2 else 1) (TrimSpace arg)) = (n, eqVal)"
    by (metis prod.exhaust)
  consider "TrimSpace arg = [] \<or> hd (TrimSpace arg) \<noteq> CHR ''-'' \<or> length (TrimSpace arg) = 1" | "names_flag arg n"
    using split_names_flag [OF _ _ _ sp] by blast
  then show ?thesis
  proof cases
    case 1
    then show ?thesis using assms halt skip by (auto simp: Let_def split: if_splits)
  next
    case 2
    show ?thesis
    proof (cases "lookupAppliedFlag flags n")
      case None
      then show ?thesis using assms sp halt skip by (simp add: Let_def split: if_splits)
    next
      case (Some f)
      have behind: thesis if "cmd_set cv n f val st = Inr st1" "parseFlags cv flags rest pos st1 = (err, pos', st')"
          "length rest \<le> length rargs" "set rest \<subseteq> set rargs" for val st1 rest
        using set [OF 2 Some that] .
      show ?thesis
        using assms sp Some halt skip behind
        by (simp add: Let_def subset_insertI split: if_splits option.splits list.splits sum.splits)
    qed
  qed
qed

text \<open>A flag that no argument names keeps its value and stays unset.\<close>

lemma parseFlags_unasked:
  assumes "f \<in> set app_flags" "\<not> asked (flag_names f) args" "parseFlags cv app_flags args pos st = (err, pos', st')"
  shows "map_of (fs_value st') (fl_Name f) = map_of (fs_value st) (fl_Name f)
     \<and> (fl_Name f \<in> set (fs_set st') \<longleftrightarrow> fl_Name f \<in> set (fs_set st))"
  using assms(2,3)
proof (induction "length args" arbitrary: args pos st rule: less_induct)
  case less
  show ?case
  proof (cases args)
    case (Cons arg rargs)
    from less.prems(2) [unfolded Cons] show ?thesis
    proof (cases rule: parseFlags_step)
      case (skip pos1)
      then show ?thesis using less.hyps [of rargs pos1 st] less.prems(1) Cons by (simp add: asked_def)
    next
      case (set g n val st1 rest)
      have "n \<in> set (flag_names g)" "g \<in> set app_flags"
        using set(2) by (auto simp: lookupAppliedFlag_def find_Some_iff)
      moreover have "n \<notin> set (flag_names f)" using less.prems(1) set(1) Cons by (auto simp: asked_def)
      ultimately have "fl_Name g \<noteq> fl_Name f" using assms(1) app_flags_distinct(2) by (metis distinct_map inj_onD)
      then have "map_of (fs_value st1) (fl_Name f) = map_of (fs_value st) (fl_Name f)"
        "fl_Name f \<in> set (fs_set st1) \<longleftrightarrow> fl_Name f \<in> set (fs_set st)"
        using set(3) by (auto simp: cmd_set_def store_flag_def update_conv' split: sum.splits)
      moreover have "\<not> asked (flag_names f) rest" using less.prems(1) set(6) Cons by (auto simp: asked_def)
      ultimately show ?thesis using less.hyps [of rest pos st1] set(4,5) Cons by simp
    qed simp
  qed (use less.prems in simp)
qed

section \<open>Settings\<close>

text \<open>A flag of the table with a value, in one argument or in two.\<close>

datatype setting = Joined cli_flag string | Apart cli_flag string

fun setting_flag :: "setting \<Rightarrow> cli_flag" where
  "setting_flag (Joined f v) = f"
| "setting_flag (Apart f v) = f"

fun setting_value :: "setting \<Rightarrow> string" where
  "setting_value (Joined f v) = v"
| "setting_value (Apart f v) = v"

fun arguments :: "setting \<Rightarrow> string list" where
  "arguments (Joined f v) = [''--'' @ fl_Name f @ ''='' @ v]"
| "arguments (Apart f v) = [''--'' @ fl_Name f, v]"

text \<open>A value behind an equals sign does not end in a space, which the parser would trim.\<close>

fun setting_ok :: "setting \<Rightarrow> bool" where
  "setting_ok (Joined f v) = (f \<in> set newApp_Flags \<and> (v = [] \<or> \<not> is_space (last v)))"
| "setting_ok (Apart f v) = (f \<in> set newApp_Flags)"

definition convert :: "converters \<Rightarrow> setting \<Rightarrow> goerr + flag_value" where
  "convert cv s = set_value cv (setting_flag s) (setting_value s)"

lemma TrimSpace_ends: "xs \<noteq> [] \<Longrightarrow> \<not> is_space (hd xs) \<Longrightarrow> \<not> is_space (last xs) \<Longrightarrow> TrimSpace xs = xs"
proof -
  assume a: "xs \<noteq> []" "\<not> is_space (hd xs)" "\<not> is_space (last xs)"
  have d: "dropWhile is_space ys = ys" if "ys \<noteq> []" "\<not> is_space (hd ys)" for ys
    using that by (cases ys) auto
  show ?thesis using d [of xs] d [of "rev xs"] a by (simp add: TrimSpace_def hd_rev)
qed

lemma parse_setting:
  assumes "setting_ok s" "convert cv s = Inr v"
  shows "parseFlags cv app_flags (arguments s @ rargs) pos st = parseFlags cv app_flags rargs pos (store_flag (setting_flag s) v st)"
proof -
  let ?f = "setting_flag s" and ?n = "fl_Name (setting_flag s)"
  have f: "?f \<in> set newApp_Flags" using assms(1) by (cases s) auto
  then have a: "?f \<in> set app_flags" by (simp add: app_flags_eq)
  have n: "?n \<noteq> []" "CHR ''='' \<notin> set ?n" "\<forall>c \<in> set ?n. \<not> is_space c"
    using app_flag_names a by (auto simp: list_all_iff)
  have nb: "\<not> is_bool_flag (fl_Value ?f)" using table_flags f by (auto simp: list_all_iff)
  have c: "cmd_set cv ?n ?f (setting_value s) st = Inr (store_flag ?f v st)"
    using assms(2) by (simp add: cmd_set_def convert_def)
  have dash: "\<not> is_space (CHR ''-'')" "\<not> is_space (CHR ''='')" by (simp_all add: is_space_def)
  show ?thesis
  proof (cases s)
    case (Joined f' x)
    let ?a = "''--'' @ ?n @ ''='' @ x"
    have "TrimSpace ?a = ?a" using assms(1) Joined dash by (intro TrimSpace_ends) auto
    moreover have "split_flag (drop 2 ?a) = (?n, Some x)" using Cut_append [OF n(2), of x] by (simp add: split_flag_def)
    ultimately show ?thesis using Joined lookup_own [OF a] nb c n(1) by simp
  next
    case (Apart f' x)
    let ?a = "''--'' @ ?n"
    have "TrimSpace ?a = ?a" using n(1,3) dash by (intro TrimSpace_ends) auto
    moreover have "split_flag (drop 2 ?a) = (?n, None)" using n(2) by (simp add: split_flag_def Cut_None [THEN iffD2])
    ultimately show ?thesis using Apart lookup_own [OF a] nb c n(1) by simp
  qed
qed

definition put_setting :: "converters \<Rightarrow> setting \<Rightarrow> flag_state \<Rightarrow> flag_state" where
  "put_setting cv s st = (case convert cv s of Inl e \<Rightarrow> st | Inr v \<Rightarrow> store_flag (setting_flag s) v st)"

lemma parse_settings:
  assumes "\<forall>s \<in> set ss. setting_ok s \<and> (\<exists>v. convert cv s = Inr v)"
  shows "parseFlags cv app_flags (concat (map arguments ss) @ rargs) pos st = parseFlags cv app_flags rargs pos (fold (put_setting cv) ss st)"
  using assms
proof (induction ss arbitrary: st)
  case (Cons s ss)
  then obtain v where "setting_ok s" "convert cv s = Inr v" by auto
  then show ?case using Cons parse_setting [of s cv v] by (simp add: put_setting_def)
qed simp

text \<open>The last setting of a flag.\<close>

definition given :: "setting list \<Rightarrow> cli_flag \<Rightarrow> setting option" where
  "given ss f = find (\<lambda>s. fl_Name (setting_flag s) = fl_Name f) (rev ss)"

lemma put_settings_value:
  assumes "\<forall>s \<in> set ss. \<exists>v. convert cv s = Inr v"
  shows "map_of (fs_value (fold (put_setting cv) ss st)) (fl_Name f) =
     (case given ss f of None \<Rightarrow> map_of (fs_value st) (fl_Name f)
      | Some s \<Rightarrow> (case convert cv s of Inl e \<Rightarrow> None | Inr v \<Rightarrow> Some v))"
    and "fl_Name f \<in> set (fs_set (fold (put_setting cv) ss st)) \<longleftrightarrow> given ss f \<noteq> None \<or> fl_Name f \<in> set (fs_set st)"
  using assms
  by (induction ss rule: rev_induct) (auto simp: given_def put_setting_def store_flag_def update_conv' split: sum.splits)

section \<open>The rule\<close>

definition resolved :: "converters \<Rightarrow> (string \<Rightarrow> string option) \<Rightarrow> setting list \<Rightarrow> cli_flag \<Rightarrow> goerr + flag_value" where
  "resolved cv env ss f =
     (case given ss f of
        Some s \<Rightarrow> convert cv s
      | None \<Rightarrow>
          (case lookup_sources env (fl_Sources f) of
             None \<Rightarrow> Inr (fl_Value f)
           | Some val \<Rightarrow> if val = [] \<and> \<not> is_string_flag (fl_Value f) then Inr (fl_Value f) else set_value cv f val))"

lemma PostParse_other:
  assumes "PostParse cv env f st = Inr st'" "fl_Name g \<noteq> fl_Name f"
  shows "map_of (fs_value st') (fl_Name g) = map_of (fs_value st) (fl_Name g)"
    "fl_Name g \<in> set (fs_set st') \<longleftrightarrow> fl_Name g \<in> set (fs_set st)"
  using assms by (auto simp: PostParse_def store_flag_def update_conv' split: if_splits option.splits sum.splits)

lemma post_parse_other:
  assumes "post_parse cv env fs st = Inr st'" "fl_Name g \<notin> fl_Name ` set fs"
  shows "map_of (fs_value st') (fl_Name g) = map_of (fs_value st) (fl_Name g)"
  using assms by (induction fs arbitrary: st) (auto split: sum.splits dest: PostParse_other)

text \<open>
  The loop over the environment, on a state the settings left: it succeeds when every flag
  resolves, and gives each flag the value it resolves to.
\<close>

locale settings_done =
  fixes cv :: converters and env :: "string \<Rightarrow> string option" and ss :: "setting list"
  assumes all_resolve: "f \<in> set newApp_Flags \<Longrightarrow> \<exists>v. resolved cv env ss f = Inr v"
begin

definition pending :: "flag_state \<Rightarrow> cli_flag \<Rightarrow> bool" where
  "pending st f \<longleftrightarrow> (fl_Name f \<in> set (fs_set st) \<longleftrightarrow> given ss f \<noteq> None)
     \<and> map_of (fs_value st) (fl_Name f) = (case given ss f of None \<Rightarrow> Some (fl_Value f)
         | Some s \<Rightarrow> (case convert cv s of Inl e \<Rightarrow> None | Inr v \<Rightarrow> Some v))"

lemma PostParse_resolves:
  assumes "pending st f" "resolved cv env ss f = Inr v" "\<not> is_bool_flag (fl_Value f)"
  shows "\<exists>st'. PostParse cv env f st = Inr st' \<and> map_of (fs_value st') (fl_Name f) = Some v"
  using assms
  by (auto simp: pending_def resolved_def PostParse_def store_flag_def split: option.splits if_splits sum.splits)

lemma post_parse_resolves:
  assumes "set fs \<subseteq> set newApp_Flags" "distinct (map fl_Name fs)" "\<forall>f \<in> set fs. pending st f"
  shows "\<exists>st'. post_parse cv env fs st = Inr st' \<and>
     (\<forall>f \<in> set fs. \<forall>v. resolved cv env ss f = Inr v \<longrightarrow> map_of (fs_value st') (fl_Name f) = Some v)"
  using assms
proof (induction fs arbitrary: st)
  case (Cons f fs)
  obtain v where v: "resolved cv env ss f = Inr v" using all_resolve Cons.prems(1) by auto
  have "\<not> is_bool_flag (fl_Value f)" using table_flags Cons.prems(1) by (auto simp: list_all_iff)
  then obtain st1 where st1: "PostParse cv env f st = Inr st1" "map_of (fs_value st1) (fl_Name f) = Some v"
    using PostParse_resolves [OF _ v] Cons.prems(3) by auto
  have "pending st1 g" if "g \<in> set fs" for g
  proof -
    have "fl_Name g \<noteq> fl_Name f" using that Cons.prems(2) by (auto simp: image_iff)
    then show ?thesis using PostParse_other [OF st1(1)] Cons.prems(3) that by (auto simp: pending_def)
  qed
  then obtain st' where st': "post_parse cv env fs st1 = Inr st'"
    "\<forall>g \<in> set fs. \<forall>v. resolved cv env ss g = Inr v \<longrightarrow> map_of (fs_value st') (fl_Name g) = Some v"
    using Cons.IH [of st1] Cons.prems(1,2) by auto
  have "map_of (fs_value st') (fl_Name f) = Some v"
    using post_parse_other [OF st'(1), of f] st1(2) Cons.prems(2) by simp
  then show ?case using st1(1) st' v by auto
qed simp

end

text \<open>The help and the version flag have no variables: the environment leaves them alone.\<close>

lemma post_parse_append:
  "post_parse cv env (fs @ gs) st = (case post_parse cv env fs st of Inl e \<Rightarrow> Inl e | Inr st1 \<Rightarrow> post_parse cv env gs st1)"
  by (induction fs arbitrary: st) (auto split: sum.splits)

lemma post_parse_builtin: "post_parse cv env [HelpFlag, VersionFlag] st = Inr st"
  by (simp add: PostParse_def HelpFlag_def VersionFlag_def)

text \<open>Without arguments and without a matching variable every flag resolves, to its default.\<close>

interpretation defaults: settings_done cv "\<lambda>_. None" "[]" for cv
proof
  have "lookup_sources (\<lambda>_. None) keys = None" for keys by (induction keys) auto
  then show "\<exists>v. resolved cv (\<lambda>_. None) [] f = Inr v" for f by (simp add: resolved_def given_def)
qed

lemma given_builtin:
  assumes "\<forall>s \<in> set ss. setting_ok s"
  shows "given ss HelpFlag = None" "given ss VersionFlag = None"
proof -
  have "fl_Name (setting_flag s) \<noteq> fl_Name HelpFlag \<and> fl_Name (setting_flag s) \<noteq> fl_Name VersionFlag" if "s \<in> set ss" for s
  proof -
    have "setting_flag s \<in> set newApp_Flags" using assms that by (cases s) auto
    moreover have "list_all (\<lambda>f. fl_Name f \<noteq> fl_Name HelpFlag \<and> fl_Name f \<noteq> fl_Name VersionFlag) newApp_Flags" by code_simp
    ultimately show ?thesis by (auto simp: list_all_iff)
  qed
  then show "given ss HelpFlag = None" "given ss VersionFlag = None" by (auto simp: given_def find_None_iff)
qed

lemma PreParse_value: "f \<in> set app_flags \<Longrightarrow> map_of (fs_value (PreParse app_flags)) (fl_Name f) = Some (fl_Value f)"
  using app_flags_distinct(2) by (force simp: PreParse_def comp_def intro!: map_of_is_SomeI)

lemma settings_no_help:
  assumes "\<forall>s \<in> set ss. setting_ok s \<and> (\<exists>v. convert cv s = Inr v)"
  shows "map_of (fs_value (fold (put_setting cv) ss (PreParse app_flags))) ''help'' = Some (BoolV False)"
proof -
  have conv: "\<forall>s \<in> set ss. \<exists>v. convert cv s = Inr v" using assms by blast
  have h: "HelpFlag \<in> set app_flags" "fl_Name HelpFlag = ''help''" "fl_Value HelpFlag = BoolV False"
    by (simp_all add: app_flags_eq HelpFlag_def)
  show ?thesis
    using put_settings_value(1) [OF conv, of "PreParse app_flags" HelpFlag] given_builtin(1) [of ss] assms PreParse_value [OF h(1)]
    unfolding h(2,3) by simp
qed

section \<open>Properties\<close>

definition cv_sample :: converters where
  "cv_sample = \<lparr>cv_ParseInt = Atoi,
     cv_ParseDuration = (\<lambda>s. if s = ''60s'' then Inr (60 * second) else if s = ''0s'' then Inr 0 else Inl (NumError s)), cv_klog = (\<lambda>n v. None)\<rparr>"

text \<open>
  C34. Flags resolve by one rule. For every command line that sets flags of the table, each any
  number of times, in one argument or in two, to values that convert, the action runs with
  each flag at the value it was given last; a flag not given has the value of its
  environment variable, and failing that its default. A variable that is set but empty counts
  for a string flag only.
\<close>

theorem flag_precedence:
  assumes "\<forall>s \<in> set ss. setting_ok s \<and> (\<exists>v. convert (cw_converters cw) s = Inr v)"
    and "\<And>f. f \<in> set newApp_Flags \<Longrightarrow> \<exists>v. resolved (cw_converters cw) (cw_LookupEnv cw) ss f = Inr v"
  shows "\<exists>val. app_Run cw sys r (concat (map arguments ss)) w = Action sys r (destinations val) w
     \<and> (\<forall>f \<in> set newApp_Flags. \<forall>v. resolved (cw_converters cw) (cw_LookupEnv cw) ss f = Inr v \<longrightarrow> val (fl_Name f) = Some v)"
proof -
  let ?cv = "cw_converters cw" and ?env = "cw_LookupEnv cw"
  let ?st = "fold (put_setting ?cv) ss (PreParse app_flags)"
  have sd: "settings_done ?cv ?env ss" by unfold_locales (rule assms(2))
  have conv: "\<forall>s \<in> set ss. \<exists>v. convert ?cv s = Inr v" using assms(1) by blast
  note vals = put_settings_value [OF conv, where st = "PreParse app_flags"]
  note gb = given_builtin [of ss]
  have pend: "settings_done.pending ?cv ss ?st f" if "f \<in> set newApp_Flags" for f
    using vals [of f] PreParse_value [of f] that
    by (simp add: settings_done.pending_def [OF sd] app_flags_eq PreParse_def split: option.splits)
  note nohelp = settings_no_help [OF assms(1)]
  have "fl_Name VersionFlag \<notin> set (fs_set ?st)"
    using vals(2) [of VersionFlag] gb assms(1) by (simp add: PreParse_def)
  then have version: "''version'' \<notin> set (fs_set ?st)" by (simp add: VersionFlag_def)
  obtain st' where st': "post_parse ?cv ?env newApp_Flags ?st = Inr st'"
    "\<forall>f \<in> set newApp_Flags. \<forall>v. resolved ?cv ?env ss f = Inr v \<longrightarrow> map_of (fs_value st') (fl_Name f) = Some v"
    using settings_done.post_parse_resolves [OF sd, of newApp_Flags ?st] pend app_flags_distinct(2)
    by (auto simp: app_flags_eq)
  have "post_parse ?cv ?env app_flags ?st = Inr st'"
    unfolding app_flags_eq post_parse_append using st'(1) post_parse_builtin by (simp add: app_flags_eq [symmetric] del: post_parse.simps)
  then have "app_Run cw sys r (concat (map arguments ss)) w = Action sys r (destinations (map_of (fs_value st'))) w"
    using parse_settings [OF assms(1), of "[]" "[]" "PreParse app_flags"] nohelp version
    by (simp add: app_Run_def app_flags_def [symmetric] Let_def)
  then show ?thesis using st'(2) by blast
qed

definition cw_sample :: command_world where
  "cw_sample = \<lparr>cw_converters = cv_sample,
     cw_LookupEnv = (\<lambda>k. if k = ''NODE_NAME'' then Some ''n1'' else if k = ''HEALTHCHECK_PORT'' then Some [] else None),
     cw_showHelp = (\<lambda>_. None)\<rparr>"

definition ss_sample :: "setting list" where
  "ss_sample = (let cdi = mk_flag ''cdi-root'' (StringV ''/var/run/cdi'') ''CDI_ROOT'' in [Apart cdi ''/x'', Joined cdi ''/y''])"

lemma ss_sample_ok:
  "list_all (\<lambda>s. setting_ok s \<and> \<not> isl (convert cv_sample s)) ss_sample"
  "list_all (\<lambda>f. \<not> isl (resolved cv_sample (cw_LookupEnv cw_sample) ss_sample f)) newApp_Flags"
  by code_simp+

text \<open>The last of two directories, a node name from the environment, an empty variable that does not count.\<close>

theorem flag_precedence_witness:
  "\<exists>r val. newRegistry defaultFeatureGates = Some r
     \<and> app_Run cw_sample sys_sample r [''--cdi-root'', ''/x'', ''--cdi-root=/y''] w_node = Action sys_sample r (destinations val) w_node
     \<and> val ''cdi-root'' = Some (StringV ''/y'') \<and> val ''node-name'' = Some (StringV ''n1'') \<and> val ''healthcheck-port'' = Some (IntV (-1))"
proof -
  have "newRegistry defaultFeatureGates \<noteq> None" by code_simp
  then obtain r where r: "newRegistry defaultFeatureGates = Some r" by blast
  have inr: "\<not> isl x \<Longrightarrow> \<exists>v. x = Inr v" for x :: "goerr + flag_value" by (cases x) auto
  have args: "concat (map arguments ss_sample) = [''--cdi-root'', ''/x'', ''--cdi-root=/y'']" by code_simp
  let ?res = "resolved cv_sample (cw_LookupEnv cw_sample) ss_sample"
  let ?cdi = "mk_flag ''cdi-root'' (StringV ''/var/run/cdi'') ''CDI_ROOT''" and ?node = "mk_flag ''node-name'' (StringV []) ''NODE_NAME''"
    and ?port = "mk_flag ''healthcheck-port'' (IntV (-1)) ''HEALTHCHECK_PORT''"
  have m: "?cdi \<in> set newApp_Flags" "?node \<in> set newApp_Flags" "?port \<in> set newApp_Flags" by (simp_all add: newApp_Flags_def)
  have res: "?res ?cdi = Inr (StringV ''/y'')" "?res ?node = Inr (StringV ''n1'')" "?res ?port = Inr (IntV (-1))" by code_simp+
  have cv: "cw_converters cw_sample = cv_sample" by (simp add: cw_sample_def)
  have "\<forall>s \<in> set ss_sample. setting_ok s \<and> (\<exists>v. convert (cw_converters cw_sample) s = Inr v)"
    using ss_sample_ok(1) inr unfolding list_all_iff cv by blast
  moreover have "\<exists>v. resolved (cw_converters cw_sample) (cw_LookupEnv cw_sample) ss_sample f = Inr v" if "f \<in> set newApp_Flags" for f
    using ss_sample_ok(2) inr that unfolding list_all_iff cv by blast
  ultimately obtain val where "app_Run cw_sample sys_sample r (concat (map arguments ss_sample)) w_node = Action sys_sample r (destinations val) w_node"
    and v: "\<forall>f \<in> set newApp_Flags. \<forall>v. ?res f = Inr v \<longrightarrow> val (fl_Name f) = Some v"
    using flag_precedence [of ss_sample cw_sample sys_sample r w_node] unfolding cv by blast
  moreover have "val (fl_Name ?cdi) = Some (StringV ''/y'')" "val (fl_Name ?node) = Some (StringV ''n1'')" "val (fl_Name ?port) = Some (IntV (-1))"
    using v m res by blast+
  ultimately show ?thesis using r unfolding args by (auto simp: mk_flag_def)
qed

text \<open>An argument that names no flag ends the run before anything is touched, wherever it stands among settings.\<close>

lemma unknown_flag_rejected:
  assumes "\<forall>s \<in> set ss. setting_ok s \<and> (\<exists>v. convert (cw_converters cw) s = Inr v)"
    and "lookupAppliedFlag app_flags n = None" and "n \<noteq> []" and "\<forall>c \<in> set n. c \<noteq> CHR ''='' \<and> \<not> is_space c"
  shows "\<exists>e. app_Run cw sys r (concat (map arguments ss) @ (''--'' @ n) # rargs) w = (Some (AppError e), w)"
proof -
  let ?cv = "cw_converters cw"
  let ?st = "fold (put_setting ?cv) ss (PreParse app_flags)"
  have "TrimSpace (''--'' @ n) = ''--'' @ n" using assms(3,4) by (intro TrimSpace_ends) (simp_all add: is_space_def)
  moreover have "CHR ''='' \<notin> set n" using assms(4) by blast
  then have "split_flag n = (n, None)" by (simp add: split_flag_def Cut_None [THEN iffD2])
  ultimately have p: "parseFlags ?cv app_flags ((''--'' @ n) # rargs) [] ?st =
      (Some (Errorf ''flag provided but not defined: -%s'' [FStr n]), [], ?st)"
    using assms(2,3) by simp
  then have "parseFlags ?cv app_flags (concat (map arguments ss) @ (''--'' @ n) # rargs) [] (PreParse app_flags) =
      (Some (Errorf ''flag provided but not defined: -%s'' [FStr n]), [], ?st)"
    using parse_settings [OF assms(1)] by metis
  then show ?thesis
    unfolding app_Run_def app_flags_def [symmetric] Let_def using settings_no_help [OF assms(1)] by (simp del: parseFlags.simps)
qed

section \<open>Exit codes\<close>

text \<open>The flags the action sees, when the command line reaches it.\<close>

definition action_flags :: "command_world \<Rightarrow> string list \<Rightarrow> Flags option" where
  "action_flags cw args =
     (case parseFlags (cw_converters cw) app_flags args [] (PreParse app_flags) of (err, posArgs, st) \<Rightarrow>
        if err \<noteq> None \<or> map_of (fs_value st) ''help'' = Some (BoolV True) \<or> ''version'' \<in> set (fs_set st) then None
        else (case post_parse (cw_converters cw) (cw_LookupEnv cw) app_flags st of
                Inl e \<Rightarrow> None
              | Inr st1 \<Rightarrow> Some (destinations (map_of (fs_value st1)))))"

lemma app_Run_action:
  assumes "action_flags cw args = Some flags"
  shows "app_Run cw sys r args w = Action sys r flags w"
  using assms
  by (auto simp: action_flags_def app_Run_def app_flags_def [symmetric] Let_def split: prod.splits if_splits sum.splits)

lemma app_Run_no_action:
  assumes "action_flags cw args = None" and "app_Run cw sys r args w = (res, w')"
  shows "w' = w" and "res = None \<longrightarrow> asked [''help'', ''h'', ''version''] args" and "res \<noteq> None \<longrightarrow> (\<exists>e. res = Some (AppError e))"
proof -
  obtain err pos st where p: "parseFlags (cw_converters cw) app_flags args [] (PreParse app_flags) = (err, pos, st)" by (metis prod.exhaust)
  note run = assms [unfolded action_flags_def app_Run_def app_flags_def [symmetric] Let_def p prod.case]
  show "w' = w" "res \<noteq> None \<longrightarrow> (\<exists>e. res = Some (AppError e))"
    using run by (auto split: option.splits if_splits sum.splits)
  have "HelpFlag \<in> set app_flags" "VersionFlag \<in> set app_flags" by (simp_all add: app_flags_eq)
  note un = this [THEN parseFlags_unasked, OF _ p]
  have n: "fl_Name HelpFlag = ''help''" "fl_Name VersionFlag = ''version''" by (simp_all add: HelpFlag_def VersionFlag_def)
  have d: "map_of (fs_value (PreParse app_flags)) ''help'' = Some (BoolV False)"
    using PreParse_value [of HelpFlag] by (simp add: app_flags_eq HelpFlag_def)
  have "asked [''help'', ''h''] args" if "map_of (fs_value st) ''help'' = Some (BoolV True)"
    using un(1) that d unfolding n by (auto simp: HelpFlag_def)
  moreover have "asked [''version''] args" if "''version'' \<in> set (fs_set st)"
    using un(2) that unfolding n by (auto simp: VersionFlag_def PreParse_def)
  moreover have "map_of (fs_value st) ''help'' = Some (BoolV True) \<or> ''version'' \<in> set (fs_set st)" if "res = None"
    using run that by (auto split: option.splits if_splits sum.splits)
  ultimately show "res = None \<longrightarrow> asked [''help'', ''h'', ''version''] args" by (auto simp: asked_def)
qed

text \<open>
  C33. What the exit code of the process tells. When the command line does not reach the
  action, because of a usage error, or because help or the version is asked for, nothing on
  the node is touched; the code is then 0 only if an argument names the help or the version
  flag, and 1 otherwise. When it does: a rejected gate value, a gate combination that serves
  nothing and a rejected machine ID give 1, an abort of the preflight phase behind them gives
  2, and in these cases too nothing has been touched. With a scan interval that is positive
  and at most a tenth of the range of a duration every other run gives 0 or 1, so that 2
  means the preflight phase; with another interval a panic, which exits with 2 as well, is
  possible. The code is 0 only after the driver has started and its context has ended with a
  cancellation, with a positive scan interval.
\<close>

theorem exit_codes:
  assumes "app_Run cw sys r args w = (res, w')"
  shows "case action_flags cw args of
     None \<Rightarrow> w' = w \<and> (main_exit res = 1 \<or> main_exit res = 0 \<and> asked [''help'', ''h'', ''version''] args)
   | Some flags \<Rightarrow>
       (\<not> config_ok sys r flags \<longrightarrow> main_exit res = 1 \<and> w' = w)
     \<and> (config_ok sys r flags \<and> \<not> preflight_ok sys r flags w \<longrightarrow> main_exit res = 2 \<and> w' = w)
     \<and> (config_ok sys r flags \<and> preflight_ok sys r flags w \<and> 0 < f_scanInterval flags \<and> f_scanInterval flags \<le> (2 ^ 63 - 1) div 10
          \<longrightarrow> main_exit res \<in> {0, 1})
     \<and> (main_exit res = 0 \<longrightarrow> config_ok sys r flags \<and> preflight_ok sys r flags w \<and> 0 < f_scanInterval flags
          \<and> errors_Is_Canceled (sys_cause sys)
          \<and> (\<exists>flags1 d w1 w2. resolve_nodeName sys flags = Inr flags1
               \<and> New ((sys_env sys)\<lparr>e_gate := configured_gate sys r flags\<rparr>) (sys_helper sys) (driver_config sys flags1) w1 = (Inr d, w2)))"
proof (cases "action_flags cw args")
  case None
  note no = app_Run_no_action [OF None assms]
  then have "main_exit res = 1 \<or> main_exit res = 0 \<and> asked [''help'', ''h'', ''version''] args"
    by (cases res) (auto simp: main_exit_def)
  then show ?thesis using None no(1) by simp
next
  case (Some flags)
  then have "Action sys r flags w = (res, w')" using assms app_Run_action by metis
  then show ?thesis using Action_exit Some by simp
qed

text \<open>
  A node without vfio_ap, once with an unknown gate on the command line and once as shipped:
  the first start is refused, the second aborted by the preflight phase.
\<close>

theorem exit_codes_witness:
  "\<exists>r e n. newRegistry defaultFeatureGates = Some r
     \<and> app_Run cw_sample sys_sample r [''--feature-gates=Nope=true''] w_node = (e, w_node) \<and> main_exit e = 1
     \<and> app_Run cw_sample sys_sample r [] w_node = (n, w_node) \<and> main_exit n = 2"
proof -
  let ?bad = "[''--feature-gates=Nope=true'']"
  have "case newRegistry defaultFeatureGates of None \<Rightarrow> False
      | Some r \<Rightarrow> (case action_flags cw_sample ?bad of None \<Rightarrow> False | Some flags \<Rightarrow> \<not> config_ok sys_sample r flags)
          \<and> (case action_flags cw_sample [] of None \<Rightarrow> False
             | Some flags \<Rightarrow> config_ok sys_sample r flags \<and> \<not> preflight_ok sys_sample r flags w_node)" by code_simp
  then obtain r f g where r: "newRegistry defaultFeatureGates = Some r"
    and f: "action_flags cw_sample ?bad = Some f" "\<not> config_ok sys_sample r f"
    and g: "action_flags cw_sample [] = Some g" "config_ok sys_sample r g" "\<not> preflight_ok sys_sample r g w_node"
    by (auto split: option.splits)
  obtain e w1 n w2 where run: "app_Run cw_sample sys_sample r ?bad w_node = (e, w1)" "app_Run cw_sample sys_sample r [] w_node = (n, w2)"
    by (metis prod.exhaust)
  have "main_exit e = 1" "w1 = w_node" using exit_codes [OF run(1)] f by simp_all
  moreover have "main_exit n = 2" "w2 = w_node" using exit_codes [OF run(2)] g by simp_all
  ultimately show ?thesis using r run by blast
qed

text \<open>
  The same code 2 without a failed check: an interval of zero passes every check of the
  start, and a ticker panics, the watchdog's or, when that does not come to run, the scan
  loop's.
\<close>

lemma zero_interval_panics:
  "case newRegistry defaultFeatureGates of None \<Rightarrow> False
   | Some r \<Rightarrow> list_all (\<lambda>b. fst (app_Run cw_sample (sys_sample\<lparr>sys_skip_preflight := ''true'', sys_watch_runs := b\<rparr>) r
       [''--scan-interval=0s'', ''--machine-id=m''] w_bus) = Some Panicked) [True, False]"
  by code_simp

end
