(* ===== verification/Logphase.thy ===== *)
theory Logphase
  imports Binding
begin

text \<open>
  Package \<open>internal/logphase\<close>, and the log lines of \<open>internal/binding/binding.go\<close>
  written through it.

  The other theories leave log output out. For the package whose log lines cost something,
  a read-back of \<open>driver_override\<close> that only a log line uses, this theory writes the
  functions out with their lines and shows that what they do is what \<open>Binding\<close> says.

  A line is kept as its phase, format string and arguments, like an error, and not rendered.
  klog is the function saying whether a verbosity level is enabled at the call, and the lines so far.
\<close>

section \<open>The package\<close>

definition phase_Startup :: string where "phase_Startup = ''STARTUP''"
definition phase_Preflight :: string where "phase_Preflight = ''PREFLIGHT''"
definition phase_Registration :: string where "phase_Registration = ''REGISTRATION''"
definition phase_Init :: string where "phase_Init = ''INIT''"
definition phase_ScanLoop :: string where "phase_ScanLoop = ''SCAN-LOOP''"
definition phase_Allocate :: string where "phase_Allocate = ''ALLOCATE''"
definition phase_Preparation :: string where "phase_Preparation = ''PREPARATION''"

datatype severity = Info | Warning

datatype log_arg = LStr string | LInt int | LErr goerr

record log_message =
  m_phase :: string
  m_format :: string
  m_args :: "log_arg list"

record klog =
  kl_V :: "int \<Rightarrow> bool"
  kl_lines :: "(severity \<times> log_message) list"

definition line :: "string \<Rightarrow> string \<Rightarrow> log_arg list \<Rightarrow> log_message" where
  "line phase format args = \<lparr>m_phase = phase, m_format = format, m_args = args\<rparr>"

definition klog_InfoDepth :: "log_message \<Rightarrow> klog \<Rightarrow> klog" where
  "klog_InfoDepth m k = k\<lparr>kl_lines := kl_lines k @ [(Info, m)]\<rparr>"

definition klog_WarningDepth :: "log_message \<Rightarrow> klog \<Rightarrow> klog" where
  "klog_WarningDepth m k = k\<lparr>kl_lines := kl_lines k @ [(Warning, m)]\<rparr>"

definition Logf :: "string \<Rightarrow> string \<Rightarrow> log_arg list \<Rightarrow> klog \<Rightarrow> klog" where
  "Logf phase format args k = klog_InfoDepth (line phase format args) k"

definition Warnf :: "string \<Rightarrow> string \<Rightarrow> log_arg list \<Rightarrow> klog \<Rightarrow> klog" where
  "Warnf phase format args k = klog_WarningDepth (line phase format args) k"

definition Vf :: "int \<Rightarrow> string \<Rightarrow> string \<Rightarrow> log_arg list \<Rightarrow> klog \<Rightarrow> klog" where
  "Vf level phase format args k =
     (if \<not> kl_V k level then k else klog_InfoDepth (line phase format args) k)"

definition VEnabled :: "int \<Rightarrow> klog \<Rightarrow> bool" where
  "VEnabled level k = kl_V k level"

section \<open>The switches with their lines\<close>

definition detailLevel :: int where "detailLevel = 4"

definition unbindQueue_log :: "'w os \<Rightarrow> string \<Rightarrow> string \<Rightarrow> string \<Rightarrow> 'w \<Rightarrow> klog \<Rightarrow> goerr option \<times> 'w \<times> klog" where
  "unbindQueue_log os queueID apid apqi w k =
     (case os_WriteFile os (deviceUnbindPath apid apqi) queueID sysfsWriteMode w of
        (None, w1) \<Rightarrow> (None, w1, k)
      | (Some err, w1) \<Rightarrow>
          if errors_Is_NotExist err
          then (None, w1, Logf phase_Preparation ''%s: bound to no driver, nothing to unbind'' [LStr queueID] k)
          else (Some (Wrapf ''unbind %s from current driver: %w'' [FStr queueID] err), w1, k))"

definition SwitchToVFIOAP_log :: "'w os \<Rightarrow> string \<Rightarrow> string \<Rightarrow> 'w \<Rightarrow> klog \<Rightarrow> goerr option \<times> 'w \<times> klog" where
  "SwitchToVFIOAP_log os apid apqi w k =
     (let queueID = apid @ ''.'' @ apqi in
      case os_WriteFile os (driverOverridePath apid apqi) ''vfio_ap'' sysfsWriteMode w of
        (Some err, w1) \<Rightarrow> (Some (Wrapf ''write driver_override for %s: %w'' [FStr queueID] err), w1, k)
      | (None, w1) \<Rightarrow>
          (case unbindQueue_log os queueID apid apqi w1 k of
             (Some err, w2, k1) \<Rightarrow> (Some err, w2, k1)
           | (None, w2, k1) \<Rightarrow>
               (case os_WriteFile os DriversProbePath queueID sysfsWriteMode w2 of
                  (Some err, w3) \<Rightarrow> (Some (Wrapf ''drivers_probe %s: %w'' [FStr queueID] err), w3, k1)
                | (None, w3) \<Rightarrow> (None, w3, Logf phase_Preparation ''Switched %s to vfio-ap via driver_override'' [LStr queueID] k1))))"

text \<open>The read-back: skipped unless its level is enabled.\<close>

definition logOverride :: "'w os \<Rightarrow> string \<Rightarrow> string \<Rightarrow> string \<Rightarrow> 'w \<Rightarrow> klog \<Rightarrow> klog" where
  "logOverride os queueID overridePath stage w k =
     (if \<not> VEnabled detailLevel k then k
      else (case ReadFile os overridePath w of
              Inl err \<Rightarrow> Vf detailLevel phase_Preparation ''%s: cannot read driver_override %s clear: %v'' [LStr queueID, LStr stage, LErr err] k
            | Inr cur \<Rightarrow> Vf detailLevel phase_Preparation ''%s: driver_override %s clear: %q (len=%d)''
                           [LStr queueID, LStr stage, LStr cur, LInt (int (length cur))] k))"

definition SwitchToZcrypt_log :: "'w os \<Rightarrow> string \<Rightarrow> string \<Rightarrow> 'w \<Rightarrow> klog \<Rightarrow> goerr option \<times> 'w \<times> klog" where
  "SwitchToZcrypt_log os apid apqi w k =
     (let queueID = apid @ ''.'' @ apqi in
      case unbindQueue_log os queueID apid apqi w k of
        (Some err, w1, k1) \<Rightarrow> (Some err, w1, k1)
      | (None, w1, k1) \<Rightarrow>
          (let overridePath = driverOverridePath apid apqi;
               k2 = logOverride os queueID overridePath ''before'' w1 k1;
               k3 = Vf detailLevel phase_Preparation ''%s: clearing driver_override - writing %q to %s''
                      [LStr queueID, LStr [nl], LStr overridePath] k2
           in case os_WriteFile os overridePath [nl] sysfsWriteMode w1 of
                (Some err, w2) \<Rightarrow> (Some (Wrapf ''clear driver_override for %s: %w'' [FStr queueID] err), w2, k3)
              | (None, w2) \<Rightarrow>
                  (let k4 = logOverride os queueID overridePath ''after'' w2 k3;
                       k5 = Vf detailLevel phase_Preparation ''%s: probing - writing %q to %s''
                              [LStr queueID, LStr queueID, LStr DriversProbePath] k4
                   in case os_WriteFile os DriversProbePath queueID sysfsWriteMode w2 of
                        (Some err, w3) \<Rightarrow>
                          (case os_WriteFile os overridePath ''vfio_ap'' sysfsWriteMode w3 of (mErr, w4) \<Rightarrow>
                             (Some (Wrapf ''drivers_probe %s: %w'' [FStr queueID] err), w4,
                              (case mErr of
                                 None \<Rightarrow> k5
                               | Some e \<Rightarrow> Logf phase_Preparation ''Warning: restore of drain marker for %s failed: %v''
                                             [LStr queueID, LErr e] k5)))
                      | (None, w3) \<Rightarrow>
                          (None, w3, Logf phase_Preparation ''Switched %s back to zcrypt via driver_override'' [LStr queueID] k5))))"

section \<open>What the lines change\<close>

text \<open>
  \<open>extends ok k k'\<close>: from \<open>k\<close> to \<open>k'\<close> only lines were appended, every one of them one
  that \<open>ok\<close> allows.
\<close>

definition extends :: "(severity \<times> log_message \<Rightarrow> bool) \<Rightarrow> klog \<Rightarrow> klog \<Rightarrow> bool" where
  "extends ok k k' \<longleftrightarrow> kl_V k' = kl_V k \<and> (\<exists>ms. kl_lines k' = kl_lines k @ ms \<and> list_all ok ms)"

lemma extends_refl [simp]: "extends ok k k"
  by (simp add: extends_def)

lemma extends_Logf: "extends ok k k1 \<Longrightarrow> ok (Info, line p f as) \<Longrightarrow> extends ok k (Logf p f as k1)"
  by (auto simp: extends_def Logf_def klog_InfoDepth_def)

lemma extends_Vf: "extends ok k k1 \<Longrightarrow> ok (Info, line p f as) \<Longrightarrow> extends ok k (Vf l p f as k1)"
  by (auto simp: extends_def Vf_def klog_InfoDepth_def)

text \<open>\<open>VEnabled\<close> says exactly whether \<open>Vf\<close> would write a line.\<close>

lemma VEnabled_Vf: "VEnabled level k \<longleftrightarrow> kl_lines (Vf level p f as k) \<noteq> kl_lines k"
  by (simp add: VEnabled_def Vf_def klog_InfoDepth_def)

definition of_preparation :: "severity \<times> log_message \<Rightarrow> bool" where
  "of_preparation m \<longleftrightarrow> fst m = Info \<and> m_phase (snd m) = phase_Preparation"

lemma of_preparation_line [simp]: "of_preparation (Info, line phase_Preparation f as)"
  by (simp add: of_preparation_def line_def)

lemma extends_logOverride:
  "extends of_preparation k k1 \<Longrightarrow> extends of_preparation k (logOverride os q p t w k1)"
  by (simp add: logOverride_def extends_Vf split: sum.split)

lemmas extends_intros = extends_Logf extends_Vf extends_logOverride

lemma logOverride_quiet: "\<not> kl_V k detailLevel \<Longrightarrow> logOverride os q p t w k = k"
  by (simp add: logOverride_def VEnabled_def)

lemma Vf_quiet: "\<not> kl_V k l \<Longrightarrow> Vf l p f as k = k"
  by (simp add: Vf_def)

text \<open>
  The lines are all a switch adds to what \<open>Binding\<close> says of it: its result and the node it
  leaves are those of the function without them, whatever the level, and the log it leaves
  is the old one with lines of the claim preparation phase after it.
\<close>

definition forget :: "goerr option \<times> 'w \<times> klog \<Rightarrow> goerr option \<times> 'w" where
  "forget r = (fst r, fst (snd r))"

definition log_of :: "goerr option \<times> 'w \<times> klog \<Rightarrow> klog" where
  "log_of r = snd (snd r)"

lemma unbindQueue_log_erases: "forget (unbindQueue_log os q apid apqi w k) = unbindQueue os q apid apqi w"
  by (auto simp: unbindQueue_log_def unbindQueue_def forget_def split: prod.split option.split)

lemma unbindQueue_log_cases:
  obtains r w' k' where "unbindQueue_log os q apid apqi w k = (r, w', k')"
    and "unbindQueue os q apid apqi w = (r, w')" and "extends of_preparation k k'"
proof -
  obtain r w' k' where r: "unbindQueue_log os q apid apqi w k = (r, w', k')" by (metis prod_cases3)
  moreover have "unbindQueue os q apid apqi w = (r, w')"
    using unbindQueue_log_erases [of os q apid apqi w k] r by (simp add: forget_def)
  moreover have "extends of_preparation k k'"
    using r by (auto simp: unbindQueue_log_def extends_Logf split: prod.splits option.splits if_splits)
  ultimately show thesis using that by blast
qed

theorem SwitchToVFIOAP_log_erases:
  "forget (SwitchToVFIOAP_log os apid apqi w k) = SwitchToVFIOAP os apid apqi w
   \<and> extends of_preparation k (log_of (SwitchToVFIOAP_log os apid apqi w k))"
proof (cases "os_WriteFile os (driverOverridePath apid apqi) ''vfio_ap'' sysfsWriteMode w")
  case (Pair r w1)
  obtain r2 w2 k2 where u: "unbindQueue_log os (apid @ ''.'' @ apqi) apid apqi w1 k = (r2, w2, k2)"
      "unbindQueue os (apid @ ''.'' @ apqi) apid apqi w1 = (r2, w2)" "extends of_preparation k k2"
    by (rule unbindQueue_log_cases)
  then show ?thesis
    using Pair
    by (simp add: extends_intros SwitchToVFIOAP_log_def SwitchToVFIOAP_def Let_def forget_def log_of_def
        split: option.split prod.split)
qed

theorem SwitchToZcrypt_log_erases:
  "forget (SwitchToZcrypt_log os apid apqi w k) = SwitchToZcrypt os apid apqi w
   \<and> extends of_preparation k (log_of (SwitchToZcrypt_log os apid apqi w k))"
proof -
  let ?q = "apid @ ''.'' @ apqi" and ?p = "driverOverridePath apid apqi"
  obtain r1 w1 k1 where u: "unbindQueue_log os ?q apid apqi w k = (r1, w1, k1)"
      "unbindQueue os ?q apid apqi w = (r1, w1)" "extends of_preparation k k1"
    by (rule unbindQueue_log_cases)
  then show ?thesis
    by (simp add: SwitchToZcrypt_log_def SwitchToZcrypt_def Let_def forget_def log_of_def extends_intros
        split: option.split prod.split)
qed

text \<open>
  At default verbosity a switch reports one line, as the comment on \<open>detailLevel\<close> says:
  a successful switch of a queue that was bound to a driver adds exactly the line that says
  so. (A queue bound to no driver adds one more, that there was nothing to unbind.)
\<close>

theorem SwitchToZcrypt_log_quiet:
  assumes quiet: "\<not> kl_V k detailLevel"
    and unbound: "os_WriteFile os (deviceUnbindPath apid apqi) (apid @ ''.'' @ apqi) sysfsWriteMode w = (None, w1)"
    and ok: "fst (SwitchToZcrypt os apid apqi w) = None"
  shows "kl_lines (log_of (SwitchToZcrypt_log os apid apqi w k)) =
    kl_lines k @ [(Info, line phase_Preparation ''Switched %s back to zcrypt via driver_override'' [LStr (apid @ ''.'' @ apqi)])]"
proof -
  have "unbindQueue_log os (apid @ ''.'' @ apqi) apid apqi w k = (None, w1, k)"
      "unbindQueue os (apid @ ''.'' @ apqi) apid apqi w = (None, w1)"
    using unbound by (simp_all add: unbindQueue_log_def unbindQueue_def)
  moreover from this ok obtain w2 w3 where
      "os_WriteFile os (driverOverridePath apid apqi) [nl] sysfsWriteMode w1 = (None, w2)"
      "os_WriteFile os DriversProbePath (apid @ ''.'' @ apqi) sysfsWriteMode w2 = (None, w3)"
    by (auto simp: SwitchToZcrypt_def Let_def split: option.splits prod.splits)
  ultimately show ?thesis
    using quiet
    by (simp add: SwitchToZcrypt_log_def log_of_def logOverride_quiet Vf_quiet Logf_def klog_InfoDepth_def)
qed

end
