(* ===== verification/Spec2Isabelle.thy ===== *)
theory Spec2Isabelle
  imports Binding_Props Scan_Props Metadata_Props Features_Props Lock Driver_Witness Crash_Recovery Shutdown Cli_Props Logphase
begin

text \<open>
  A verification of the DRA kubelet plugin for IBM Crypto Express adapters
  (\<open>cmd/cex-dra-kubeletplugin\<close> and the packages under \<open>internal\<close>).

  \<^bold>\<open>The program.\<close> The plugin runs on every node. At startup (\<open>main.go\<close>) it parses its
  flags and resolves its feature gates, checks the node (\<open>preflight\<close>), reconciles what a previous run left behind,
  scans the AP bus (\<open>apscanner\<close>) and publishes the crypto queues it finds, one pool per
  card (\<open>driver\<close>, \<open>devicestate\<close>). A scan loop repeats this and stamps a heartbeat that
  the liveness service reads (\<open>health\<close>). The kubelet calls it to prepare and unprepare
  claims: \<open>Prepare\<close> gives the claim's queues to the vfio-ap driver (\<open>binding\<close>), builds
  a mediated device with exactly these queues (\<open>mdev\<close>), and writes the claim's metadata
  (\<open>metadata\<close>) and its CDI spec (\<open>cdi\<close>); \<open>Unprepare\<close> undoes this. What a claim may
  configure is in \<open>cryptoconfig\<close>.

  \<^bold>\<open>The world.\<close> The code keeps its durable state in the kernel and in files, so every
  operation takes and returns a world \<open>'w\<close>, on which it acts through \<open>'w os\<close>, the
  operations of package \<open>os\<close> it uses (\<open>Go_OS\<close>). The kernel and the file system are not
  the repository's code; what the driver relies on is stated as locales over that parameter:
  \<open>ap_bus\<close> and \<open>ap_node\<close> (\<open>Ap_Kernel\<close>) say what a write to \<open>driver_override\<close>,
  \<open>unbind\<close>, \<open>drivers_probe\<close> and the mdev attributes does to the queues and devices,
  \<open>file_store\<close> (\<open>File_Store\<close>) what reads, writes and removals do to ordinary files,
  and \<open>node\<close> (\<open>Node\<close>) joins them. A failed operation leaves its own target in any state
  the law allows, never more. \<open>Ap_Sim\<close> is an executable operating system with three
  queues that satisfies all of them; the witnesses run the model on it, on a variant without
  injected failures (\<open>calm_os\<close>), or on a plain table of files (\<open>mem_os\<close>).

  \<^bold>\<open>Theories and source.\<close>

  \<^item> \<open>Go_Prelude\<close>, \<open>Go_OS\<close>, \<open>Go_Json\<close>, \<open>Resource_Api\<close>: the used parts of Go's
    errors, strings, maps, paths, \<open>os\<close> and \<open>encoding/json\<close>, and the resource API types.
    A Go map is an association list; where a loop goes through one, the order is an argument,
    and the theorems hold for every order.
  \<^item> \<open>Sysfs\<close> (\<open>sysfs/*.go\<close>), \<open>Mdev\<close> (\<open>mdev/mdev.go\<close>), \<open>Binding\<close>
    (\<open>binding/*.go\<close>), \<open>Cdi\<close>, \<open>Metadata\<close>, \<open>Cryptoconfig\<close>, \<open>Apscanner\<close>,
    \<open>Devicestate\<close>, \<open>Driver\<close>, \<open>Features\<close>, \<open>Health\<close>, \<open>Preflight\<close>, \<open>Version\<close>:
    one theory per package with its types and one definition per function; a loop of a
    function is a recursive function of its own. \<open>Startup\<close> is \<open>main.go\<close> from the parsed
    flags on, \<open>Cli\<close> its flag table and the part of the vendored \<open>cli\<close> library that
    parses by it.
  \<^item> \<open>Logphase\<close> (\<open>logphase/logphase.go\<close>): the log functions, and the functions of
    \<open>binding.go\<close> once more with their log lines, shown to do what \<open>Binding\<close> says.
  \<^item> \<open>Lock\<close>: the state lock of \<open>devicestate\<close> as a step relation over goroutines. It is
    why the other theories may take a method of the device state as one step.
  \<^item> \<open>Driver_Props\<close>: the running process as a step relation \<open>step\<close>, in which the scan
    loop and the claim calls interleave, and the locale \<open>process_invariant\<close> with its
    interpretations. \<open>Shutdown\<close>: the end of the run as a step relation over it, whose
    steps say whether they take a tick.
  \<^item> \<open>Claim_Node\<close>, \<open>Claim_Files\<close>, \<open>Node_Sim\<close>: the operations of \<open>Devicestate\<close> over the
    laws of a node, what they do to the kernel and what to the files;
    \<open>Reconcile\<close>: the startup reconciliation, both of whose collectors are instances of the
    locale \<open>stale_gc\<close>. \<open>Crash_Recovery\<close>: an operating system that stops serving after any
    number of writes is again a node, so the claim operations can be cut off anywhere and the
    reconciliation run on what they leave.
  \<^item> the theories ending in \<open>_Props\<close> hold the theorems of a component, those ending in
    \<open>_Witness\<close> concrete runs.

  \<^bold>\<open>What is shown.\<close>

  \<^item> Queues: a switch that fails or dies at any write leaves the queue recoverable and touches
    nothing else (C1); there and back restores the kernel (\<open>switch_there_and_back\<close>); a failing
    way back keeps the marker, unless the write that restores it fails too (C28), and dying on the way back is recoverable at every point
    but one (C3); the drain returns exactly the marked queues no mediated device claims
    (C12, C13).
  \<^item> Claims: \<open>Prepare\<close> keeps or builds a device with exactly the allocated queues (C4, C6),
    changes neither queues nor devices nor files of anyone else on any path (C9), has effects
    only for a claim it should serve (C11), can be repeated (C10, C26), rolls back its
    switches as far as the kernel accepts that (C8); \<open>Unprepare\<close> leaves nothing of the claim
    and takes nothing from others (C7), and together they restore the kernel (C5). A restart
    keeps live claims and clears dead ones (C14, C15), and after a crash anywhere in
    \<open>Prepare\<close> at most one queue of the claim is stranded, and that only if the crash hit a
    rollback (C2, \<open>Prepare_crash_in_rollback\<close>).
  \<^item> Inventory: what a scan returns and when it fails (C23, C24, C31), the bounded memory for
    master key patterns (C22), change detection, up to collisions of SHA-256 (C20, C21), and that what is published is
    what is served (C16), that scan requests are not lost (C17), that the step relation
    covers the code's cycle (C18), that published names fit the API (C37).
  \<^item> Calls and configuration: one answer per claim (C32), metadata
    generations (C25), claim configuration (C29, C30), feature gates (C27), and where the
    values of the flags come from (C34).
  \<^item> The process: mutual exclusion and no pile-up behind a stuck holder (C36), exit codes
    of the whole process, panics included (C33), an orderly end (C19), preflight (C38),
    liveness and its watchdog (C35, C39, C40).

  Some theorems show where the code falls short of what its comments say: C3, a crash point
  after which a queue is in neither driver pool, and, without a number,
  \<open>DrainOrphanedVFIOAP_unreadable_matrix\<close> and \<open>failed_create_strands_queues\<close> on two
  error paths that take queues away or leave them behind,
  \<open>Parse_accepts_trailing\<close>, \<open>retry_keeps_missing_control_domains\<close>,
  \<open>deprecated_gate_hidden\<close>, \<open>scan_interval_unchecked\<close>,
  \<open>zero_interval_panics\<close>, \<open>Prepare_without_results_ungated\<close>, \<open>fatal_error_taken_for_shutdown\<close>.

  \<^bold>\<open>Bounds.\<close> Durations and the update counter are 64-bit with wrap-around written out
  (\<open>wrap64\<close>), \<open>Atoi\<close> checks its range, other lengths and counts are of objects in memory
  and taken as unbounded. No definition uses fuel except the JSON reader, whose fuel is the
  length of its input; every recursive call consumes a byte.

  \<^bold>\<open>Simplifications.\<close> A scan reads the bus at one moment. Strings are bytes, and the
  functions of \<open>strings\<close> are those on ASCII. The text of an error is its format string with
  arguments, not the formatted bytes. Two metadata or spec files are never the same path
  under two names (no symbolic links). In \<open>Go_Json\<close> bytes from 0x80 are printed as they are,
  where Go escapes U+2028 and U+2029 and replaces invalid UTF-8, and field names are matched
  up to the case of ASCII letters only. No claim call is interleaved between the start of the
  helper and the return of \<open>New\<close>. \<open>runPlugin\<close> follows the main goroutine; what the others
  do meanwhile is an argument there and a step relation in \<open>Driver_Props\<close> and \<open>Shutdown\<close>.

  \<^bold>\<open>Not modelled.\<close> The log lines of the packages other than \<open>binding\<close>, except where
  the lines are the result (preflight report, watchdog); they change no state. The rendering
  of a line, the conversion of a flag's text to a number or duration, and the printing of
  help. The kubelet plugin helper, the gRPC server, the Kubernetes client and signal
  handling, which are library code and appear as parameters; SHA-256, a parameter; pinning
  of the scan to an OS thread.
\<close>

end
